theory Spec2Isabelle
  imports Main "HOL-Library.Word" "HOL-Library.Code_Target_Nat"
begin

section \<open>Strings and truthiness of the host language\<close>

text \<open>
  A string of the program is a sequence of UTF-16 code units.  A code unit is modelled
  as a natural number; string literals of the source are written \<open>js ''...''\<close>.
\<close>

type_synonym jsstring = "nat list"

definition js :: "string \<Rightarrow> jsstring" where
  "js s = map of_char s"

text \<open>A value of type \<open>string | null\<close> is truthy when it is a non-empty string.\<close>

fun truthy :: "jsstring option \<Rightarrow> bool" where
  "truthy None = False"
| "truthy (Some s) = (s \<noteq> [])"

section \<open>Rate limiter (src/middleware/auth.ts, class AuthRateLimiter)\<close>

record attempt_record =
  count :: int
  lastAttempt :: int

type_synonym attempts = "jsstring \<rightharpoonup> attempt_record"

definition maxAttempts :: int where
  "maxAttempts = 5"

definition windowMs :: int where
  "windowMs = 15 * 60 * 1000"

text \<open>
  \<open>isRateLimited\<close> reads the clock (\<open>Date.now()\<close>, the first argument) and mutates the
  map; the model returns the answer together with the updated map.
\<close>

definition isRateLimited :: "int \<Rightarrow> jsstring \<Rightarrow> attempts \<Rightarrow> bool \<times> attempts" where
  "isRateLimited now ip att =
     (case att ip of
        None \<Rightarrow> (False, att(ip \<mapsto> \<lparr>count = 1, lastAttempt = now\<rparr>))
      | Some record \<Rightarrow>
          if now - lastAttempt record > windowMs
          then (False, att(ip \<mapsto> \<lparr>count = 1, lastAttempt = now\<rparr>))
          else (count record + 1 > maxAttempts,
                att(ip \<mapsto> \<lparr>count = count record + 1, lastAttempt = now\<rparr>)))"

definition reset :: "jsstring \<Rightarrow> attempts \<Rightarrow> attempts" where
  "reset ip att = att(ip := None)"

text \<open>A run of calls to \<open>isRateLimited\<close> for one client, at the given clock readings.\<close>

fun calls :: "int list \<Rightarrow> jsstring \<Rightarrow> attempts \<Rightarrow> bool list \<times> attempts" where
  "calls [] ip att = ([], att)"
| "calls (t # ts) ip att =
     (case isRateLimited t ip att of
        (b, att') \<Rightarrow> (case calls ts ip att' of (bs, att'') \<Rightarrow> (b # bs, att'')))"

text \<open>Every call of the run comes at most one window after the call before it.\<close>

fun within_window :: "int \<Rightarrow> int list \<Rightarrow> bool" where
  "within_window t0 [] = True"
| "within_window t0 (t # ts) = (t - t0 \<le> windowMs \<and> within_window t ts)"

section \<open>String operations of the host language\<close>

definition startsWith :: "jsstring \<Rightarrow> jsstring \<Rightarrow> bool" where
  "startsWith s p = (take (length p) s = p)"

fun includes_str :: "jsstring \<Rightarrow> jsstring \<Rightarrow> bool" where
  "includes_str [] sub = (sub = [])"
| "includes_str (c # cs) sub = (startsWith (c # cs) sub \<or> includes_str cs sub)"

text \<open>
  Case conversion, on the letters A-Z and a-z.  The program converts HTTP methods, tag,
  attribute and property names (all ASCII), and otherwise only tests the converted text
  against ASCII literals.
\<close>

definition upper_unit :: "nat \<Rightarrow> nat" where
  "upper_unit c = (if 97 \<le> c \<and> c \<le> 122 then c - 32 else c)"

definition lower_unit :: "nat \<Rightarrow> nat" where
  "lower_unit c = (if 65 \<le> c \<and> c \<le> 90 then c + 32 else c)"

definition toUpperCase :: "jsstring \<Rightarrow> jsstring" where
  "toUpperCase s = map upper_unit s"

definition toLowerCase :: "jsstring \<Rightarrow> jsstring" where
  "toLowerCase s = map lower_unit s"

fun join :: "jsstring \<Rightarrow> jsstring list \<Rightarrow> jsstring" where
  "join sep [] = []"
| "join sep [x] = x"
| "join sep (x # y # ys) = x @ sep @ join sep (y # ys)"

text \<open>
  \<open>String.prototype.split\<close> with a one-unit separator: the result always has at least
  one part.
\<close>

fun split :: "nat \<Rightarrow> jsstring \<Rightarrow> jsstring list" where
  "split sep [] = [[]]"
| "split sep (c # cs) =
     (if c = sep then [] # split sep cs
      else (case split sep cs of [] \<Rightarrow> [[c]] | p # ps \<Rightarrow> (c # p) # ps))"

section \<open>Numbers and JSON text\<close>

text \<open>
  The numbers of the program are clock readings, durations and counters.  They are
  modelled as unbounded integers, with \<open>NaN\<close> for the result of a failed \<open>parseInt\<close>;
  the rounding of IEEE doubles beyond \<open>2^53\<close> is not modelled.
\<close>

datatype number = Num int | NaN

fun digits_of :: "nat \<Rightarrow> jsstring" where
  "digits_of n = (if n < 10 then [48 + n] else digits_of (n div 10) @ [48 + n mod 10])"

declare digits_of.simps [simp del]

definition Number_toString :: "int \<Rightarrow> jsstring" where
  "Number_toString i = (if i < 0 then 45 # digits_of (nat (- i)) else digits_of (nat i))"

text \<open>
  A JSON value.  \<open>JReal\<close> is a number written with a fraction or an exponent, kept as
  its text: the program writes whole numbers only and never computes with another one.
\<close>

datatype json = JNull | JBool bool | JNum int | JReal jsstring | JStr jsstring
  | JArr "json list" | JObj "(jsstring \<times> json) list"

definition hex_unit :: "nat \<Rightarrow> nat" where
  "hex_unit d = (if d < 10 then 48 + d else 87 + d)"

definition unicode_escape :: "nat \<Rightarrow> jsstring" where
  "unicode_escape c =
     [92, 117, hex_unit (c div 4096 mod 16), hex_unit (c div 256 mod 16),
      hex_unit (c div 16 mod 16), hex_unit (c mod 16)]"

definition is_lead :: "nat \<Rightarrow> bool" where
  "is_lead c = (55296 \<le> c \<and> c \<le> 56319)"

definition is_trail :: "nat \<Rightarrow> bool" where
  "is_trail c = (56320 \<le> c \<and> c \<le> 57343)"

text \<open>One code unit that is not a surrogate, as \<open>JSON.stringify\<close> writes it in a string.\<close>

definition quote_unit :: "nat \<Rightarrow> jsstring" where
  "quote_unit c =
     (if c = 8 then [92, 98] else if c = 9 then [92, 116] else if c = 10 then [92, 110]
      else if c = 12 then [92, 102] else if c = 13 then [92, 114]
      else if c = 34 then [92, 34] else if c = 92 then [92, 92]
      else if c < 32 then unicode_escape c else [c])"

fun quote_units :: "jsstring \<Rightarrow> jsstring" where
  "quote_units [] = []"
| "quote_units [c] =
     (if is_lead c \<or> is_trail c then unicode_escape c else quote_unit c)"
| "quote_units (c # d # ds) =
     (if is_lead c then
        (if is_trail d then c # d # quote_units ds else unicode_escape c @ quote_units (d # ds))
      else if is_trail c then unicode_escape c @ quote_units (d # ds)
      else quote_unit c @ quote_units (d # ds))"

definition QuoteJSONString :: "jsstring \<Rightarrow> jsstring" where
  "QuoteJSONString s = [34] @ quote_units s @ [34]"

fun JSON_stringify :: "json \<Rightarrow> jsstring" where
  "JSON_stringify JNull = js ''null''"
| "JSON_stringify (JBool b) = (if b then js ''true'' else js ''false'')"
| "JSON_stringify (JNum i) = Number_toString i"
| "JSON_stringify (JReal t) = t"
| "JSON_stringify (JStr s) = QuoteJSONString s"
| "JSON_stringify (JArr xs) = [91] @ join [44] (map JSON_stringify xs) @ [93]"
| "JSON_stringify (JObj ms) =
     [123] @ join [44] (map (\<lambda>(k, v). QuoteJSONString k @ [58] @ JSON_stringify v) ms) @ [125]"

section \<open>Requests, environment and responses\<close>

text \<open>
  A request is its method and its headers.  Header names are case-insensitive: the map is
  keyed by the lower-case name, and \<open>headers_get\<close> is \<open>request.headers.get(name)\<close>, which
  gives \<open>null\<close> (\<open>None\<close>) for an absent header.
\<close>

record request =
  req_method :: jsstring
  req_headers :: "jsstring \<rightharpoonup> jsstring"

definition headers_get :: "request \<Rightarrow> string \<Rightarrow> jsstring option" where
  "headers_get r name = req_headers r (toLowerCase (js name))"

record env =
  ADMIN_PASSWORD :: "jsstring option"
  ENVIRONMENT :: "jsstring option"
  SESSIONS :: "(jsstring \<rightharpoonup> jsstring) option"
  JWT_SECRET :: "jsstring option"
  ACCESS_TOKEN_EXPIRY :: "jsstring option"
  REFRESH_TOKEN_EXPIRY :: "jsstring option"

text \<open>A response: status code, headers, and the body text.  Log output is not modelled.\<close>

record response =
  status :: nat
  res_headers :: "(jsstring \<times> jsstring) list"
  body :: jsstring

definition json_response :: "nat \<Rightarrow> json \<Rightarrow> response" where
  "json_response st payload =
     \<lparr>status = st, res_headers = [(js ''Content-Type'', js ''application/json'')],
      body = JSON_stringify payload\<rparr>"

section \<open>CSRF guard (src/middleware/auth.ts)\<close>

definition isDevelopment :: "env \<Rightarrow> bool" where
  "isDevelopment e = (ENVIRONMENT e = Some (js ''development''))"

definition allowedOrigins :: "env \<Rightarrow> jsstring list" where
  "allowedOrigins e =
     [js ''https://component-management.vercel.app''] @
     (if isDevelopment e
      then [js ''http://localhost:3000'', js ''http://localhost:5173'',
            js ''http://127.0.0.1:3000'', js ''http://127.0.0.1:5173'']
      else [])"

definition validateReferer :: "request \<Rightarrow> env \<Rightarrow> bool" where
  "validateReferer r e =
     (let referer = headers_get r ''Referer''; origin = headers_get r ''Origin'' in
      if truthy origin then (case origin of Some v \<Rightarrow> v \<in> set (allowedOrigins e) | None \<Rightarrow> False)
      else if truthy referer
      then (case referer of Some v \<Rightarrow> list_ex (\<lambda>allowedOrigin. startsWith v allowedOrigin) (allowedOrigins e)
            | None \<Rightarrow> False)
      else False)"

definition validateJWTSignature :: "request \<Rightarrow> bool" where
  "validateJWTSignature r =
     (case headers_get r ''Authorization'' of
        Some authHeader \<Rightarrow> startsWith authHeader (js ''Bearer '')
      | None \<Rightarrow> False)"

definition validXRequestedWithValues :: "jsstring list" where
  "validXRequestedWithValues =
     [js ''XMLHttpRequest'', js ''fetch'', js ''application/json'', js ''component-api'']"

definition validateCustomHeaders :: "request \<Rightarrow> bool" where
  "validateCustomHeaders r =
     (let xRequestedWith = headers_get r ''X-Requested-With'' in
      if truthy xRequestedWith \<and>
         (case xRequestedWith of Some v \<Rightarrow> v \<in> set validXRequestedWithValues | None \<Rightarrow> False)
      then True
      else if headers_get r ''X-App-Name'' = Some (js ''component-management'') then True
      else if (case headers_get r ''Content-Type'' of
                 Some contentType \<Rightarrow> includes_str contentType (js ''application/json'')
               | None \<Rightarrow> False)
      then (let method = toUpperCase (req_method r);
                hasCustomHeaders = (truthy (headers_get r ''X-Requested-With'') \<or>
                                    truthy (headers_get r ''X-App-Name'') \<or>
                                    truthy (headers_get r ''Authorization''))
            in if method = js ''POST'' \<and> \<not> hasCustomHeaders then False else True)
      else False)"

definition layer_status :: "bool \<Rightarrow> json" where
  "layer_status b = JStr (if b then js ''valid'' else js ''invalid'')"

text \<open>The object that the guard serialises into the body of its 403 response.\<close>

definition csrf_rejection_payload :: "bool \<Rightarrow> bool \<Rightarrow> bool \<Rightarrow> int \<Rightarrow> json" where
  "csrf_rejection_payload hasValidOrigin hasValidHeaders hasValidJWT minProtectionLayers =
     JObj [
       (js ''error'', JStr (js ''CSRF protection'')),
       (js ''message'', JStr (js ''Request blocked by CSRF protection. Need at least '' @
                              Number_toString minProtectionLayers @ js '' security layer(s).'')),
       (js ''details'', JObj [
          (js ''required'', JStr (js ''At least '' @ Number_toString minProtectionLayers @
                                  js '' of the following layers:'')),
          (js ''layers'', JArr [
             JObj [(js ''name'', JStr (js ''Valid Origin/Referer'')),
                   (js ''status'', layer_status hasValidOrigin),
                   (js ''description'', JStr (js ''Request from allowed domain''))],
             JObj [(js ''name'', JStr (js ''Custom Headers'')),
                   (js ''status'', layer_status hasValidHeaders),
                   (js ''description'', JStr (js ''X-Requested-With or X-App-Name headers''))],
             JObj [(js ''name'', JStr (js ''JWT Signature'')),
                   (js ''status'', layer_status hasValidJWT),
                   (js ''description'', JStr (js ''Valid JWT Bearer token''))]])])]"

definition protectionCount :: "request \<Rightarrow> env \<Rightarrow> nat" where
  "protectionCount r e =
     length (filter (\<lambda>b. b) [validateReferer r e, validateCustomHeaders r, validateJWTSignature r])"

definition minProtectionLayers :: "env \<Rightarrow> nat" where
  "minProtectionLayers e = (if isDevelopment e then 1 else 2)"

text \<open>\<open>None\<close> is the source's \<open>null\<close>: the request may proceed.\<close>

definition requireCSRFProtection :: "request \<Rightarrow> env \<Rightarrow> response option" where
  "requireCSRFProtection r e =
     (let method = toUpperCase (req_method r) in
      if method \<notin> set [js ''POST'', js ''PUT'', js ''DELETE''] then None
      else
        let hasValidOrigin = validateReferer r e;
            hasValidHeaders = validateCustomHeaders r;
            hasValidJWT = validateJWTSignature r
        in if protectionCount r e < minProtectionLayers e
           then Some (json_response 403
                  (csrf_rejection_payload hasValidOrigin hasValidHeaders hasValidJWT
                     (int (minProtectionLayers e))))
           else None)"

section \<open>Errors thrown by the program and by the platform\<close>

text \<open>
  \<open>Error m\<close> is \<open>new Error(m)\<close> thrown by the program.  The others are raised by the
  platform: \<open>InvalidCharacterError\<close> by \<open>btoa\<close> and \<open>atob\<close>, \<open>DataError\<close> by
  \<open>crypto.subtle.importKey\<close> on an empty key, \<open>SyntaxError\<close> by \<open>JSON.parse\<close>,
  \<open>TypeError\<close> by a property read on \<open>null\<close>.  \<open>FuelExhausted\<close> is the answer of the
  JSON reader at its bound on the number of calls, which \<open>JSON_parse\<close> never reaches
  (lemma \<open>JSON_parse_error\<close>).  \<open>Unmodelled\<close> marks the one place where the model stops
  short of the platform: a refresh for a \<open>userId\<close> that is not a string.
\<close>

datatype error = Error jsstring | InvalidCharacterError | DataError | SyntaxError | TypeError
  | FuelExhausted | Unmodelled

section \<open>White space\<close>

text \<open>The white space of \<open>String.prototype.trim\<close>, \<open>parseInt\<close> and the pattern \<open>\s\<close>.\<close>

definition is_space :: "nat \<Rightarrow> bool" where
  "is_space c =
     (c = 9 \<or> c = 10 \<or> c = 11 \<or> c = 12 \<or> c = 13 \<or> c = 32 \<or> c = 160 \<or> c = 5760
      \<or> (8192 \<le> c \<and> c \<le> 8202) \<or> c = 8232 \<or> c = 8233 \<or> c = 8239 \<or> c = 8287
      \<or> c = 12288 \<or> c = 65279)"

definition trim :: "jsstring \<Rightarrow> jsstring" where
  "trim s = rev (dropWhile is_space (rev (dropWhile is_space s)))"

definition is_digit :: "nat \<Rightarrow> bool" where
  "is_digit c = (48 \<le> c \<and> c \<le> 57)"

definition decimal_value :: "jsstring \<Rightarrow> int" where
  "decimal_value ds = foldl (\<lambda>a d. 10 * a + (int d - 48)) 0 ds"

section \<open>Reading JSON text\<close>

text \<open>\<open>JSON.parse\<close>, as a recursive-descent reader.\<close>

definition hex_value :: "nat \<Rightarrow> nat option" where
  "hex_value c =
     (if 48 \<le> c \<and> c \<le> 57 then Some (c - 48)
      else if 97 \<le> c \<and> c \<le> 102 then Some (c - 87)
      else if 65 \<le> c \<and> c \<le> 70 then Some (c - 55)
      else None)"

definition hex4 :: "nat \<Rightarrow> nat \<Rightarrow> nat \<Rightarrow> nat \<Rightarrow> nat option" where
  "hex4 a b c d =
     (case (hex_value a, hex_value b, hex_value c, hex_value d) of
        (Some p, Some q, Some r, Some s) \<Rightarrow> Some (p * 4096 + q * 256 + r * 16 + s)
      | _ \<Rightarrow> None)"

definition simple_escape :: "nat \<Rightarrow> nat option" where
  "simple_escape e =
     (if e = 34 then Some 34 else if e = 92 then Some 92 else if e = 47 then Some 47
      else if e = 98 then Some 8 else if e = 102 then Some 12 else if e = 110 then Some 10
      else if e = 114 then Some 13 else if e = 116 then Some 9 else None)"

definition cons_unit :: "nat \<Rightarrow> (jsstring \<times> jsstring) option \<Rightarrow> (jsstring \<times> jsstring) option" where
  "cons_unit u r = map_option (\<lambda>(s, rest). (u # s, rest)) r"

text \<open>The units after an opening quote: the string read, and the text after the closing quote.\<close>

fun parse_string_body :: "jsstring \<Rightarrow> (jsstring \<times> jsstring) option" where
  "parse_string_body [] = None"
| "parse_string_body (c # cs) =
     (if c = 34 then Some ([], cs)
      else if c = 92 then
        (case cs of
           [] \<Rightarrow> None
         | e # es \<Rightarrow>
             if e = 117 then
               (case es of
                  h1 # h2 # h3 # h4 # r \<Rightarrow>
                    (case hex4 h1 h2 h3 h4 of
                       None \<Rightarrow> None
                     | Some u \<Rightarrow> cons_unit u (parse_string_body r))
                | _ \<Rightarrow> None)
             else
               (case simple_escape e of
                  None \<Rightarrow> None
                | Some u \<Rightarrow> cons_unit u (parse_string_body es)))
      else if c < 32 then None
      else cons_unit c (parse_string_body cs))"

definition is_json_ws :: "nat \<Rightarrow> bool" where
  "is_json_ws c = (c = 9 \<or> c = 10 \<or> c = 13 \<or> c = 32)"

definition skip_ws :: "jsstring \<Rightarrow> jsstring" where
  "skip_ws s = dropWhile is_json_ws s"

text \<open>
  A number: the whole part is \<open>0\<close> or starts with a non-zero digit.  A well-formed
  fraction or exponent makes the value a \<open>JReal\<close>.
\<close>

definition parse_fraction :: "jsstring \<Rightarrow> (jsstring \<times> jsstring) option" where
  "parse_fraction s =
     (case s of
        [] \<Rightarrow> Some ([], s)
      | c # cs \<Rightarrow>
          if c = 46 then
            (if takeWhile is_digit cs = [] then None
             else Some (c # takeWhile is_digit cs, dropWhile is_digit cs))
          else Some ([], s))"

definition parse_exponent :: "jsstring \<Rightarrow> (jsstring \<times> jsstring) option" where
  "parse_exponent s =
     (case s of
        [] \<Rightarrow> Some ([], s)
      | c # cs \<Rightarrow>
          if c = 101 \<or> c = 69 then
            (let sign = (case cs of [] \<Rightarrow> [] | d # ds \<Rightarrow> if d = 43 \<or> d = 45 then [d] else []);
                 rest = drop (length sign) cs
             in if takeWhile is_digit rest = [] then None
                else Some (c # sign @ takeWhile is_digit rest, dropWhile is_digit rest))
          else Some ([], s))"

definition minus_part :: "jsstring \<Rightarrow> jsstring" where
  "minus_part s = (case s of [] \<Rightarrow> [] | c # cs \<Rightarrow> if c = 45 then [c] else [])"

definition whole_part :: "jsstring \<Rightarrow> jsstring" where
  "whole_part s = (case s of [] \<Rightarrow> [] | c # cs \<Rightarrow> if c = 48 then [c] else takeWhile is_digit s)"

definition parse_number :: "jsstring \<Rightarrow> (json \<times> jsstring) option" where
  "parse_number s =
     (let minus = minus_part s;
          s1 = drop (length minus) s;
          whole = whole_part s1;
          s2 = drop (length whole) s1
      in if whole = [] then None
         else case parse_fraction s2 of
                None \<Rightarrow> None
              | Some (frac, s3) \<Rightarrow>
                  (case parse_exponent s3 of
                     None \<Rightarrow> None
                   | Some (ex, s4) \<Rightarrow>
                       if frac = [] \<and> ex = []
                       then Some (JNum (if minus = [] then decimal_value whole
                                        else - decimal_value whole), s4)
                       else Some (JReal (minus @ whole @ frac @ ex), s4)))"

text \<open>
  Values, array elements and object members.  The first argument bounds the number of
  calls; \<open>JSON_parse\<close> starts with more than twice the length of the text, which
  the reader never uses up (lemma \<open>parse_enough_fuel\<close>).
\<close>

fun parse_value :: "nat \<Rightarrow> jsstring \<Rightarrow> error + (json \<times> jsstring)"
  and parse_elements :: "nat \<Rightarrow> jsstring \<Rightarrow> json list \<Rightarrow> error + (json \<times> jsstring)"
  and parse_members :: "nat \<Rightarrow> jsstring \<Rightarrow> (jsstring \<times> json) list \<Rightarrow> error + (json \<times> jsstring)"
where
  "parse_value 0 s = Inl FuelExhausted"
| "parse_value (Suc n) s =
     (case skip_ws s of
        [] \<Rightarrow> Inl SyntaxError
      | c # cs \<Rightarrow>
          if c = 34 then
            (case parse_string_body cs of
               None \<Rightarrow> Inl SyntaxError
             | Some (str, r) \<Rightarrow> Inr (JStr str, r))
          else if c = 91 then
            (case skip_ws cs of
               [] \<Rightarrow> Inl SyntaxError
             | d # ds \<Rightarrow> if d = 93 then Inr (JArr [], ds) else parse_elements n cs [])
          else if c = 123 then
            (case skip_ws cs of
               [] \<Rightarrow> Inl SyntaxError
             | d # ds \<Rightarrow> if d = 125 then Inr (JObj [], ds) else parse_members n cs [])
          else if startsWith (c # cs) (js ''true'') then Inr (JBool True, drop 4 (c # cs))
          else if startsWith (c # cs) (js ''false'') then Inr (JBool False, drop 5 (c # cs))
          else if startsWith (c # cs) (js ''null'') then Inr (JNull, drop 4 (c # cs))
          else (case parse_number (c # cs) of
                  None \<Rightarrow> Inl SyntaxError
                | Some (v, r) \<Rightarrow> Inr (v, r)))"
| "parse_elements 0 s acc = Inl FuelExhausted"
| "parse_elements (Suc n) s acc =
     (case parse_value n s of
        Inl e \<Rightarrow> Inl e
      | Inr (v, r) \<Rightarrow>
          (case skip_ws r of
             [] \<Rightarrow> Inl SyntaxError
           | c # r' \<Rightarrow>
               if c = 44 then parse_elements n r' (acc @ [v])
               else if c = 93 then Inr (JArr (acc @ [v]), r')
               else Inl SyntaxError))"
| "parse_members 0 s acc = Inl FuelExhausted"
| "parse_members (Suc n) s acc =
     (case skip_ws s of
        [] \<Rightarrow> Inl SyntaxError
      | q # s1 \<Rightarrow>
          if q \<noteq> 34 then Inl SyntaxError
          else
            (case parse_string_body s1 of
               None \<Rightarrow> Inl SyntaxError
             | Some (k, s2) \<Rightarrow>
                 (case skip_ws s2 of
                    [] \<Rightarrow> Inl SyntaxError
                  | colon # s3 \<Rightarrow>
                      if colon \<noteq> 58 then Inl SyntaxError
                      else
                        (case parse_value n s3 of
                           Inl e \<Rightarrow> Inl e
                         | Inr (v, r) \<Rightarrow>
                             (case skip_ws r of
                                [] \<Rightarrow> Inl SyntaxError
                              | c # r' \<Rightarrow>
                                  if c = 44 then parse_members n r' (acc @ [(k, v)])
                                  else if c = 125 then Inr (JObj (acc @ [(k, v)]), r')
                                  else Inl SyntaxError)))))"

definition JSON_parse :: "jsstring \<Rightarrow> error + json" where
  "JSON_parse s =
     (case parse_value (Suc (2 * length s)) s of
        Inl e \<Rightarrow> Inl e
      | Inr (v, r) \<Rightarrow> if skip_ws r = [] then Inr v else Inl SyntaxError)"

text \<open>
  Reading a property of a parsed object: of members with the same key the last one counts.
  \<open>None\<close> is \<open>undefined\<close>.
\<close>

definition get_prop :: "json \<Rightarrow> string \<Rightarrow> json option" where
  "get_prop v name = (case v of JObj ms \<Rightarrow> map_of (rev ms) (js name) | _ \<Rightarrow> None)"

section \<open>Base64 (the platform's btoa and atob)\<close>

definition b64_unit :: "nat \<Rightarrow> nat" where
  "b64_unit v =
     (if v < 26 then 65 + v else if v < 52 then 71 + v else if v < 62 then v - 4
      else if v = 62 then 43 else 47)"

definition b64_value :: "nat \<Rightarrow> nat option" where
  "b64_value c =
     (if 65 \<le> c \<and> c \<le> 90 then Some (c - 65)
      else if 97 \<le> c \<and> c \<le> 122 then Some (c - 71)
      else if 48 \<le> c \<and> c \<le> 57 then Some (c + 4)
      else if c = 43 then Some 62
      else if c = 47 then Some 63
      else None)"

text \<open>Bytes to 6-bit groups, three bytes at a time, and back.\<close>

fun sextets :: "nat list \<Rightarrow> nat list" where
  "sextets (a # b # c # rest) =
     [a div 4, (a mod 4) * 16 + b div 16, (b mod 16) * 4 + c div 64, c mod 64] @ sextets rest"
| "sextets [a, b] = [a div 4, (a mod 4) * 16 + b div 16, (b mod 16) * 4]"
| "sextets [a] = [a div 4, (a mod 4) * 16]"
| "sextets [] = []"

fun octets :: "nat list \<Rightarrow> nat list" where
  "octets (p # q # r # s # rest) =
     [p * 4 + q div 16, (q mod 16) * 16 + r div 4, (r mod 4) * 64 + s] @ octets rest"
| "octets [p, q, r] = [p * 4 + q div 16, (q mod 16) * 16 + r div 4]"
| "octets [p, q] = [p * 4 + q div 16]"
| "octets [p] = []"
| "octets [] = []"

definition btoa :: "jsstring \<Rightarrow> error + jsstring" where
  "btoa s =
     (if list_ex (\<lambda>c. 255 < c) s then Inl InvalidCharacterError
      else Inr (map b64_unit (sextets s) @ replicate ((3 - length s mod 3) mod 3) 61))"

definition is_ascii_ws :: "nat \<Rightarrow> bool" where
  "is_ascii_ws c = (c = 9 \<or> c = 10 \<or> c = 12 \<or> c = 13 \<or> c = 32)"

definition strip_padding :: "jsstring \<Rightarrow> jsstring" where
  "strip_padding d =
     (if length d mod 4 = 0 then
        (if 2 \<le> length d \<and> drop (length d - 2) d = [61, 61] then take (length d - 2) d
         else if 1 \<le> length d \<and> drop (length d - 1) d = [61] then take (length d - 1) d
         else d)
      else d)"

definition those_values :: "jsstring \<Rightarrow> nat list option" where
  "those_values d = (if list_all (\<lambda>c. b64_value c \<noteq> None) d
                     then Some (map (\<lambda>c. the (b64_value c)) d) else None)"

definition atob :: "jsstring \<Rightarrow> error + jsstring" where
  "atob s =
     (let d = strip_padding (filter (\<lambda>c. \<not> is_ascii_ws c) s) in
      if length d mod 4 = 1 then Inl InvalidCharacterError
      else case those_values d of
             None \<Rightarrow> Inl InvalidCharacterError
           | Some vs \<Rightarrow> Inr (octets vs))"
section \<open>Token codec (class JWTManager)\<close>

text \<open>
  What the program takes from the platform without computing it itself:
  \<open>hmacSHA256 secret message\<close> is the HMAC-SHA256 tag that \<open>crypto.subtle.sign\<close> gives for
  the UTF-8 bytes of \<open>message\<close> under the key imported from the UTF-8 bytes of \<open>secret\<close>;
  \<open>exception_text\<close> is the message text of an exception raised by the platform;
  \<open>coerced_less v now\<close> is the value of \<open>v && v < now\<close> for a JSON value \<open>v\<close> that is
  a non-empty string, an array, an object or a number with fraction or exponent, where the
  comparison goes through the conversions of the host language.
\<close>

record platform =
  hmacSHA256 :: "jsstring \<Rightarrow> jsstring \<Rightarrow> 8 word list"
  exception_text :: "error \<Rightarrow> jsstring"
  coerced_less :: "json \<Rightarrow> int \<Rightarrow> bool"

record TokenConfig =
  accessTokenExpiry :: jsstring
  refreshTokenExpiry :: jsstring

record JWTManager = TokenConfig +
  secret :: jsstring

record AuthTokens =
  accessToken :: jsstring
  refreshToken :: jsstring
  expiresIn :: number

text \<open>\<open>a || b\<close> on strings: an empty or absent \<open>a\<close> gives \<open>b\<close>.\<close>

fun or_else :: "jsstring option \<Rightarrow> jsstring \<Rightarrow> jsstring" where
  "or_else None d = d"
| "or_else (Some s) d = (if s = [] then d else s)"

definition new_JWTManager :: "jsstring \<Rightarrow> TokenConfig option \<Rightarrow> JWTManager" where
  "new_JWTManager s config =
     \<lparr>accessTokenExpiry = or_else (map_option accessTokenExpiry config) (js ''1h''),
      refreshTokenExpiry = or_else (map_option refreshTokenExpiry config) (js ''30d''),
      secret = s\<rparr>"

fun times :: "number \<Rightarrow> int \<Rightarrow> number" where
  "times (Num a) b = Num (a * b)"
| "times NaN b = NaN"

fun plus_number :: "int \<Rightarrow> number \<Rightarrow> number" where
  "plus_number a (Num b) = Num (a + b)"
| "plus_number a NaN = NaN"

text \<open>\<open>parseInt\<close> of a string, without a radix argument.\<close>

definition digit_value :: "nat \<Rightarrow> nat \<Rightarrow> nat option" where
  "digit_value radix c =
     (if radix = 16 then hex_value c else if is_digit c then Some (c - 48) else None)"

definition parseInt :: "jsstring \<Rightarrow> number" where
  "parseInt str =
     (let s = dropWhile is_space str;
          negative = (case s of [] \<Rightarrow> False | c # cs \<Rightarrow> c = 45);
          s1 = (case s of [] \<Rightarrow> s | c # cs \<Rightarrow> if c = 43 \<or> c = 45 then cs else s);
          hex = (startsWith s1 (js ''0x'') \<or> startsWith s1 (js ''0X''));
          s2 = (if hex then drop 2 s1 else s1);
          radix = (if hex then 16 else 10);
          z = takeWhile (\<lambda>c. digit_value radix c \<noteq> None) s2;
          mathInt = foldl (\<lambda>a c. int radix * a + int (case digit_value radix c of Some d \<Rightarrow> d | None \<Rightarrow> 0)) 0 z
      in if z = [] then NaN else Num (if negative then - mathInt else mathInt))"

definition parseExpiry :: "jsstring \<Rightarrow> number" where
  "parseExpiry expiry =
     (let unit = (if expiry = [] then [] else [last expiry]);
          val = parseInt (butlast expiry)
      in if unit = js ''s'' then val
         else if unit = js ''m'' then times val 60
         else if unit = js ''h'' then times (times val 60) 60
         else if unit = js ''d'' then times (times (times val 24) 60) 60
         else Num (60 * 60))"

text \<open>
  \<open>btoa(x).replace(/=/g, '').replace(/\+/g, '-').replace(/\//g, '_')\<close> and, for reading,
  \<open>atob(x.replace(/-/g, '+').replace(/_/g, '/'))\<close>.
\<close>

definition replace_unit :: "nat \<Rightarrow> nat \<Rightarrow> jsstring \<Rightarrow> jsstring" where
  "replace_unit a b s = map (\<lambda>c. if c = a then b else c) s"

definition encode_part :: "jsstring \<Rightarrow> error + jsstring" where
  "encode_part x =
     (case btoa x of
        Inl e \<Rightarrow> Inl e
      | Inr b \<Rightarrow> Inr (replace_unit 47 95 (replace_unit 43 45 (filter (\<lambda>c. c \<noteq> 61) b))))"

definition decode_part :: "jsstring \<Rightarrow> error + jsstring" where
  "decode_part x = atob (replace_unit 95 47 (replace_unit 45 43 x))"

fun json_of_number :: "number \<Rightarrow> json" where
  "json_of_number (Num i) = JNum i"
| "json_of_number NaN = JNull"

definition jwt_header :: json where
  "jwt_header = JObj [(js ''alg'', JStr (js ''HS256'')), (js ''typ'', JStr (js ''JWT''))]"

definition jwt_payload :: "int \<Rightarrow> (jsstring \<times> json) list \<Rightarrow> number \<Rightarrow> json" where
  "jwt_payload now payload expirySeconds =
     JObj (payload @ [(js ''iat'', JNum now),
                      (js ''exp'', json_of_number (plus_number now expirySeconds))])"

text \<open>
  \<open>createJWT\<close>.  \<open>clock\<close> is the reading of \<open>Date.now()\<close>, in milliseconds; \<open>payload\<close> is
  the member list of the object that is spread into the token payload.
\<close>

definition createJWT ::
  "platform \<Rightarrow> JWTManager \<Rightarrow> int \<Rightarrow> (jsstring \<times> json) list \<Rightarrow> number \<Rightarrow> error + jsstring" where
  "createJWT P m clock payload expirySeconds =
     (let now = clock div 1000;
          jwtPayload = jwt_payload now payload expirySeconds
      in case encode_part (JSON_stringify jwt_header) of
           Inl e \<Rightarrow> Inl e
         | Inr encodedHeader \<Rightarrow>
             (case encode_part (JSON_stringify jwtPayload) of
                Inl e \<Rightarrow> Inl e
              | Inr encodedPayload \<Rightarrow>
                  let message = encodedHeader @ [46] @ encodedPayload in
                  if secret m = [] then Inl DataError
                  else
                    let signature = hmacSHA256 P (secret m) message in
                    (case encode_part (map unat signature) of
                       Inl e \<Rightarrow> Inl e
                     | Inr encodedSignature \<Rightarrow> Inr (message @ [46] @ encodedSignature))))"

definition generateTokens ::
  "platform \<Rightarrow> JWTManager \<Rightarrow> int \<Rightarrow> jsstring \<Rightarrow> TokenConfig option \<Rightarrow> error + AuthTokens" where
  "generateTokens P m clock userId config =
     (let accessExpiry = parseExpiry (or_else (map_option accessTokenExpiry config) (accessTokenExpiry m));
          refreshExpiry = parseExpiry (or_else (map_option refreshTokenExpiry config) (refreshTokenExpiry m));
          accessTokenPayload = [(js ''userId'', JStr userId), (js ''type'', JStr (js ''access''))];
          refreshTokenPayload = [(js ''userId'', JStr userId), (js ''type'', JStr (js ''refresh''))]
      in case createJWT P m clock accessTokenPayload accessExpiry of
           Inl e \<Rightarrow> Inl e
         | Inr a \<Rightarrow>
             (case createJWT P m clock refreshTokenPayload refreshExpiry of
                Inl e \<Rightarrow> Inl e
              | Inr r \<Rightarrow> Inr \<lparr>accessToken = a, refreshToken = r, expiresIn = accessExpiry\<rparr>))"

text \<open>
  \<open>payload.exp && payload.exp < now\<close> on a parsed payload.  A missing, \<open>null\<close>, zero,
  \<open>false\<close> or empty-string \<open>exp\<close> is falsy; \<open>true\<close> counts as 1.  Reading \<open>exp\<close> from
  \<open>null\<close> raises.
\<close>

definition expired :: "platform \<Rightarrow> json \<Rightarrow> int \<Rightarrow> error + bool" where
  "expired P payload now =
     (if payload = JNull then Inl TypeError
      else case get_prop payload ''exp'' of
             None \<Rightarrow> Inr False
           | Some JNull \<Rightarrow> Inr False
           | Some (JBool b) \<Rightarrow> Inr (b \<and> 1 < now)
           | Some (JNum n) \<Rightarrow> Inr (n \<noteq> 0 \<and> n < now)
           | Some (JStr s) \<Rightarrow> Inr (s \<noteq> [] \<and> coerced_less P (JStr s) now)
           | Some v \<Rightarrow> Inr (coerced_less P v now))"

definition verifyToken :: "platform \<Rightarrow> JWTManager \<Rightarrow> int \<Rightarrow> jsstring \<Rightarrow> error + json" where
  "verifyToken P m clock token =
     (case split 46 token of
        [encodedHeader, encodedPayload, encodedSignature] \<Rightarrow>
          let message = encodedHeader @ [46] @ encodedPayload in
          if secret m = [] then Inl DataError
          else
            (case decode_part encodedSignature of
               Inl e \<Rightarrow> Inl e
             | Inr sig \<Rightarrow>
                 let signature = map word_of_nat sig;
                     isValid = (hmacSHA256 P (secret m) message = signature)
                 in if \<not> isValid then Inl (Error (js ''Invalid JWT signature''))
                    else
                      (case decode_part encodedPayload of
                         Inl e \<Rightarrow> Inl e
                       | Inr payloadJson \<Rightarrow>
                           (case JSON_parse payloadJson of
                              Inl e \<Rightarrow> Inl e
                            | Inr payload \<Rightarrow>
                                let now = clock div 1000 in
                                (case expired P payload now of
                                   Inl e \<Rightarrow> Inl e
                                 | Inr True \<Rightarrow> Inl (Error (js ''JWT expired''))
                                 | Inr False \<Rightarrow> Inr payload))))
      | _ \<Rightarrow> Inl (Error (js ''Invalid JWT format'')))"

text \<open>
  \<open>refreshTokens\<close>.  \<open>generateTokens\<close> is declared for a string \<open>userId\<close>; a payload whose
  \<open>userId\<close> is not a string is outside the model.
\<close>

definition refreshTokens :: "platform \<Rightarrow> JWTManager \<Rightarrow> int \<Rightarrow> jsstring \<Rightarrow> error + AuthTokens" where
  "refreshTokens P m clock token =
     (case verifyToken P m clock token of
        Inl e \<Rightarrow> Inl e
      | Inr payload \<Rightarrow>
          if get_prop payload ''type'' \<noteq> Some (JStr (js ''refresh''))
          then Inl (Error (js ''Invalid refresh token''))
          else (case get_prop payload ''userId'' of
                  Some (JStr userId) \<Rightarrow> generateTokens P m clock userId None
                | _ \<Rightarrow> Inl Unmodelled))"

definition fromEnv :: "env \<Rightarrow> error + JWTManager" where
  "fromEnv e =
     (if \<not> truthy (JWT_SECRET e)
      then Inl (Error (js ''JWT_SECRET environment variable is required''))
      else Inr (new_JWTManager (or_else (JWT_SECRET e) [])
                  (Some \<lparr>accessTokenExpiry = or_else (ACCESS_TOKEN_EXPIRY e) (js ''1h''),
                         refreshTokenExpiry = or_else (REFRESH_TOKEN_EXPIRY e) (js ''30d'')\<rparr>)))"

section \<open>Notions used to state the properties of the token codec\<close>

text \<open>A string all of whose code units are below 256 (the strings that \<open>btoa\<close> accepts).\<close>

definition latin1 :: "jsstring \<Rightarrow> bool" where
  "latin1 s = list_all (\<lambda>c. c < 256) s"

text \<open>The text of a token part: the base64 units of the bytes, with \<open>+\<close> and \<open>/\<close> replaced.\<close>

definition part_text :: "jsstring \<Rightarrow> jsstring" where
  "part_text x = replace_unit 47 95 (replace_unit 43 45 (map b64_unit (sextets x)))"

text \<open>A JSON value without parts of its own whose strings \<open>btoa\<close> accepts.\<close>

fun plain_value :: "json \<Rightarrow> bool" where
  "plain_value (JStr s) = latin1 s"
| "plain_value (JNum i) = True"
| "plain_value JNull = True"
| "plain_value (JBool b) = True"
| "plain_value (JReal t) = False"
| "plain_value (JArr xs) = False"
| "plain_value (JObj ms) = False"

definition plain_member :: "jsstring \<times> json \<Rightarrow> bool" where
  "plain_member kv = (latin1 (fst kv) \<and> plain_value (snd kv))"

section \<open>A stand-in platform for concrete runs\<close>

text \<open>
  The general theorems below hold for every platform.  To run the program on a concrete
  input a platform has to be chosen; this one tags a message with eight bytes taken from
  the message and the key.  It stands in for HMAC-SHA256 only where a concrete run is shown.
\<close>

definition sample_platform :: platform where
  "sample_platform =
     \<lparr>hmacSHA256 = (\<lambda>k m. map word_of_nat (take 8 (rev m @ k))),
      exception_text = (\<lambda>e. js ''exception''),
      coerced_less = (\<lambda>v now. False)\<rparr>"

definition sample_manager :: JWTManager where
  "sample_manager = new_JWTManager (js ''s3cr3t'') None"

section \<open>Auth gateway (src/middleware/auth.ts)\<close>

unbundle bit_operations_syntax

text \<open>\<open>getCookieValue\<close>: \<open>None\<close> is the source's \<open>null\<close> or \<open>undefined\<close>.\<close>

fun find_cookie :: "jsstring list \<Rightarrow> jsstring \<Rightarrow> jsstring option" where
  "find_cookie [] name = None"
| "find_cookie (cookie # cookies) name =
     (case split 61 (trim cookie) of
        [] \<Rightarrow> find_cookie cookies name
      | key # rest \<Rightarrow>
          if key = name then (case rest of [] \<Rightarrow> None | v # vs \<Rightarrow> Some v)
          else find_cookie cookies name)"

definition getCookieValue :: "jsstring option \<Rightarrow> jsstring \<Rightarrow> jsstring option" where
  "getCookieValue cookieHeader name =
     (case cookieHeader of
        None \<Rightarrow> None
      | Some h \<Rightarrow> if h = [] then None else find_cookie (split 59 h) name)"

definition message_of :: "platform \<Rightarrow> error \<Rightarrow> jsstring" where
  "message_of P e = (case e of Error m \<Rightarrow> m | _ \<Rightarrow> exception_text P e)"

text \<open>\<open>validateJWT\<close>: \<open>None\<close> is the source's \<open>null\<close>, the token is accepted.\<close>

definition validateJWT :: "platform \<Rightarrow> int \<Rightarrow> jsstring \<Rightarrow> env \<Rightarrow> response option" where
  "validateJWT P clock token e =
     (if \<not> truthy (JWT_SECRET e)
      then Some (json_response 501
             (JObj [(js ''error'', JStr (js ''JWT not configured'')),
                    (js ''message'', JStr (js ''JWT authentication not available''))]))
      else
        case fromEnv e of
          Inl err \<Rightarrow>
            Some (json_response 401
              (JObj [(js ''error'', JStr (js ''Invalid JWT'')),
                     (js ''message'', JStr (message_of P err))]))
        | Inr jwtManager \<Rightarrow>
            (case verifyToken P jwtManager clock token of
               Inl err \<Rightarrow>
                 Some (json_response 401
                   (JObj [(js ''error'', JStr (js ''Invalid JWT'')),
                          (js ''message'', JStr (message_of P err))]))
             | Inr payload \<Rightarrow>
                 if get_prop payload ''type'' \<noteq> Some (JStr (js ''access''))
                 then Some (json_response 401
                        (JObj [(js ''error'', JStr (js ''Invalid token type'')),
                               (js ''message'', JStr (js ''Only access tokens are allowed''))]))
                 else None))"

text \<open>
  \<open>checkCookieAuth\<close>.  The session store is a map from session identifiers to the stored
  text; any exception while reading the record counts as not authenticated.
\<close>

definition checkCookieAuth :: "request \<Rightarrow> env \<Rightarrow> bool" where
  "checkCookieAuth r e =
     (case SESSIONS e of
        None \<Rightarrow> False
      | Some sessions \<Rightarrow>
          let cookieHeader = headers_get r ''Cookie'';
              sessionId = getCookieValue cookieHeader (js ''adminSession'')
          in if \<not> truthy sessionId then False
             else
               (case sessionId of
                  None \<Rightarrow> False
                | Some sid \<Rightarrow>
                    let sessionData = sessions sid in
                    if truthy sessionData then
                      (case sessionData of
                         None \<Rightarrow> False
                       | Some text \<Rightarrow>
                           (case JSON_parse text of
                              Inl err \<Rightarrow> False
                            | Inr session \<Rightarrow>
                                if session = JNull then False
                                else get_prop session ''isAdmin'' = Some (JBool True)))
                    else False))"

text \<open>
  \<open>constantTimeEquals\<close>: the lengths are compared first, then the XOR of every pair of
  code units is accumulated with OR, over the whole length.
\<close>

definition constantTimeEquals :: "jsstring \<Rightarrow> jsstring \<Rightarrow> bool" where
  "constantTimeEquals a b =
     (if length a \<noteq> length b then False
      else fold (\<lambda>(x, y) result. result OR (x XOR y)) (zip a b) (0 :: nat) = 0)"

definition validatePassword :: "request \<Rightarrow> env \<Rightarrow> bool" where
  "validatePassword r e =
     (case ADMIN_PASSWORD e of
        None \<Rightarrow> False
      | Some adminPassword \<Rightarrow>
          if adminPassword = [] then False
          else
            let authHeader = headers_get r ''Authorization'';
                adminKeyHeader = headers_get r ''X-Admin-API-Key'';
                providedPassword =
                  (if (case authHeader of Some a \<Rightarrow> startsWith a (js ''Bearer '') | None \<Rightarrow> False)
                   then map_option (drop 7) authHeader
                   else if truthy authHeader then authHeader
                   else if truthy adminKeyHeader then adminKeyHeader
                   else None)
            in if \<not> truthy providedPassword then False
               else (case providedPassword of
                       None \<Rightarrow> False
                     | Some p \<Rightarrow> constantTimeEquals p adminPassword))"

definition not_configured_response :: response where
  "not_configured_response =
     json_response 500
       (JObj [(js ''error'', JStr (js ''Admin authentication not configured'')),
              (js ''message'', JStr (js ''Please contact system administrator''))])"

definition authentication_required_response :: response where
  "authentication_required_response =
     json_response 401
       (JObj [(js ''error'', JStr (js ''Authentication required'')),
              (js ''message'',
                 JStr (js ''Admin authentication required. Please login or provide valid credentials.'')),
              (js ''methods'', JObj [
                 (js ''jwt'', JStr (js ''Provide Authorization: Bearer <access_token> header'')),
                 (js ''cookie'', JStr (js ''Login via /api/auth/login endpoint'')),
                 (js ''header'',
                    JStr (js ''Provide X-Admin-API-Key header or Authorization header with password''))])])"

text \<open>
  \<open>requireAuth\<close>, with the clock that \<open>verifyToken\<close> reads.  \<open>None\<close> is the source's
  \<open>null\<close>: the request is authenticated.
\<close>

definition bearer_accepted :: "platform \<Rightarrow> int \<Rightarrow> request \<Rightarrow> env \<Rightarrow> bool" where
  "bearer_accepted P clock r e =
     (case headers_get r ''Authorization'' of
        None \<Rightarrow> False
      | Some authHeader \<Rightarrow>
          startsWith authHeader (js ''Bearer '') \<and>
          validateJWT P clock (drop 7 authHeader) e = None)"

definition requireAuth :: "platform \<Rightarrow> int \<Rightarrow> request \<Rightarrow> env \<Rightarrow> response option" where
  "requireAuth P clock r e =
     (if bearer_accepted P clock r e then None
      else if checkCookieAuth r e then None
      else if validatePassword r e then None
      else if \<not> truthy (ADMIN_PASSWORD e) then Some not_configured_response
      else Some authentication_required_response)"

section \<open>Regular expressions of the host language\<close>

text \<open>
  The patterns of the sanitizer are matched as the host language matches them: by
  backtracking, alternatives and repetitions tried in order of priority, the first success
  taken.  Only the constructs that occur in the program are modelled.  A character class is
  a list of ranges of code units.
\<close>

datatype regex =
    Chr nat
  | Dot
  | Cls "(nat \<times> nat) list"
  | NCls "(nat \<times> nat) list"
  | Eps
  | Seq regex regex
  | Alt regex regex
  | Star regex
  | LazyStar regex
  | Grp nat regex
  | Back nat
  | WordB
  | NLook regex

text \<open>
  The state of a match: the code unit before the current position (for \<open>\b\<close>), the text
  from the current position on, and the captures so far.
\<close>

record mstate =
  m_prev :: "nat option"
  m_rest :: jsstring
  m_caps :: "(nat \<times> jsstring) list"

definition in_ranges :: "(nat \<times> nat) list \<Rightarrow> nat \<Rightarrow> bool" where
  "in_ranges rs x = list_ex (\<lambda>(lo, hi). lo \<le> x \<and> x \<le> hi) rs"

text \<open>
  With the flag \<open>i\<close> a code unit matches when its canonical form equals that of the
  pattern's; for the ASCII patterns of the program this is equality up to the case of an
  ASCII letter.
\<close>

definition same_unit :: "bool \<Rightarrow> nat \<Rightarrow> nat \<Rightarrow> bool" where
  "same_unit icase c x = (if icase then upper_unit c = upper_unit x else c = x)"

definition in_class :: "bool \<Rightarrow> (nat \<times> nat) list \<Rightarrow> nat \<Rightarrow> bool" where
  "in_class icase rs x =
     (in_ranges rs x \<or> (icase \<and> (in_ranges rs (upper_unit x) \<or> in_ranges rs (lower_unit x))))"

definition word_ranges :: "(nat \<times> nat) list" where
  "word_ranges = [(97, 122), (65, 90), (48, 57), (95, 95)]"

definition space_ranges :: "(nat \<times> nat) list" where
  "space_ranges = [(9, 13), (32, 32), (160, 160), (5760, 5760), (8192, 8202), (8232, 8233),
                   (8239, 8239), (8287, 8287), (12288, 12288), (65279, 65279)]"

definition is_word :: "nat option \<Rightarrow> bool" where
  "is_word c = (case c of None \<Rightarrow> False | Some x \<Rightarrow> in_ranges word_ranges x)"

definition line_terminator :: "nat \<Rightarrow> bool" where
  "line_terminator x = (x = 10 \<or> x = 13 \<or> x = 8232 \<or> x = 8233)"

definition step_unit :: "(nat \<Rightarrow> bool) \<Rightarrow> (mstate \<Rightarrow> mstate option) \<Rightarrow> mstate \<Rightarrow> mstate option" where
  "step_unit ok k st =
     (case m_rest st of
        [] \<Rightarrow> None
      | x # xs \<Rightarrow> if ok x then k (st\<lparr>m_prev := Some x, m_rest := xs\<rparr>) else None)"

definition consumed :: "mstate \<Rightarrow> mstate \<Rightarrow> jsstring" where
  "consumed st st' = take (length (m_rest st) - length (m_rest st')) (m_rest st)"

fun step_text :: "bool \<Rightarrow> jsstring \<Rightarrow> mstate \<Rightarrow> mstate option" where
  "step_text icase [] st = Some st"
| "step_text icase (c # cs) st =
     (case m_rest st of
        [] \<Rightarrow> None
      | x # xs \<Rightarrow>
          if same_unit icase c x then step_text icase cs (st\<lparr>m_prev := Some x, m_rest := xs\<rparr>)
          else None)"

text \<open>
  \<open>match_re icase r k st\<close>: match \<open>r\<close> at the state \<open>st\<close> and go on with \<open>k\<close>; the
  first way that lets \<open>k\<close> succeed is the result.  A repetition stops when an iteration
  consumes nothing.
\<close>

function (sequential) match_re :: "bool \<Rightarrow> regex \<Rightarrow> (mstate \<Rightarrow> mstate option) \<Rightarrow> mstate \<Rightarrow> mstate option" where
  "match_re icase (Chr c) k st = step_unit (same_unit icase c) k st"
| "match_re icase Dot k st = step_unit (\<lambda>x. \<not> line_terminator x) k st"
| "match_re icase (Cls rs) k st = step_unit (in_class icase rs) k st"
| "match_re icase (NCls rs) k st = step_unit (\<lambda>x. \<not> in_class icase rs x) k st"
| "match_re icase Eps k st = k st"
| "match_re icase (Seq a b) k st = match_re icase a (\<lambda>st'. match_re icase b k st') st"
| "match_re icase (Alt a b) k st =
     (case match_re icase a k st of Some r \<Rightarrow> Some r | None \<Rightarrow> match_re icase b k st)"
| "match_re icase (Star a) k st =
     (case match_re icase a
             (\<lambda>st'. if length (m_rest st') < length (m_rest st)
                    then match_re icase (Star a) k st' else None) st of
        Some r \<Rightarrow> Some r
      | None \<Rightarrow> k st)"
| "match_re icase (LazyStar a) k st =
     (case k st of
        Some r \<Rightarrow> Some r
      | None \<Rightarrow>
          match_re icase a
            (\<lambda>st'. if length (m_rest st') < length (m_rest st)
                   then match_re icase (LazyStar a) k st' else None) st)"
| "match_re icase (Grp n a) k st =
     match_re icase a (\<lambda>st'. k (st'\<lparr>m_caps := (n, consumed st st') # m_caps st'\<rparr>)) st"
| "match_re icase (Back n) k st =
     (case map_of (m_caps st) n of
        None \<Rightarrow> k st
      | Some t \<Rightarrow> (case step_text icase t st of None \<Rightarrow> None | Some st' \<Rightarrow> k st'))"
| "match_re icase WordB k st =
     (if is_word (m_prev st) \<noteq> is_word (case m_rest st of [] \<Rightarrow> None | x # xs \<Rightarrow> Some x)
      then k st else None)"
| "match_re icase (NLook a) k st =
     (case match_re icase a Some st of Some r \<Rightarrow> None | None \<Rightarrow> k st)"
  by pat_completeness auto
termination
  by (relation "measures [\<lambda>(icase, r, k, st). size r, \<lambda>(icase, r, k, st). length (m_rest st)]") auto
text \<open>
  A match starting at a position: the number of code units matched and the captures.
\<close>

definition match_at :: "bool \<Rightarrow> regex \<Rightarrow> nat option \<Rightarrow> jsstring \<Rightarrow> (nat \<times> (nat \<times> jsstring) list) option" where
  "match_at icase r p s =
     (case match_re icase r Some \<lparr>m_prev = p, m_rest = s, m_caps = []\<rparr> of
        None \<Rightarrow> None
      | Some st \<Rightarrow> Some (length s - length (m_rest st), m_caps st))"

text \<open>\<open>group cs n\<close> is the text of group \<open>n\<close>, empty when the group did not take part.\<close>

definition group :: "(nat \<times> jsstring) list \<Rightarrow> nat \<Rightarrow> jsstring" where
  "group cs n = (case map_of cs n of None \<Rightarrow> [] | Some t \<Rightarrow> t)"

text \<open>
  \<open>s.replace(r, f)\<close> for a pattern with the flag \<open>g\<close>: the matches are found from left to
  right, each search starting where the match before ended, and every match is replaced by
  what \<open>f\<close> gives for the matched text and its captures.  The first number counts the code
  units of the current match that are still to be passed over.
\<close>

fun replace_from ::
  "bool \<Rightarrow> regex \<Rightarrow> (jsstring \<Rightarrow> (nat \<times> jsstring) list \<Rightarrow> jsstring) \<Rightarrow> nat \<Rightarrow> nat option \<Rightarrow> jsstring \<Rightarrow> jsstring" where
  "replace_from icase r f skip p [] =
     (if skip = 0 then (case match_at icase r p [] of None \<Rightarrow> [] | Some (n, cs) \<Rightarrow> f [] cs) else [])"
| "replace_from icase r f skip p (c # s) =
     (if skip = 0 then
        (case match_at icase r p (c # s) of
           None \<Rightarrow> c # replace_from icase r f 0 (Some c) s
         | Some (n, cs) \<Rightarrow>
             f (take n (c # s)) cs @
             (if n = 0 then c # replace_from icase r f 0 (Some c) s
              else replace_from icase r f (n - 1) (Some c) s))
      else replace_from icase r f (skip - 1) (Some c) s)"

definition replace_all :: "bool \<Rightarrow> regex \<Rightarrow> (jsstring \<Rightarrow> (nat \<times> jsstring) list \<Rightarrow> jsstring) \<Rightarrow> jsstring \<Rightarrow> jsstring" where
  "replace_all icase r f s = replace_from icase r f 0 None s"

definition replace_with :: "bool \<Rightarrow> regex \<Rightarrow> jsstring \<Rightarrow> jsstring \<Rightarrow> jsstring" where
  "replace_with icase r t s = replace_all icase r (\<lambda>m cs. t) s"

text \<open>\<open>r.test(s)\<close> for a freshly created pattern: is there a match anywhere in \<open>s\<close>?\<close>

fun search_from :: "bool \<Rightarrow> regex \<Rightarrow> nat option \<Rightarrow> jsstring \<Rightarrow> bool" where
  "search_from icase r p [] = (match_at icase r p [] \<noteq> None)"
| "search_from icase r p (c # s) =
     (if match_at icase r p (c # s) \<noteq> None then True else search_from icase r (Some c) s)"

definition test_re :: "bool \<Rightarrow> regex \<Rightarrow> jsstring \<Rightarrow> bool" where
  "test_re icase r s = search_from icase r None s"

text \<open>Abbreviations for writing the patterns of the source.\<close>

definition lit :: "string \<Rightarrow> regex" where
  "lit s = foldr (\<lambda>c r. Seq (Chr (of_char c)) r) s Eps"

definition seqs :: "regex list \<Rightarrow> regex" where
  "seqs rs = foldr Seq rs Eps"

definition alts :: "regex list \<Rightarrow> regex" where
  "alts rs = (case rs of [] \<Rightarrow> NCls [(0, 1114111)] | r # rs' \<Rightarrow> foldl Alt r rs')"

definition plus :: "regex \<Rightarrow> regex" where
  "plus r = Seq r (Star r)"

definition opt :: "regex \<Rightarrow> regex" where
  "opt r = Alt r Eps"

definition ws :: regex where
  "ws = Cls space_ranges"

definition quote :: regex where
  "quote = Cls [(34, 34), (39, 39)]"

definition not_quote :: regex where
  "not_quote = NCls [(34, 34), (39, 39)]"

definition not_gt :: regex where
  "not_gt = NCls [(62, 62)]"

definition any_unit :: regex where
  "any_unit = Cls (space_ranges @ [(0, 1114111)])"
section \<open>Content sanitizer (src/utils/validation.ts)\<close>

definition allowedHTMLTags :: "jsstring list" where
  "allowedHTMLTags = map js
     [''div'', ''span'', ''p'', ''h1'', ''h2'', ''h3'', ''h4'', ''h5'', ''h6'',
      ''button'', ''input'', ''label'', ''form'', ''a'', ''textarea'', ''select'', ''option'',
      ''ul'', ''ol'', ''li'', ''dl'', ''dt'', ''dd'', ''table'', ''tr'', ''td'', ''th'', ''thead'',
      ''tbody'', ''tfoot'',
      ''section'', ''article'', ''header'', ''footer'', ''nav'', ''main'', ''aside'',
      ''strong'', ''em'', ''b'', ''i'', ''u'', ''br'', ''hr'', ''small'', ''sub'', ''sup'', ''mark'',
      ''img'', ''figure'', ''figcaption'',
      ''details'', ''summary'',
      ''code'', ''pre'', ''kbd'', ''samp'', ''var'',
      ''blockquote'', ''cite'', ''q'', ''abbr'', ''dfn'',
      ''time'', ''address'',
      ''canvas'',
      ''svg'', ''path'', ''circle'', ''rect'', ''ellipse'', ''line'', ''polygon'',
      ''g'', ''defs'', ''title'', ''desc'']"

definition allowedHTMLAttributes :: "jsstring list" where
  "allowedHTMLAttributes = map js
     [''class'', ''id'', ''style'', ''data-*'', ''aria-*'', ''role'',
      ''type'', ''name'', ''value'', ''placeholder'', ''href'', ''target'',
      ''src'', ''alt'', ''width'', ''height'', ''title'',
      ''viewBox'', ''xmlns'', ''xmlns:*'', ''d'', ''fill'', ''stroke'', ''stroke-width'',
      ''stroke-linecap'', ''stroke-linejoin'',
      ''cx'', ''cy'', ''r'', ''rx'', ''ry'', ''x'', ''y'', ''x1'', ''y1'', ''x2'', ''y2'',
      ''points'', ''transform'', ''opacity'', ''fill-opacity'', ''stroke-opacity'']"

text \<open>\<open><name\b[^>]*>\<close>\<close>

definition open_tag :: "string \<Rightarrow> regex" where
  "open_tag name = seqs [Chr 60, lit name, WordB, Star not_gt, Chr 62]"

text \<open>\<open><script\b[^<]*(?:(?!<\/script>)<[^<]*)*<\/script>\<close>\<close>

definition script_block :: regex where
  "script_block =
     seqs [lit ''<script'', WordB, Star (NCls [(60, 60)]),
           Star (seqs [NLook (lit ''</script>''), Chr 60, Star (NCls [(60, 60)])]),
           lit ''</script>'']"

text \<open>\<open>name\s*=\s*["'][^"']*["']\<close>, after the pattern \<open>name\<close>.\<close>

definition quoted_assignment :: "regex \<Rightarrow> regex" where
  "quoted_assignment name = seqs [name, Star ws, Chr 61, Star ws, quote, Star not_quote, quote]"

definition dangerousHTMLPatterns :: "regex list" where
  "dangerousHTMLPatterns =
     [script_block,
      open_tag ''iframe'',
      open_tag ''object'',
      open_tag ''embed'',
      open_tag ''link'',
      open_tag ''meta'',
      open_tag ''base'',
      seqs [lit ''<form'', WordB, Star not_gt, quoted_assignment (lit ''action''), Star not_gt, Chr 62],
      quoted_assignment (Seq (lit ''on'') (plus (Cls word_ranges))),
      seqs [lit ''on'', plus (Cls word_ranges), Star ws, Chr 61, Star ws,
            plus (NCls ([(34, 34), (39, 39)] @ space_ranges @ [(62, 62)]))],
      lit ''javascript:'',
      lit ''vbscript:'',
      lit ''data:text/html'',
      lit ''data:text/javascript'',
      lit ''data:application/x-javascript'',
      seqs [lit ''<svg'', WordB, Star not_gt, lit ''on'', plus (Cls word_ranges), Star ws, Chr 61],
      seqs [lit ''<math'', WordB, Star not_gt, lit ''on'', plus (Cls word_ranges), Star ws, Chr 61],
      lit ''&lt;script'',
      seqs [lit ''&gt;'', LazyStar Dot, lit ''&lt;/script&gt;''],
      seqs [lit ''&#x'', plus (Cls [(48, 57), (97, 102)]), opt (Chr 59)],
      seqs [lit ''&#'', plus (Cls [(48, 57)]), opt (Chr 59)]]"

definition dangerousSVGPatterns :: "regex list" where
  "dangerousSVGPatterns =
     [open_tag ''foreignObject'',
      open_tag ''use'',
      open_tag ''image'',
      open_tag ''animate'',
      open_tag ''animateTransform'',
      open_tag ''animateMotion'',
      open_tag ''set'',
      quoted_assignment (lit ''href''),
      quoted_assignment (lit ''xlink:href''),
      script_block]"

definition dangerousCSSPatterns :: "regex list" where
  "dangerousCSSPatterns =
     [lit ''javascript:'',
      seqs [lit ''expression'', Star ws, Chr 40],
      seqs [lit ''behavior'', Star ws, Chr 58],
      seqs [lit ''binding'', Star ws, Chr 58],
      lit ''@import'',
      seqs [lit ''url'', Star ws, Chr 40, Star ws, opt quote, Star ws, lit ''javascript:''],
      seqs [lit ''url'', Star ws, Chr 40, Star ws, opt quote, Star ws, lit ''data:text/html''],
      seqs [lit ''url'', Star ws, Chr 40, Star ws, opt quote, Star ws, lit ''data:text/javascript''],
      lit ''vbscript:'',
      lit ''mozbinding:'',
      lit ''-moz-binding'',
      seqs [lit ''filter'', Star ws, Chr 58, Star ws, lit ''progid''],
      seqs [lit ''zoom'', Star ws, Chr 58, Star ws, lit ''expression''],
      seqs [lit ''behavior'', Star ws, Chr 58, Star ws, lit ''url''],
      seqs [lit ''content'', Star ws, Chr 58, Star ws, lit ''url'', Star ws, Chr 40],
      lit ''@charset'',
      lit ''@namespace'']"

text \<open>Applying a list of patterns one after the other, each with the same replacement.\<close>

definition strip_patterns :: "regex list \<Rightarrow> jsstring \<Rightarrow> jsstring \<Rightarrow> jsstring" where
  "strip_patterns patterns t s = fold (\<lambda>pattern sanitized. replace_with True pattern t sanitized) patterns s"

definition replace_units :: "nat \<Rightarrow> jsstring \<Rightarrow> jsstring \<Rightarrow> jsstring" where
  "replace_units c t s = concat (map (\<lambda>x. if x = c then t else [x]) s)"

definition encodeHTMLEntities :: "jsstring \<Rightarrow> jsstring" where
  "encodeHTMLEntities str =
     replace_units 47 (js ''&#x2F;'')
       (replace_units 39 (js ''&#x27;'')
          (replace_units 34 (js ''&quot;'')
             (replace_units 62 (js ''&gt;'')
                (replace_units 60 (js ''&lt;'')
                   (replace_units 38 (js ''&amp;'') str)))))"

text \<open>\<open>s.replace(/\s+/g, ' ')\<close> and \<open>s.replace(/;\s*;/g, ';')\<close>\<close>

definition collapse_space :: "jsstring \<Rightarrow> jsstring" where
  "collapse_space s = replace_with False (plus ws) [32] s"

definition collapse_semicolons :: "jsstring \<Rightarrow> jsstring" where
  "collapse_semicolons s = replace_with False (seqs [Chr 59, Star ws, Chr 59]) [59] s"

subsection \<open>Style sheets\<close>

definition safeSchemes :: "jsstring list" where
  "safeSchemes = map js [''https:'', ''http:'', ''data:image/'', ''data:font/'']"

definition css_url :: "jsstring \<Rightarrow> (nat \<times> jsstring) list \<Rightarrow> jsstring" where
  "css_url m cs =
     (let url = group cs 1;
          isUrlSafe = list_ex (\<lambda>scheme. startsWith (toLowerCase url) scheme \<or> startsWith url [47])
                        safeSchemes
      in if isUrlSafe \<and> \<not> includes_str (toLowerCase url) (js ''javascript:'')
            \<and> \<not> includes_str (toLowerCase url) (js ''vbscript:'')
         then js ''url('' @ [34] @ filter (\<lambda>c. c \<noteq> 34 \<and> c \<noteq> 39) url @ [34] @ js '')''
         else js ''/* unsafe url removed */'')"

text \<open>\<open>zValue > 9999\<close> for the result of \<open>parseInt\<close>: false for \<open>NaN\<close>.\<close>

fun greater_than :: "number \<Rightarrow> int \<Rightarrow> bool" where
  "greater_than (Num a) b = (b < a)"
| "greater_than NaN b = False"

definition css_declaration :: "jsstring \<Rightarrow> (nat \<times> jsstring) list \<Rightarrow> jsstring" where
  "css_declaration m cs =
     (let property = group cs 1;
          prop = toLowerCase property;
          val = toLowerCase (group cs 2)
      in if (prop = js ''content'' \<or> prop = js ''background'') \<and> includes_str val (js ''url('')
         then property @ js '': /* url not allowed in '' @ prop @ js '' */;''
         else if prop = js ''position'' \<and> val = js ''fixed''
         then property @ js '': absolute; /* fixed positioning restricted */''
         else if prop = js ''z-index'' \<and> greater_than (parseInt val) 9999
         then property @ js '': 9999; /* z-index capped */''
         else m)"

definition sanitizeCSS :: "jsstring \<Rightarrow> jsstring" where
  "sanitizeCSS css =
     (if css = [] then []
      else
        let s1 = strip_patterns dangerousCSSPatterns (js ''/* removed dangerous content */'') css;
            s2 = replace_with False (seqs [lit ''/*'', LazyStar any_unit, lit ''*/'']) [] s1;
            s3 = replace_all True
                   (seqs [lit ''url'', Star ws, Chr 40, Star ws, opt quote,
                          Grp 1 (plus (NCls [(34, 34), (39, 39), (41, 41)])), opt quote, Star ws, Chr 41])
                   css_url s2;
            s4 = replace_with True
                   (seqs [Chr 64, alts [lit ''import'', lit ''charset'', lit ''namespace''], WordB,
                          plus (NCls [(59, 59)]), opt (Chr 59)])
                   (js ''/* dangerous @-rule removed */'') s3;
            s5 = replace_all True
                   (seqs [Grp 1 (plus (Cls (word_ranges @ [(45, 45)]))), Star ws, Chr 58, Star ws,
                          Grp 2 (plus (NCls [(59, 59)])), opt (Chr 59)])
                   css_declaration s4
        in trim (collapse_semicolons (collapse_space s5)))"

subsection \<open>Markup\<close>

definition attribute_allowed :: "jsstring \<Rightarrow> bool" where
  "attribute_allowed attr =
     list_ex (\<lambda>allowed. if allowed \<noteq> [] \<and> last allowed = 42
                         then startsWith attr (butlast allowed)
                         else attr = allowed)
       allowedHTMLAttributes"

definition clean_attribute :: "jsstring \<Rightarrow> (nat \<times> jsstring) list \<Rightarrow> jsstring" where
  "clean_attribute m cs =
     (let attrName = group cs 1;
          attrValue = group cs 2;
          attr = toLowerCase attrName
      in if \<not> attribute_allowed attr then []
         else if attr = js ''style''
         then (let cleanedStyle = sanitizeCSS attrValue
               in if cleanedStyle \<noteq> [] then [32] @ attrName @ [61, 34] @ cleanedStyle @ [34] else [])
         else if test_re True (lit ''javascript:'') attrValue \<or> test_re True (lit ''vbscript:'') attrValue
         then []
         else [32] @ attrName @ [61, 34] @ encodeHTMLEntities attrValue @ [34])"

definition sanitizeHTMLAttributes :: "jsstring \<Rightarrow> jsstring" where
  "sanitizeHTMLAttributes tag =
     replace_all True
       (seqs [plus ws, Grp 1 (plus (Cls (word_ranges @ [(58, 58), (45, 45)]))), Star ws, Chr 61,
              Star ws, quote, Grp 2 (Star not_quote), quote])
       clean_attribute tag"

definition sanitizeHTMLTags :: "jsstring \<Rightarrow> jsstring" where
  "sanitizeHTMLTags html =
     replace_all True
       (seqs [Chr 60, opt (Chr 47),
              Grp 1 (Seq (Cls [(97, 122), (65, 90)]) (Star (Cls [(97, 122), (65, 90), (48, 57)]))),
              WordB, Star not_gt, Chr 62])
       (\<lambda>m cs. if toLowerCase (group cs 1) \<in> set allowedHTMLTags then sanitizeHTMLAttributes m else [])
       html"

definition sanitizeSVG :: "jsstring \<Rightarrow> jsstring" where
  "sanitizeSVG svgContent =
     (let s1 = strip_patterns dangerousSVGPatterns (js ''<!-- removed for security -->'') svgContent
      in replace_all True
           (seqs [Chr 60,
                  Grp 1 (alts [lit ''svg'', lit ''g'', lit ''path'', lit ''circle'', lit ''rect'',
                               lit ''ellipse'', lit ''line'', lit ''polygon'', lit ''defs'',
                               lit ''title'', lit ''desc'']),
                  WordB, Grp 2 (Star not_gt), Chr 62])
           (\<lambda>m cs. sanitizeHTMLAttributes ([60] @ group cs 1 @ group cs 2 @ [62]))
           s1)"

definition normalize_entities :: "jsstring \<Rightarrow> jsstring" where
  "normalize_entities s =
     replace_with True (lit ''&#x2F;'') [47]
       (replace_with True (lit ''&#x27;'') [39]
          (replace_with True (lit ''&quot;'') [34]
             (replace_with True (lit ''&gt;'') [62]
                (replace_with True (lit ''&lt;'') [60] s))))"

definition sanitizeHTML :: "jsstring \<Rightarrow> jsstring" where
  "sanitizeHTML html =
     (if html = [] then []
      else
        let s1 = strip_patterns dangerousHTMLPatterns [] html;
            s2 = (if test_re True (open_tag ''svg'') s1
                  then replace_all True
                         (seqs [open_tag ''svg'', LazyStar any_unit, lit ''</svg>''])
                         (\<lambda>svgMatch cs. sanitizeSVG svgMatch) s1
                  else s1);
            s3 = normalize_entities s2;
            s4 = sanitizeHTMLTags s3;
            s5 = strip_patterns dangerousHTMLPatterns [] s4;
            s6 = replace_with True
                   (seqs [Chr 60, Grp 1 (plus (Cls word_ranges)), opt (Grp 2 (Seq ws (Star not_gt))),
                          Star ws, Chr 62, lit ''</'', Back 1, Chr 62])
                   [] s5
        in trim (collapse_space s6))"

subsection \<open>Scripts\<close>

definition backquote :: regex where
  "backquote = Cls [(39, 39), (34, 34), (96, 96)]"

definition criticalPatterns :: "regex list" where
  "criticalPatterns =
     [seqs [WordB, lit ''eval'', Star ws, Chr 40],
      seqs [WordB, lit ''new'', plus ws, lit ''Function'', Star ws, Chr 40],
      seqs [lit ''setTimeout'', Star ws, Chr 40, Star ws, backquote,
            Star (NCls [(39, 39), (34, 34), (96, 96)]), lit ''<script''],
      seqs [lit ''setInterval'', Star ws, Chr 40, Star ws, backquote,
            Star (NCls [(39, 39), (34, 34), (96, 96)]), lit ''<script''],
      seqs [lit ''document.write'', Star ws, Chr 40],
      seqs [lit ''document.writeln'', Star ws, Chr 40],
      seqs [lit ''location'', Star ws, Chr 61, Star ws, backquote, lit ''javascript:''],
      seqs [lit ''window'', Star ws, Chr 91, Star ws, backquote, lit ''eval'', backquote, Star ws, Chr 93],
      seqs [Chr 91, Star ws, backquote, lit ''constructor'', backquote, Star ws, Chr 93],
      seqs [WordB, lit ''import'', Star ws, Chr 40],
      seqs [WordB, lit ''require'', Star ws, Chr 40],
      seqs [lit ''<script'', Star not_gt, Chr 62],
      lit ''javascript:'',
      lit ''vbscript:'',
      lit ''data:text/html'']"

definition sanitizeJS :: "jsstring \<Rightarrow> jsstring" where
  "sanitizeJS code =
     (if code = [] then []
      else
        let s1 = strip_patterns criticalPatterns (js ''/* potentially dangerous code removed */'') code;
            sanitized = trim (collapse_semicolons (collapse_space s1))
        in if sanitized = [] then js ''/* Empty JavaScript content */'' else sanitized)"
section \<open>Request validator (src/utils/validation.ts)\<close>

text \<open>
  The schemas are written with the validation library Zod; the model gives each schema
  constructor the meaning it has there.  The input is the parsed JSON body of the request;
  a field that the body does not have is \<open>None\<close> (\<open>undefined\<close>).  A failed parse gives the
  list of issues, each with the path of the field and a message.
\<close>

record issue =
  issue_field :: jsstring
  issue_message :: jsstring

definition received_type :: "json \<Rightarrow> jsstring" where
  "received_type v =
     (case v of
        JNull \<Rightarrow> js ''null'' | JBool b \<Rightarrow> js ''boolean'' | JNum i \<Rightarrow> js ''number''
      | JReal t \<Rightarrow> js ''number'' | JStr s \<Rightarrow> js ''string'' | JArr xs \<Rightarrow> js ''array''
      | JObj ms \<Rightarrow> js ''object'')"

definition invalid_type :: "jsstring \<Rightarrow> string \<Rightarrow> json option \<Rightarrow> issue" where
  "invalid_type path expected v =
     (case v of
        None \<Rightarrow> \<lparr>issue_field = path, issue_message = js ''Required''\<rparr>
      | Some x \<Rightarrow> \<lparr>issue_field = path,
                    issue_message = js ''Expected '' @ js expected @ js '', received '' @ received_type x\<rparr>)"

text \<open>\<open>z.string()\<close> with optional \<open>.min(n, message)\<close> and \<open>.max(n, message)\<close>.\<close>

definition z_string ::
  "(nat \<times> string) option \<Rightarrow> (nat \<times> string) option \<Rightarrow> jsstring \<Rightarrow> json option \<Rightarrow> issue list + jsstring" where
  "z_string minimum maximum path v =
     (case v of
        Some (JStr s) \<Rightarrow>
          (let too_short = (case minimum of
                              None \<Rightarrow> []
                            | Some (n, m) \<Rightarrow> if length s < n then [\<lparr>issue_field = path, issue_message = js m\<rparr>] else []);
               too_long = (case maximum of
                             None \<Rightarrow> []
                           | Some (n, m) \<Rightarrow> if n < length s then [\<lparr>issue_field = path, issue_message = js m\<rparr>] else [])
           in if too_short @ too_long = [] then Inr s else Inl (too_short @ too_long))
      | _ \<Rightarrow> Inl [invalid_type path ''string'' v])"

text \<open>\<open>.default(d)\<close>: an absent input is replaced by \<open>d\<close>.\<close>

definition z_default :: "json \<Rightarrow> (json option \<Rightarrow> issue list + 'a) \<Rightarrow> json option \<Rightarrow> issue list + 'a" where
  "z_default d parse v = (case v of None \<Rightarrow> parse (Some d) | Some x \<Rightarrow> parse (Some x))"

text \<open>\<open>.optional()\<close>, as \<open>.partial()\<close> applies it to every field: an absent input stays absent.\<close>

definition z_optional :: "(json option \<Rightarrow> issue list + 'a) \<Rightarrow> json option \<Rightarrow> issue list + 'a option" where
  "z_optional parse v =
     (case v of
        None \<Rightarrow> Inr None
      | Some x \<Rightarrow> (case parse (Some x) of Inl is \<Rightarrow> Inl is | Inr a \<Rightarrow> Inr (Some a)))"

fun string_of :: "json \<Rightarrow> jsstring option" where
  "string_of (JStr s) = Some s"
| "string_of v = None"

text \<open>
  \<open>z.union([z.string(), z.array(z.string())]).transform(...)\<close>: a string is split at the
  commas, each piece trimmed, the empty pieces dropped; an array of strings is kept.
\<close>

definition z_tags :: "jsstring \<Rightarrow> json option \<Rightarrow> issue list + jsstring list" where
  "z_tags path v =
     (case v of
        Some (JStr s) \<Rightarrow> Inr (filter (\<lambda>tag. tag \<noteq> []) (map trim (split 44 s)))
      | Some (JArr xs) \<Rightarrow>
          if list_all (\<lambda>x. string_of x \<noteq> None) xs
          then Inr (map (\<lambda>x. case string_of x of Some s \<Rightarrow> s | None \<Rightarrow> []) xs)
          else Inl [\<lparr>issue_field = path, issue_message = js ''Invalid input''\<rparr>]
      | _ \<Rightarrow> Inl [\<lparr>issue_field = path, issue_message = js ''Invalid input''\<rparr>])"

definition name_schema :: "json option \<Rightarrow> issue list + jsstring" where
  "name_schema = z_string (Some (1, ''Component name is required''))
                          (Some (100, ''Component name too long'')) (js ''name'')"

definition category_schema :: "json option \<Rightarrow> issue list + jsstring" where
  "category_schema = z_default (JStr (js ''Other''))
                       (z_string None (Some (50, ''Category name too long'')) (js ''category''))"

definition html_schema :: "json option \<Rightarrow> issue list + jsstring" where
  "html_schema = z_default (JStr [])
                   (z_string None (Some (50000, ''HTML content too large'')) (js ''html''))"

definition css_schema :: "json option \<Rightarrow> issue list + jsstring" where
  "css_schema = z_default (JStr [])
                  (z_string None (Some (50000, ''CSS content too large'')) (js ''css''))"

definition js_schema :: "json option \<Rightarrow> issue list + jsstring" where
  "js_schema = z_default (JStr [])
                 (z_string None (Some (50000, ''JavaScript content too large'')) (js ''js''))"

definition tags_schema :: "json option \<Rightarrow> issue list + jsstring list" where
  "tags_schema = z_default (JArr []) (z_tags (js ''tags''))"

record component =
  c_name :: jsstring
  c_category :: jsstring
  c_html :: jsstring
  c_css :: jsstring
  c_js :: jsstring
  c_tags :: "jsstring list"

record component_update =
  u_name :: "jsstring option"
  u_category :: "jsstring option"
  u_html :: "jsstring option"
  u_css :: "jsstring option"
  u_js :: "jsstring option"
  u_tags :: "jsstring list option"

definition issues_of :: "issue list + 'a \<Rightarrow> issue list" where
  "issues_of r = (case r of Inl is \<Rightarrow> is | Inr a \<Rightarrow> [])"

text \<open>
  \<open>ComponentSchema.safeParse(data)\<close>.  An object is required; its unknown keys are dropped; the issues of all fields are
  collected in the order of the schema.
\<close>

definition ComponentSchema :: "json \<Rightarrow> issue list + component" where
  "ComponentSchema data =
     (case data of
        JObj ms \<Rightarrow>
          (case (name_schema (get_prop data ''name''), category_schema (get_prop data ''category''),
                 html_schema (get_prop data ''html''), css_schema (get_prop data ''css''),
                 js_schema (get_prop data ''js''), tags_schema (get_prop data ''tags'')) of
             (Inr n, Inr c, Inr h, Inr s, Inr j, Inr t) \<Rightarrow>
               Inr \<lparr>c_name = n, c_category = c, c_html = h, c_css = s, c_js = j, c_tags = t\<rparr>
           | (rn, rc, rh, rs, rj, rt) \<Rightarrow>
               Inl (issues_of rn @ issues_of rc @ issues_of rh @ issues_of rs @ issues_of rj
                    @ issues_of rt))
      | _ \<Rightarrow> Inl [invalid_type [] ''object'' (Some data)])"

text \<open>
  \<open>UpdateComponentSchema.safeParse(data)\<close>: every field optional, and the refinement that
  the parsed object has at least one key.
\<close>

definition UpdateComponentSchema :: "json \<Rightarrow> issue list + component_update" where
  "UpdateComponentSchema data =
     (case data of
        JObj ms \<Rightarrow>
          (case (z_optional name_schema (get_prop data ''name''),
                 z_optional category_schema (get_prop data ''category''),
                 z_optional html_schema (get_prop data ''html''),
                 z_optional css_schema (get_prop data ''css''),
                 z_optional js_schema (get_prop data ''js''),
                 z_optional tags_schema (get_prop data ''tags'')) of
             (Inr n, Inr c, Inr h, Inr s, Inr j, Inr t) \<Rightarrow>
               if n = None \<and> c = None \<and> h = None \<and> s = None \<and> j = None \<and> t = None
               then Inl [\<lparr>issue_field = [], issue_message = js ''At least one field must be provided for update''\<rparr>]
               else Inr \<lparr>u_name = n, u_category = c, u_html = h, u_css = s, u_js = j, u_tags = t\<rparr>
           | (rn, rc, rh, rs, rj, rt) \<Rightarrow>
               Inl (issues_of rn @ issues_of rc @ issues_of rh @ issues_of rs @ issues_of rj
                    @ issues_of rt))
      | _ \<Rightarrow> Inl [invalid_type [] ''object'' (Some data)])"

text \<open>\<open>s.replace(/[<>]/g, '')\<close>\<close>

definition strip_angle :: "jsstring \<Rightarrow> jsstring" where
  "strip_angle s = filter (\<lambda>c. c \<noteq> 60 \<and> c \<noteq> 62) s"

text \<open>
  The result of a validation: \<open>Inl details\<close> is
  \<open>{success: false, error: 'Validation failed', details}\<close>; \<open>Inr\<close> carries the sanitized
  data and, for a new component, the warnings.
\<close>

record sanitized_component =
  s_data :: component
  s_warnings :: "jsstring list"

definition validateAndSanitizeComponent :: "json \<Rightarrow> issue list + sanitized_component" where
  "validateAndSanitizeComponent d =
     (case ComponentSchema d of
        Inl details \<Rightarrow> Inl details
      | Inr validated \<Rightarrow>
          let originalHTML = c_html validated;
              originalCSS = c_css validated;
              originalJS = c_js validated;
              sanitized =
                \<lparr>c_name = strip_angle (trim (c_name validated)),
                 c_category = strip_angle (trim (c_category validated)),
                 c_html = sanitizeHTML (c_html validated),
                 c_css = sanitizeCSS (c_css validated),
                 c_js = sanitizeJS (c_js validated),
                 c_tags = filter (\<lambda>tag. tag \<noteq> [])
                            (map (\<lambda>tag. strip_angle (trim tag)) (c_tags validated))\<rparr>
          in Inr \<lparr>s_data = sanitized,
                  s_warnings =
                    (if originalHTML \<noteq> c_html sanitized \<and> originalHTML \<noteq> []
                     then [js ''HTML content was sanitized for security''] else []) @
                    (if originalCSS \<noteq> c_css sanitized \<and> originalCSS \<noteq> []
                     then [js ''CSS content was sanitized for security''] else []) @
                    (if originalJS \<noteq> c_js sanitized \<and> originalJS \<noteq> []
                     then [js ''JavaScript content was sanitized for security''] else [])\<rparr>)"

definition validateAndSanitizeUpdate :: "json \<Rightarrow> issue list + component_update" where
  "validateAndSanitizeUpdate d =
     (case UpdateComponentSchema d of
        Inl details \<Rightarrow> Inl details
      | Inr validated \<Rightarrow>
          Inr \<lparr>u_name = map_option trim (u_name validated),
               u_category = map_option trim (u_category validated),
               u_html = map_option sanitizeHTML (u_html validated),
               u_css = map_option sanitizeCSS (u_css validated),
               u_js = map_option sanitizeJS (u_js validated),
               u_tags = map_option (\<lambda>ts. filter (\<lambda>tag. tag \<noteq> []) (map trim ts))
                          (u_tags validated)\<rparr>)"

section \<open>The schema contract, in the words of the specification\<close>

text \<open>
  These predicates restate section 4.8 of the specification; they are compared with the
  schemas of the source in the claims below.  \<open>given\<close> is the field of the payload
  (\<open>None\<close> when the payload does not have it), \<open>val\<close> the validated value.
\<close>

definition is_object :: "json \<Rightarrow> bool" where
  "is_object d = (case d of JObj ms \<Rightarrow> True | _ \<Rightarrow> False)"

text \<open>A string of at least \<open>lo\<close> and at most \<open>hi\<close> characters.\<close>

definition spec_string :: "nat \<Rightarrow> nat \<Rightarrow> json option \<Rightarrow> jsstring \<Rightarrow> bool" where
  "spec_string lo hi given val = (given = Some (JStr val) \<and> lo \<le> length val \<and> length val \<le> hi)"

text \<open>A string of at most \<open>hi\<close> characters, defaulting to \<open>d\<close>.\<close>

definition spec_defaulted :: "nat \<Rightarrow> jsstring \<Rightarrow> json option \<Rightarrow> jsstring \<Rightarrow> bool" where
  "spec_defaulted hi d given val = (if given = None then val = d else spec_string 0 hi given val)"

text \<open>
  Either a comma-separated string (split, trimmed, empties filtered) or an ordered sequence
  of strings, defaulting to empty.
\<close>

definition spec_tags :: "json option \<Rightarrow> jsstring list \<Rightarrow> bool" where
  "spec_tags given val =
     (case given of
        None \<Rightarrow> val = []
      | Some (JStr s) \<Rightarrow> val = filter (\<lambda>t. t \<noteq> []) (map trim (split 44 s))
      | Some (JArr xs) \<Rightarrow> xs = map JStr val
      | Some _ \<Rightarrow> False)"

definition spec_create :: "json \<Rightarrow> component \<Rightarrow> bool" where
  "spec_create d c =
     (is_object d
      \<and> spec_string 1 100 (get_prop d ''name'') (c_name c)
      \<and> spec_defaulted 50 (js ''Other'') (get_prop d ''category'') (c_category c)
      \<and> spec_defaulted 50000 [] (get_prop d ''html'') (c_html c)
      \<and> spec_defaulted 50000 [] (get_prop d ''css'') (c_css c)
      \<and> spec_defaulted 50000 [] (get_prop d ''js'') (c_js c)
      \<and> spec_tags (get_prop d ''tags'') (c_tags c))"

text \<open>The same constraint on a field that may be absent.\<close>

definition spec_optional :: "(json option \<Rightarrow> 'a \<Rightarrow> bool) \<Rightarrow> json option \<Rightarrow> 'a option \<Rightarrow> bool" where
  "spec_optional constraint given val =
     (case given of
        None \<Rightarrow> val = None
      | Some x \<Rightarrow> (case val of None \<Rightarrow> False | Some v \<Rightarrow> constraint given v))"

definition some_field_present :: "json \<Rightarrow> bool" where
  "some_field_present d =
     (get_prop d ''name'' \<noteq> None \<or> get_prop d ''category'' \<noteq> None \<or> get_prop d ''html'' \<noteq> None
      \<or> get_prop d ''css'' \<noteq> None \<or> get_prop d ''js'' \<noteq> None \<or> get_prop d ''tags'' \<noteq> None)"

definition spec_update :: "json \<Rightarrow> component_update \<Rightarrow> bool" where
  "spec_update d u =
     (is_object d
      \<and> spec_optional (spec_string 1 100) (get_prop d ''name'') (u_name u)
      \<and> spec_optional (spec_string 0 50) (get_prop d ''category'') (u_category u)
      \<and> spec_optional (spec_string 0 50000) (get_prop d ''html'') (u_html u)
      \<and> spec_optional (spec_string 0 50000) (get_prop d ''css'') (u_css u)
      \<and> spec_optional (spec_string 0 50000) (get_prop d ''js'') (u_js u)
      \<and> spec_optional spec_tags (get_prop d ''tags'') (u_tags u)
      \<and> some_field_present d)"

text \<open>A string without white space at either end.\<close>

definition trimmed :: "jsstring \<Rightarrow> bool" where
  "trimmed s = (trim s = s)"

section \<open>Properties of the rate limiter\<close>

lemma calls_length: "length (fst (calls ts ip att)) = length ts"
  by (induction ts arbitrary: att) (simp_all add: split_beta)

lemma calls_from_record:
  "att ip = Some \<lparr>count = c, lastAttempt = t0\<rparr> \<Longrightarrow> within_window t0 ts \<Longrightarrow> k < length ts \<Longrightarrow>
   fst (calls ts ip att) ! k = (c + int k + 1 > maxAttempts)"
proof (induction ts arbitrary: att c t0 k)
  case Nil
  then show ?case by simp
next
  case (Cons t ts)
  let ?att' = "att(ip \<mapsto> \<lparr>count = c + 1, lastAttempt = t\<rparr>)"
  from Cons.prems have step: "isRateLimited t ip att = (c + 1 > maxAttempts, ?att')"
    by (simp add: isRateLimited_def)
  show ?case
  proof (cases k)
    case 0
    with step show ?thesis by (simp add: split_beta)
  next
    case (Suc j)
    have "fst (calls ts ip ?att') ! j = (c + 1 + int j + 1 > maxAttempts)"
      using Cons.prems Suc by (intro Cons.IH [where ?t0.0 = t]) simp_all
    with step Suc show ?thesis by (simp add: split_beta add.commute add.left_commute)
  qed
qed

lemma calls_from_fresh:
  assumes "case att ip of None \<Rightarrow> True | Some r \<Rightarrow> t - lastAttempt r > windowMs"
    and "within_window t ts" and "k < Suc (length ts)"
  shows "fst (calls (t # ts) ip att) ! k = (int k + 1 > maxAttempts)"
proof -
  let ?att' = "att(ip \<mapsto> \<lparr>count = 1, lastAttempt = t\<rparr>)"
  have step: "isRateLimited t ip att = (False, ?att')"
    using assms(1) by (simp add: isRateLimited_def split: option.splits)
  show ?thesis
  proof (cases k)
    case 0
    with step show ?thesis by (simp add: split_beta maxAttempts_def)
  next
    case (Suc j)
    have "fst (calls ts ip ?att') ! j = (1 + int j + 1 > maxAttempts)"
      using assms(2,3) Suc by (intro calls_from_record [where ?t0.0 = t]) simp_all
    with step Suc show ?thesis by (simp add: split_beta add.commute add.left_commute)
  qed
qed

text \<open>
  C4 (as stated) fails: the record keeps the time of the latest call, not the time the
  window started.  Seven calls, each within 15 minutes of the one before, the seventh
  16 minutes after the first: the count is 7 and the seventh call is still blocked.
\<close>

theorem C4_window_start_counterexample:
  "fst (calls [0, 180000, 360000, 540000, 720000, 840000, 960000] (js ''203.0.113.7'') Map.empty)
     = [False, False, False, False, False, True, True]
   \<and> 960000 - 0 > windowMs
   \<and> map_option count
        (snd (calls [0, 180000, 360000, 540000, 720000, 840000, 960000] (js ''203.0.113.7'') Map.empty)
           (js ''203.0.113.7'')) = Some 7"
  by (simp add: isRateLimited_def windowMs_def maxAttempts_def js_def)

text \<open>
  C4 (amended).  A call sets the count to 1 and returns false exactly when the client has
  no record or more than 15 minutes have passed since the client's previous call (the
  stored time is that of the latest call, so the window slides with every attempt);
  otherwise the count grows by one and the call returns true exactly when the new count
  exceeds 5.  So a blocked client stays blocked while its calls come at most 15 minutes
  apart, and is unblocked by the first call more than 15 minutes after its previous one.
  In a run of calls that starts without a record or after such a pause, each call at most
  15 minutes after the one before, calls 1 to 5 return false and call 6 and every later
  call return true.  After \<open>reset\<close> the next call returns false.
\<close>

theorem C4_rate_limiter_sliding_window:
  "snd (isRateLimited now ip att) ip =
     Some \<lparr>count = (case att ip of
                      None \<Rightarrow> 1
                    | Some r \<Rightarrow> if now - lastAttempt r > 15 * 60 * 1000 then 1 else count r + 1),
           lastAttempt = now\<rparr>
   \<and> fst (isRateLimited now ip att) =
       (case att ip of
          None \<Rightarrow> False
        | Some r \<Rightarrow> if now - lastAttempt r > 15 * 60 * 1000 then False else 5 < count r + 1)
   \<and> ((case att ip of None \<Rightarrow> True | Some r \<Rightarrow> t - lastAttempt r > 15 * 60 * 1000)
        \<and> within_window t ts \<and> k < Suc (length ts)
        \<longrightarrow> fst (calls (t # ts) ip att) ! k = (5 < int k + 1))
   \<and> fst (isRateLimited now ip (reset ip att)) = False"
proof (intro conjI impI)
  show "snd (isRateLimited now ip att) ip =
     Some \<lparr>count = (case att ip of
                      None \<Rightarrow> 1
                    | Some r \<Rightarrow> if now - lastAttempt r > 15 * 60 * 1000 then 1 else count r + 1),
           lastAttempt = now\<rparr>"
    by (simp add: isRateLimited_def windowMs_def split: option.splits)
next
  show "fst (isRateLimited now ip att) =
       (case att ip of
          None \<Rightarrow> False
        | Some r \<Rightarrow> if now - lastAttempt r > 15 * 60 * 1000 then False else 5 < count r + 1)"
    by (simp add: isRateLimited_def windowMs_def maxAttempts_def split: option.splits)
next
  assume "(case att ip of None \<Rightarrow> True | Some r \<Rightarrow> t - lastAttempt r > 15 * 60 * 1000)
        \<and> within_window t ts \<and> k < Suc (length ts)"
  then have "case att ip of None \<Rightarrow> True | Some r \<Rightarrow> t - lastAttempt r > windowMs"
    and "within_window t ts" and "k < Suc (length ts)"
    unfolding windowMs_def by simp_all
  then have "fst (calls (t # ts) ip att) ! k = (int k + 1 > maxAttempts)"
    by (rule calls_from_fresh)
  then show "fst (calls (t # ts) ip att) ! k = (5 < int k + 1)"
    by (simp only: maxAttempts_def)
next
  show "fst (isRateLimited now ip (reset ip att)) = False"
    by (simp add: isRateLimited_def reset_def)
qed

theorem C4_rate_limiter_sliding_window_witness:
  "Map.empty (js ''203.0.113.7'') = (None :: attempt_record option)
   \<and> within_window 0 [180000, 360000, 540000, 720000, 840000, 960000]
   \<and> (6::nat) < Suc (length [180000, 360000, 540000, 720000, 840000, 960000 :: int])
   \<and> fst (calls (0 # [180000, 360000, 540000, 720000, 840000, 960000])
             (js ''203.0.113.7'') Map.empty) ! 6 = True
   \<and> snd (calls [0, 180000, 360000, 540000, 720000, 840000, 960000] (js ''203.0.113.7'') Map.empty)
        (js ''203.0.113.7'') = Some \<lparr>count = 7, lastAttempt = 960000\<rparr>
   \<and> fst (isRateLimited 1860000 (js ''203.0.113.7'')
            (snd (calls [0, 180000, 360000, 540000, 720000, 840000, 960000]
                    (js ''203.0.113.7'') Map.empty))) = True
   \<and> fst (isRateLimited 1860001 (js ''203.0.113.7'')
            (snd (calls [0, 180000, 360000, 540000, 720000, 840000, 960000]
                    (js ''203.0.113.7'') Map.empty))) = False
   \<and> 1860001 - 960000 > (15 * 60 * 1000 :: int)
   \<and> within_window 1860001 [1860002, 1860003, 1860004, 1860005, 1860006]
   \<and> fst (calls (1860001 # [1860002, 1860003, 1860004, 1860005, 1860006]) (js ''203.0.113.7'')
            (snd (calls [0, 180000, 360000, 540000, 720000, 840000, 960000]
                    (js ''203.0.113.7'') Map.empty))) ! 4 = False
   \<and> fst (calls (1860001 # [1860002, 1860003, 1860004, 1860005, 1860006]) (js ''203.0.113.7'')
            (snd (calls [0, 180000, 360000, 540000, 720000, 840000, 960000]
                    (js ''203.0.113.7'') Map.empty))) ! 5 = True
   \<and> fst (isRateLimited 1000000 (js ''203.0.113.7'')
            (reset (js ''203.0.113.7'')
               (snd (calls [0, 180000, 360000, 540000, 720000, 840000, 960000]
                       (js ''203.0.113.7'') Map.empty)))) = False"
proof -
  let ?ip = "js ''203.0.113.7''"
  let ?run = "[180000, 360000, 540000, 720000, 840000, 960000 :: int]"
  let ?next = "[1860002, 1860003, 1860004, 1860005, 1860006 :: int]"
  let ?att = "snd (calls (0 # ?run) ?ip Map.empty)"
  have st: "?att ?ip = Some \<lparr>count = 7, lastAttempt = 960000\<rparr>"
    by (simp add: isRateLimited_def windowMs_def maxAttempts_def)
  have w1: "within_window 0 ?run" by (simp add: windowMs_def)
  have w2: "within_window 1860001 ?next" by (simp add: windowMs_def)
  have a: "fst (calls (0 # ?run) ?ip Map.empty) ! 6 = True"
    using C4_rate_limiter_sliding_window [of 0 ?ip Map.empty 0 ?run 6] w1 by simp
  have b: "fst (isRateLimited 1860000 ?ip ?att) = True"
    using C4_rate_limiter_sliding_window [of 1860000 ?ip ?att] by (simp only: st) simp
  have c: "fst (isRateLimited 1860001 ?ip ?att) = False"
    using C4_rate_limiter_sliding_window [of 1860001 ?ip ?att] by (simp only: st) simp
  have d: "fst (calls (1860001 # ?next) ?ip ?att) ! 4 = False"
    using C4_rate_limiter_sliding_window [of 0 ?ip ?att 1860001 ?next 4] w2
    by (simp only: st) simp
  have e: "fst (calls (1860001 # ?next) ?ip ?att) ! 5 = True"
    using C4_rate_limiter_sliding_window [of 0 ?ip ?att 1860001 ?next 5] w2
    by (simp only: st) simp
  have f: "fst (isRateLimited 1000000 ?ip (reset ?ip ?att)) = False"
    using C4_rate_limiter_sliding_window [of 1000000 ?ip ?att] by blast
  have h0: "Map.empty ?ip = (None :: attempt_record option)" by simp
  have h1: "(6::nat) < Suc (length ?run)" by simp
  have h2: "1860001 - 960000 > (15 * 60 * 1000 :: int)" by simp
  show ?thesis by (intro conjI h0 w1 h1 a st b c h2 w2 d e f)
qed

section \<open>Properties of the CSRF guard\<close>

lemma valid_values_nonempty: "v \<in> set validXRequestedWithValues \<Longrightarrow> v \<noteq> []"
  by (auto simp: validXRequestedWithValues_def js_def)

lemma Number_toString_1_2: "Number_toString 1 = js ''1''" "Number_toString 2 = js ''2''"
  by code_simp+

lemma Number_toString_layers:
  "Number_toString (if d then 1 else 2) = (if d then js ''1'' else js ''2'')"
  by (simp add: Number_toString_1_2)

text \<open>
  C6.  A request whose method, in upper case, is none of POST, PUT and DELETE passes
  whatever its headers are.  For POST, PUT and DELETE the guard counts the three signals
  (origin, custom headers, bearer presence) and passes exactly when the count reaches 2 in
  production, or 1 in development; below that it answers 403 with a JSON body that names
  the required count and lists the three layers in the order origin, custom headers,
  bearer token, each with the status \<open>valid\<close> or \<open>invalid\<close> of its signal.
\<close>

theorem C6_csrf_decision:
  "(toUpperCase (req_method r) \<notin> set [js ''POST'', js ''PUT'', js ''DELETE'']
      \<longrightarrow> requireCSRFProtection r e = None)
   \<and> (toUpperCase (req_method r) \<in> set [js ''POST'', js ''PUT'', js ''DELETE'']
      \<longrightarrow> (requireCSRFProtection r e = None
            \<longleftrightarrow> (if ENVIRONMENT e = Some (js ''development'') then 1 else 2)
                 \<le> length (filter (\<lambda>b. b)
                      [validateReferer r e, validateCustomHeaders r, validateJWTSignature r]))
         \<and> (requireCSRFProtection r e \<noteq> None
            \<longrightarrow> requireCSRFProtection r e =
                  Some \<lparr>status = 403,
                        res_headers = [(js ''Content-Type'', js ''application/json'')],
                        body = JSON_stringify
                          (JObj [
                             (js ''error'', JStr (js ''CSRF protection'')),
                             (js ''message'',
                                JStr (js ''Request blocked by CSRF protection. Need at least '' @
                                      (if ENVIRONMENT e = Some (js ''development'')
                                       then js ''1'' else js ''2'') @
                                      js '' security layer(s).'')),
                             (js ''details'', JObj [
                                (js ''required'',
                                   JStr (js ''At least '' @
                                         (if ENVIRONMENT e = Some (js ''development'')
                                          then js ''1'' else js ''2'') @
                                         js '' of the following layers:'')),
                                (js ''layers'', JArr [
                                   JObj [(js ''name'', JStr (js ''Valid Origin/Referer'')),
                                         (js ''status'',
                                            JStr (if validateReferer r e
                                                  then js ''valid'' else js ''invalid'')),
                                         (js ''description'',
                                            JStr (js ''Request from allowed domain''))],
                                   JObj [(js ''name'', JStr (js ''Custom Headers'')),
                                         (js ''status'',
                                            JStr (if validateCustomHeaders r
                                                  then js ''valid'' else js ''invalid'')),
                                         (js ''description'',
                                            JStr (js ''X-Requested-With or X-App-Name headers''))],
                                   JObj [(js ''name'', JStr (js ''JWT Signature'')),
                                         (js ''status'',
                                            JStr (if validateJWTSignature r
                                                  then js ''valid'' else js ''invalid'')),
                                         (js ''description'',
                                            JStr (js ''Valid JWT Bearer token''))]])])])\<rparr>))"
proof -
  let ?M = "toUpperCase (req_method r) \<in> set [js ''POST'', js ''PUT'', js ''DELETE'']"
  let ?n = "length (filter (\<lambda>b. b)
              [validateReferer r e, validateCustomHeaders r, validateJWTSignature r])"
  let ?dev = "ENVIRONMENT e = Some (js ''development'')"
  have skip: "\<not> ?M \<Longrightarrow> requireCSRFProtection r e = None"
    unfolding requireCSRFProtection_def Let_def by (simp del: set_simps)
  have pass: "?M \<Longrightarrow> (requireCSRFProtection r e = None) = ((if ?dev then 1 else 2) \<le> ?n)"
    unfolding requireCSRFProtection_def protectionCount_def minProtectionLayers_def
      isDevelopment_def Let_def
    by (auto simp: Suc_le_eq simp del: set_simps filter.simps)
  have block: "?M \<Longrightarrow> requireCSRFProtection r e \<noteq> None \<Longrightarrow>
      requireCSRFProtection r e =
        Some (json_response 403
          (csrf_rejection_payload (validateReferer r e) (validateCustomHeaders r)
             (validateJWTSignature r) (if ?dev then 1 else 2)))"
    unfolding requireCSRFProtection_def protectionCount_def minProtectionLayers_def
      isDevelopment_def Let_def
    by (cases ?dev; cases "?n < 1"; cases "?n < 2")
      (simp_all del: set_simps filter.simps)
  have payload: "\<And>a b c. csrf_rejection_payload a b c (if ?dev then 1 else 2) =
      JObj [
        (js ''error'', JStr (js ''CSRF protection'')),
        (js ''message'',
           JStr (js ''Request blocked by CSRF protection. Need at least '' @
                 (if ?dev then js ''1'' else js ''2'') @ js '' security layer(s).'')),
        (js ''details'', JObj [
           (js ''required'',
              JStr (js ''At least '' @ (if ?dev then js ''1'' else js ''2'') @
                    js '' of the following layers:'')),
           (js ''layers'', JArr [
              JObj [(js ''name'', JStr (js ''Valid Origin/Referer'')),
                    (js ''status'', JStr (if a then js ''valid'' else js ''invalid'')),
                    (js ''description'', JStr (js ''Request from allowed domain''))],
              JObj [(js ''name'', JStr (js ''Custom Headers'')),
                    (js ''status'', JStr (if b then js ''valid'' else js ''invalid'')),
                    (js ''description'', JStr (js ''X-Requested-With or X-App-Name headers''))],
              JObj [(js ''name'', JStr (js ''JWT Signature'')),
                    (js ''status'', JStr (if c then js ''valid'' else js ''invalid'')),
                    (js ''description'', JStr (js ''Valid JWT Bearer token''))]])])]"
    by (simp only: csrf_rejection_payload_def layer_status_def Number_toString_layers)
  show ?thesis
  proof (intro conjI impI)
    assume "toUpperCase (req_method r) \<notin> set [js ''POST'', js ''PUT'', js ''DELETE'']"
    then show "requireCSRFProtection r e = None" by (rule skip)
  next
    assume ?M
    then show "(requireCSRFProtection r e = None) = ((if ?dev then 1 else 2) \<le> ?n)"
      by (rule pass)
  next
    assume m: ?M and "requireCSRFProtection r e \<noteq> None"
    then have "requireCSRFProtection r e =
        Some (json_response 403
          (csrf_rejection_payload (validateReferer r e) (validateCustomHeaders r)
             (validateJWTSignature r) (if ?dev then 1 else 2)))"
      by (rule block)
    then show "requireCSRFProtection r e =
        Some \<lparr>status = 403,
              res_headers = [(js ''Content-Type'', js ''application/json'')],
              body = JSON_stringify
                (JObj [
                   (js ''error'', JStr (js ''CSRF protection'')),
                   (js ''message'',
                      JStr (js ''Request blocked by CSRF protection. Need at least '' @
                            (if ?dev then js ''1'' else js ''2'') @ js '' security layer(s).'')),
                   (js ''details'', JObj [
                      (js ''required'',
                         JStr (js ''At least '' @ (if ?dev then js ''1'' else js ''2'') @
                               js '' of the following layers:'')),
                      (js ''layers'', JArr [
                         JObj [(js ''name'', JStr (js ''Valid Origin/Referer'')),
                               (js ''status'',
                                  JStr (if validateReferer r e
                                        then js ''valid'' else js ''invalid'')),
                               (js ''description'', JStr (js ''Request from allowed domain''))],
                         JObj [(js ''name'', JStr (js ''Custom Headers'')),
                               (js ''status'',
                                  JStr (if validateCustomHeaders r
                                        then js ''valid'' else js ''invalid'')),
                               (js ''description'',
                                  JStr (js ''X-Requested-With or X-App-Name headers''))],
                         JObj [(js ''name'', JStr (js ''JWT Signature'')),
                               (js ''status'',
                                  JStr (if validateJWTSignature r
                                        then js ''valid'' else js ''invalid'')),
                               (js ''description'', JStr (js ''Valid JWT Bearer token''))]])])])\<rparr>"
      by (simp only: payload json_response_def)
  qed
qed

theorem C6_csrf_decision_witness:
  \<open>toUpperCase (req_method \<lparr>req_method = js ''post'', req_headers = Map.empty\<rparr>)
     \<in> set [js ''POST'', js ''PUT'', js ''DELETE'']
   \<and> requireCSRFProtection \<lparr>req_method = js ''post'', req_headers = Map.empty\<rparr>
        \<lparr>ADMIN_PASSWORD = None, ENVIRONMENT = None, SESSIONS = None, JWT_SECRET = None,
         ACCESS_TOKEN_EXPIRY = None, REFRESH_TOKEN_EXPIRY = None\<rparr>
       = Some \<lparr>status = 403,
               res_headers = [(js ''Content-Type'', js ''application/json'')],
               body = js ''{"error":"CSRF protection","message":"Request blocked by CSRF protection. Need at least 2 security layer(s).","details":{"required":"At least 2 of the following layers:","layers":[{"name":"Valid Origin/Referer","status":"invalid","description":"Request from allowed domain"},{"name":"Custom Headers","status":"invalid","description":"X-Requested-With or X-App-Name headers"},{"name":"JWT Signature","status":"invalid","description":"Valid JWT Bearer token"}]}}''\<rparr>
   \<and> toUpperCase (req_method \<lparr>req_method = js ''DELETE'',
         req_headers = [js ''x-requested-with'' \<mapsto> js ''fetch'']\<rparr>)
       \<in> set [js ''POST'', js ''PUT'', js ''DELETE'']
   \<and> requireCSRFProtection
        \<lparr>req_method = js ''DELETE'', req_headers = [js ''x-requested-with'' \<mapsto> js ''fetch'']\<rparr>
        \<lparr>ADMIN_PASSWORD = None, ENVIRONMENT = None, SESSIONS = None, JWT_SECRET = None,
         ACCESS_TOKEN_EXPIRY = None, REFRESH_TOKEN_EXPIRY = None\<rparr>
       = Some \<lparr>status = 403,
               res_headers = [(js ''Content-Type'', js ''application/json'')],
               body = js ''{"error":"CSRF protection","message":"Request blocked by CSRF protection. Need at least 2 security layer(s).","details":{"required":"At least 2 of the following layers:","layers":[{"name":"Valid Origin/Referer","status":"invalid","description":"Request from allowed domain"},{"name":"Custom Headers","status":"valid","description":"X-Requested-With or X-App-Name headers"},{"name":"JWT Signature","status":"invalid","description":"Valid JWT Bearer token"}]}}''\<rparr>
   \<and> requireCSRFProtection
        \<lparr>req_method = js ''DELETE'', req_headers = [js ''x-requested-with'' \<mapsto> js ''fetch'']\<rparr>
        \<lparr>ADMIN_PASSWORD = None, ENVIRONMENT = Some (js ''development''), SESSIONS = None,
         JWT_SECRET = None, ACCESS_TOKEN_EXPIRY = None, REFRESH_TOKEN_EXPIRY = None\<rparr> = None
   \<and> toUpperCase (req_method \<lparr>req_method = js ''GET'', req_headers = Map.empty\<rparr>)
       \<notin> set [js ''POST'', js ''PUT'', js ''DELETE'']
   \<and> requireCSRFProtection \<lparr>req_method = js ''GET'', req_headers = Map.empty\<rparr>
        \<lparr>ADMIN_PASSWORD = None, ENVIRONMENT = None, SESSIONS = None, JWT_SECRET = None,
         ACCESS_TOKEN_EXPIRY = None, REFRESH_TOKEN_EXPIRY = None\<rparr> = None\<close>
proof -
  let ?post = "\<lparr>req_method = js ''post'', req_headers = Map.empty\<rparr>"
  let ?delete = "\<lparr>req_method = js ''DELETE'',
                  req_headers = [js ''x-requested-with'' \<mapsto> js ''fetch'']\<rparr>"
  let ?get = "\<lparr>req_method = js ''GET'', req_headers = Map.empty\<rparr>"
  let ?prod = "\<lparr>ADMIN_PASSWORD = None, ENVIRONMENT = None, SESSIONS = None, JWT_SECRET = None,
                ACCESS_TOKEN_EXPIRY = None, REFRESH_TOKEN_EXPIRY = None\<rparr>"
  let ?dev = "\<lparr>ADMIN_PASSWORD = None, ENVIRONMENT = Some (js ''development''), SESSIONS = None,
               JWT_SECRET = None, ACCESS_TOKEN_EXPIRY = None, REFRESH_TOKEN_EXPIRY = None\<rparr>"
  let ?body = "\<lambda>a b c. JSON_stringify
    (JObj [
       (js ''error'', JStr (js ''CSRF protection'')),
       (js ''message'',
          JStr (js ''Request blocked by CSRF protection. Need at least '' @ js ''2'' @
                js '' security layer(s).'')),
       (js ''details'', JObj [
          (js ''required'',
             JStr (js ''At least '' @ js ''2'' @ js '' of the following layers:'')),
          (js ''layers'', JArr [
             JObj [(js ''name'', JStr (js ''Valid Origin/Referer'')),
                   (js ''status'', JStr a),
                   (js ''description'', JStr (js ''Request from allowed domain''))],
             JObj [(js ''name'', JStr (js ''Custom Headers'')),
                   (js ''status'', JStr b),
                   (js ''description'', JStr (js ''X-Requested-With or X-App-Name headers''))],
             JObj [(js ''name'', JStr (js ''JWT Signature'')),
                   (js ''status'', JStr c),
                   (js ''description'', JStr (js ''Valid JWT Bearer token''))]])])])"
  have m1: "toUpperCase (req_method ?post) \<in> set [js ''POST'', js ''PUT'', js ''DELETE'']"
    by code_simp
  have m2: "toUpperCase (req_method ?delete) \<in> set [js ''POST'', js ''PUT'', js ''DELETE'']"
    by code_simp
  have m3: "toUpperCase (req_method ?get) \<notin> set [js ''POST'', js ''PUT'', js ''DELETE'']"
    by code_simp
  have s1: "\<not> validateReferer ?post ?prod" "\<not> validateCustomHeaders ?post"
    "\<not> validateJWTSignature ?post"
    by (simp_all add: validateReferer_def validateCustomHeaders_def validateJWTSignature_def
        headers_get_def Let_def)
  have k: "toLowerCase (js ''X-Requested-With'') = js ''x-requested-with''" by code_simp
  have k': "toLowerCase (js ''Authorization'') \<noteq> js ''x-requested-with''"
    "toLowerCase (js ''Origin'') \<noteq> js ''x-requested-with''"
    "toLowerCase (js ''Referer'') \<noteq> js ''x-requested-with''" by code_simp+
  have f: "js ''fetch'' \<in> set validXRequestedWithValues" "js ''fetch'' \<noteq> []" by code_simp+
  have s2: "\<not> validateReferer ?delete ?prod" "\<not> validateReferer ?delete ?dev"
    "validateCustomHeaders ?delete" "\<not> validateJWTSignature ?delete"
    using k k' f
    by (simp_all add: validateReferer_def validateCustomHeaders_def validateJWTSignature_def
        headers_get_def Let_def)
  have t1: \<open>?body (js ''invalid'') (js ''invalid'') (js ''invalid'') = js ''{"error":"CSRF protection","message":"Request blocked by CSRF protection. Need at least 2 security layer(s).","details":{"required":"At least 2 of the following layers:","layers":[{"name":"Valid Origin/Referer","status":"invalid","description":"Request from allowed domain"},{"name":"Custom Headers","status":"invalid","description":"X-Requested-With or X-App-Name headers"},{"name":"JWT Signature","status":"invalid","description":"Valid JWT Bearer token"}]}}''\<close>
    by code_simp
  have t2: \<open>?body (js ''invalid'') (js ''valid'') (js ''invalid'') = js ''{"error":"CSRF protection","message":"Request blocked by CSRF protection. Need at least 2 security layer(s).","details":{"required":"At least 2 of the following layers:","layers":[{"name":"Valid Origin/Referer","status":"invalid","description":"Request from allowed domain"},{"name":"Custom Headers","status":"valid","description":"X-Requested-With or X-App-Name headers"},{"name":"JWT Signature","status":"invalid","description":"Valid JWT Bearer token"}]}}''\<close>
    by code_simp
  have r1: "requireCSRFProtection ?post ?prod
      = Some \<lparr>status = 403, res_headers = [(js ''Content-Type'', js ''application/json'')],
              body = ?body (js ''invalid'') (js ''invalid'') (js ''invalid'')\<rparr>"
    using C6_csrf_decision [of ?post ?prod] m1 s1
    by (simp del: JSON_stringify.simps set_simps)
  have r2: "requireCSRFProtection ?delete ?prod
      = Some \<lparr>status = 403, res_headers = [(js ''Content-Type'', js ''application/json'')],
              body = ?body (js ''invalid'') (js ''valid'') (js ''invalid'')\<rparr>"
    using C6_csrf_decision [of ?delete ?prod] m2 s2
    by (simp del: JSON_stringify.simps set_simps)
  have r3: "requireCSRFProtection ?delete ?dev = None"
    using C6_csrf_decision [of ?delete ?dev] m2 s2
    by (simp del: JSON_stringify.simps set_simps)
  have r4: "requireCSRFProtection ?get ?prod = None"
    using C6_csrf_decision [of ?get ?prod] m3 by blast
  show ?thesis
    by (intro conjI m1 m2 m3 r1 [unfolded t1] r2 [unfolded t2] r3 r4)
qed

text \<open>
  C7 (as stated) fails: a PUT request that carries only a JSON content type, and none of
  X-Requested-With, X-App-Name and Authorization, has a true header signal.
\<close>

theorem C7_json_only_put_counterexample:
  "validateCustomHeaders
     \<lparr>req_method = js ''PUT'',
      req_headers = [js ''content-type'' \<mapsto> js ''application/json'']\<rparr> = True"
  by (simp add: validateCustomHeaders_def headers_get_def js_def toLowerCase_def lower_unit_def
      toUpperCase_def upper_unit_def startsWith_def Let_def)

text \<open>
  C7 (amended).  The header signal is true if and only if X-Requested-With carries one of
  the four recognised values, or X-App-Name is exactly the expected value, or the content
  type contains application/json and the request is not a POST without any of
  X-Requested-With, X-App-Name and Authorization.  So a bare JSON content type gives a false
  signal on POST, and a true one on every other method.
\<close>

theorem C7_header_signal:
  "validateCustomHeaders r \<longleftrightarrow>
     (case headers_get r ''X-Requested-With'' of
        Some v \<Rightarrow> v \<in> set [js ''XMLHttpRequest'', js ''fetch'', js ''application/json'',
                              js ''component-api'']
      | None \<Rightarrow> False)
     \<or> headers_get r ''X-App-Name'' = Some (js ''component-management'')
     \<or> ((case headers_get r ''Content-Type'' of
            Some contentType \<Rightarrow> includes_str contentType (js ''application/json'')
          | None \<Rightarrow> False)
        \<and> (toUpperCase (req_method r) \<noteq> js ''POST''
           \<or> truthy (headers_get r ''X-Requested-With'')
           \<or> truthy (headers_get r ''X-App-Name'')
           \<or> truthy (headers_get r ''Authorization'')))"
proof -
  define X where "X = headers_get r ''X-Requested-With''"
  define A where "A = headers_get r ''X-App-Name''"
  define C where "C = (case headers_get r ''Content-Type'' of
            Some contentType \<Rightarrow> includes_str contentType (js ''application/json'')
          | None \<Rightarrow> False)"
  define Z where "Z = headers_get r ''Authorization''"
  define M where "M = (toUpperCase (req_method r) = js ''POST'')"
  define V where "V = (case X of Some v \<Rightarrow> v \<in> set validXRequestedWithValues | None \<Rightarrow> False)"
  have VX: "V \<Longrightarrow> truthy X"
    by (cases X) (auto simp: V_def dest: valid_values_nonempty)
  have "validateCustomHeaders r =
        (if truthy X \<and> V then True else if A = Some (js ''component-management'') then True
         else if C then (if M \<and> \<not> (truthy X \<or> truthy A \<or> truthy Z) then False else True)
         else False)"
    unfolding validateCustomHeaders_def Let_def X_def A_def C_def Z_def M_def V_def by (rule refl)
  also have "\<dots> = (V \<or> A = Some (js ''component-management'')
                    \<or> (C \<and> (\<not> M \<or> truthy X \<or> truthy A \<or> truthy Z)))"
    using VX by (cases V; cases C; cases M) auto
  finally show ?thesis
    unfolding X_def A_def C_def Z_def M_def V_def validXRequestedWithValues_def .
qed

theorem C7_header_signal_witness:
  "validateCustomHeaders
     \<lparr>req_method = js ''POST'',
      req_headers = [js ''content-type'' \<mapsto> js ''application/json'']\<rparr> = False
   \<and> toUpperCase (req_method \<lparr>req_method = js ''POST'',
        req_headers = [js ''content-type'' \<mapsto> js ''application/json'']\<rparr>) = js ''POST''"
  using C7_header_signal
    [of "\<lparr>req_method = js ''POST'',
          req_headers = [js ''content-type'' \<mapsto> js ''application/json'']\<rparr>"]
  by (simp add: headers_get_def js_def toLowerCase_def lower_unit_def
      toUpperCase_def upper_unit_def startsWith_def)


section \<open>Base64: decoding undoes encoding\<close>

lemma octets_sextets: "\<forall>b\<in>set bs. b < 256 \<Longrightarrow> octets (sextets bs) = bs"
proof (induction bs rule: sextets.induct)
  case (1 a b c rest)
  have a: "a < 256" and b: "b < 256" and c: "c < 256" using "1.prems" by simp_all
  have "a div 4 * 4 + (a mod 4 * 16 + b div 16) div 16 = a" using a b by simp
  moreover have "(a mod 4 * 16 + b div 16) mod 16 * 16 + (b mod 16 * 4 + c div 64) div 4 = b"
    using b c by simp
  moreover have "(b mod 16 * 4 + c div 64) mod 4 * 64 + c mod 64 = c" using c by simp
  ultimately show ?case using "1.IH" "1.prems" by simp
next
  case (2 a b)
  have a: "a < 256" and b: "b < 256" using "2.prems" by simp_all
  have "a div 4 * 4 + (a mod 4 * 16 + b div 16) div 16 = a" using a b by simp
  moreover have "(a mod 4 * 16 + b div 16) mod 16 * 16 + (b mod 16 * 4) div 4 = b"
    using b by simp
  ultimately show ?case by simp
next
  case (3 a)
  have "a div 4 * 4 + (a mod 4 * 16) div 16 = a" by simp
  then show ?case by simp
next
  case 4
  show ?case by simp
qed

lemma sextets_bound: "\<forall>b\<in>set bs. b < 256 \<Longrightarrow> \<forall>v\<in>set (sextets bs). v < 64"
proof (induction bs rule: sextets.induct)
  case (1 a b c rest)
  have a: "a < 256" and b: "b < 256" and c: "c < 256" using "1.prems" by simp_all
  have "a div 4 < 64" using a by simp
  moreover have "a mod 4 * 16 + b div 16 < 64" using b by simp
  moreover have "b mod 16 * 4 + c div 64 < 64" using c by simp
  moreover have "c mod 64 < 64" by simp
  ultimately show ?case using "1.IH" "1.prems" by simp
next
  case (2 a b)
  have a: "a < 256" and b: "b < 256" using "2.prems" by simp_all
  have "a div 4 < 64" using a by simp
  moreover have "a mod 4 * 16 + b div 16 < 64" using b by simp
  moreover have "b mod 16 * 4 < 64" by simp
  ultimately show ?case by simp
next
  case (3 a)
  have a: "a < 256" using "3.prems" by simp
  have "a div 4 < 64" using a by simp
  moreover have "a mod 4 * 16 < 64" by simp
  ultimately show ?case by simp
next
  case 4
  show ?case by simp
qed

lemma length_sextets: "length (sextets bs) mod 4 \<noteq> 1"
  by (induction bs rule: sextets.induct) simp_all

lemma b64_value_unit: "v < 64 \<Longrightarrow> b64_value (b64_unit v) = Some v"
  by (auto simp: b64_value_def b64_unit_def)

lemma b64_unit_plain:
  "v < 64 \<Longrightarrow> b64_unit v \<noteq> 61 \<and> b64_unit v \<noteq> 45 \<and> b64_unit v \<noteq> 95 \<and> b64_unit v \<noteq> 46
     \<and> \<not> is_ascii_ws (b64_unit v)"
  by (auto simp: b64_unit_def is_ascii_ws_def)

lemma encode_part_latin1:
  assumes "\<forall>c\<in>set x. c < 256"
  shows "encode_part x = Inr (part_text x)"
proof -
  have bound: "\<forall>v\<in>set (sextets x). v < 64" using assms by (rule sextets_bound)
  have no: "\<not> list_ex (\<lambda>c. 255 < c) x" using assms by (auto simp: list_ex_iff)
  have "filter (\<lambda>c. c \<noteq> 61) (map b64_unit (sextets x) @ replicate ((3 - length x mod 3) mod 3) 61)
        = map b64_unit (sextets x)"
    using bound b64_unit_plain by (auto simp: filter_id_conv)
  with no show ?thesis by (simp add: encode_part_def btoa_def part_text_def)
qed

lemma part_text_no_dot: "\<forall>c\<in>set x. c < 256 \<Longrightarrow> 46 \<notin> set (part_text x)"
  using sextets_bound [of x] b64_unit_plain
  by (auto simp: part_text_def replace_unit_def)

lemma strip_padding_units:
  assumes "\<forall>c\<in>set d. c \<noteq> 61"
  shows "strip_padding d = d"
proof -
  have "2 \<le> length d \<Longrightarrow> drop (length d - 2) d \<noteq> [61, 61]"
  proof
    assume l: "2 \<le> length d" and eq: "drop (length d - 2) d = [61, 61]"
    have "set (drop (length d - 2) d) \<subseteq> set d" by (rule set_drop_subset)
    with eq assms show False by auto
  qed
  moreover have "1 \<le> length d \<Longrightarrow> drop (length d - 1) d \<noteq> [61]"
  proof
    assume l: "1 \<le> length d" and eq: "drop (length d - 1) d = [61]"
    have "set (drop (length d - 1) d) \<subseteq> set d" by (rule set_drop_subset)
    with eq assms show False by auto
  qed
  ultimately show ?thesis by (auto simp: strip_padding_def)
qed

lemma atob_units:
  assumes "\<forall>v\<in>set vs. v < 64" and "length vs mod 4 \<noteq> 1"
  shows "atob (map b64_unit vs) = Inr (octets vs)"
proof -
  let ?d = "map b64_unit vs"
  have ws: "filter (\<lambda>c. \<not> is_ascii_ws c) ?d = ?d"
    using assms(1) b64_unit_plain by (auto simp: filter_id_conv)
  have pad: "strip_padding ?d = ?d"
    using assms(1) b64_unit_plain by (intro strip_padding_units) auto
  have vals: "those_values ?d = Some vs"
    using assms(1) by (auto simp: those_values_def list_all_iff b64_value_unit map_idI)
  show ?thesis using assms(2) by (simp add: atob_def ws pad vals)
qed

lemma decode_part_text:
  assumes "\<forall>c\<in>set x. c < 256"
  shows "decode_part (part_text x) = Inr x"
proof -
  have bound: "\<forall>v\<in>set (sextets x). v < 64" using assms by (rule sextets_bound)
  have "replace_unit 95 47 (replace_unit 45 43 (part_text x)) = map b64_unit (sextets x)"
    using bound b64_unit_plain
    by (auto simp: part_text_def replace_unit_def intro!: map_idI)
  then show ?thesis
    using atob_units [OF bound length_sextets] octets_sextets [OF assms]
    by (simp add: decode_part_def)
qed

section \<open>JSON: reading undoes writing\<close>

lemma hex_value_unit: "d < 16 \<Longrightarrow> hex_value (hex_unit d) = Some d"
  by (auto simp: hex_value_def hex_unit_def)

lemma hex4_escape:
  "c < 256 \<Longrightarrow>
   hex4 (hex_unit (c div 4096 mod 16)) (hex_unit (c div 256 mod 16))
        (hex_unit (c div 16 mod 16)) (hex_unit (c mod 16)) = Some c"
proof -
  assume c: "c < 256"
  have "c div 4096 = 0" "c div 256 = 0" "c div 16 mod 16 = c div 16" using c by simp_all
  moreover have "hex_value (hex_unit 0) = Some 0" by (simp add: hex_value_unit)
  ultimately show ?thesis using c by (simp add: hex4_def hex_value_unit)
qed

lemma parse_quote_unit:
  assumes "c < 256"
  shows "parse_string_body (quote_unit c @ rest) = cons_unit c (parse_string_body rest)"
proof -
  have esc: "parse_string_body (unicode_escape c @ rest) = cons_unit c (parse_string_body rest)"
    using hex4_escape [of c] assms by (simp add: unicode_escape_def)
  consider "c = 8" | "c = 9" | "c = 10" | "c = 12" | "c = 13" | "c = 34" | "c = 92"
    | "c < 32" "c \<notin> {8, 9, 10, 12, 13}" | "32 \<le> c" "c \<noteq> 34" "c \<noteq> 92"
    by fastforce
  then show ?thesis
  proof cases
    case 8
    then show ?thesis using esc by (simp add: quote_unit_def)
  next
    case 9
    then show ?thesis by (simp add: quote_unit_def)
  qed (simp_all add: quote_unit_def simple_escape_def)
qed

lemma quote_units_latin1: "latin1 s \<Longrightarrow> quote_units s = concat (map quote_unit s)"
  by (induction s rule: quote_units.induct) (auto simp: latin1_def is_lead_def is_trail_def)

lemma parse_quoted_units:
  "latin1 s \<Longrightarrow> parse_string_body (concat (map quote_unit s) @ 34 # rest) = Some (s, rest)"
  by (induction s) (simp_all add: latin1_def parse_quote_unit cons_unit_def)

lemma parse_quoted:
  "latin1 s \<Longrightarrow> parse_string_body (quote_units s @ 34 # rest) = Some (s, rest)"
  by (simp add: quote_units_latin1 parse_quoted_units)
lemma digits_of_nonempty: "digits_of n \<noteq> []"
  by (subst digits_of.simps) simp

lemma digits_of_digits: "\<forall>c\<in>set (digits_of n). is_digit c"
proof (induction n rule: digits_of.induct)
  case (1 n)
  show ?case
  proof (cases "n < 10")
    case True
    then show ?thesis by (subst digits_of.simps) (simp add: is_digit_def)
  next
    case False
    have "n mod 10 < 10" by simp
    then have "is_digit (48 + n mod 10)" unfolding is_digit_def by linarith
    with False "1.IH" show ?thesis by (subst digits_of.simps) simp
  qed
qed

lemma decimal_value_snoc: "decimal_value (ds @ [d]) = 10 * decimal_value ds + (int d - 48)"
  by (simp add: decimal_value_def)

lemma decimal_value_digits: "decimal_value (digits_of n) = int n"
proof (induction n rule: digits_of.induct)
  case (1 n)
  show ?case
  proof (cases "n < 10")
    case True
    then show ?thesis by (subst digits_of.simps) (simp add: decimal_value_def)
  next
    case False
    with "1.IH" have "decimal_value (digits_of (n div 10)) = int (n div 10)" by simp
    with False show ?thesis
      by (subst digits_of.simps) (simp add: decimal_value_snoc zdiv_int zmod_int)
  qed
qed

lemma hd_digits_of: "hd (digits_of n) = 48 \<longleftrightarrow> n = 0"
proof (induction n rule: digits_of.induct)
  case (1 n)
  show ?case
  proof (cases "n < 10")
    case True
    then show ?thesis by (subst digits_of.simps) simp
  next
    case False
    with "1.IH" have "hd (digits_of (n div 10)) \<noteq> 48" by simp
    with False show ?thesis
      by (subst digits_of.simps) (simp add: hd_append digits_of_nonempty)
  qed
qed

lemma whole_part_digits:
  assumes "\<not> is_digit c"
  shows "whole_part (digits_of n @ c # r) = digits_of n"
proof -
  obtain d ds where ds: "digits_of n = d # ds"
    using digits_of_nonempty [of n] by (cases "digits_of n") auto
  have tw: "takeWhile is_digit (digits_of n @ c # r) = digits_of n"
    using assms digits_of_digits [of n] by (simp add: takeWhile_tail)
  show ?thesis
  proof (cases "n = 0")
    case True
    then show ?thesis unfolding whole_part_def by (subst (1 2 3) digits_of.simps) simp
  next
    case False
    then have "d \<noteq> 48" using hd_digits_of [of n] ds by simp
    then show ?thesis using tw ds by (simp add: whole_part_def)
  qed
qed

lemma minus_part_digits: "minus_part (digits_of n @ rest) = []"
proof -
  obtain d ds where ds: "digits_of n = d # ds"
    using digits_of_nonempty [of n] by (cases "digits_of n") auto
  have "is_digit d" using digits_of_digits [of n] ds by simp
  then have "d \<noteq> 45" by (auto simp: is_digit_def)
  then show ?thesis using ds by (simp add: minus_part_def)
qed

lemma parse_unsigned:
  assumes "\<not> is_digit c" "c \<noteq> 46" "c \<noteq> 101" "c \<noteq> 69"
  shows "parse_number (digits_of n @ c # r) = Some (JNum (int n), c # r)"
  using assms digits_of_nonempty [of n]
  by (simp add: parse_number_def minus_part_digits whole_part_digits
      parse_fraction_def parse_exponent_def decimal_value_digits)

lemma parse_negative:
  assumes "\<not> is_digit c" "c \<noteq> 46" "c \<noteq> 101" "c \<noteq> 69"
  shows "parse_number (45 # digits_of n @ c # r) = Some (JNum (- int n), c # r)"
  using assms digits_of_nonempty [of n]
  by (simp add: parse_number_def minus_part_def whole_part_digits
      parse_fraction_def parse_exponent_def decimal_value_digits)

lemma parse_number_text:
  assumes "\<not> is_digit c" "c \<noteq> 46" "c \<noteq> 101" "c \<noteq> 69"
  shows "parse_number (Number_toString i @ c # r) = Some (JNum i, c # r)"
proof (cases "i < 0")
  case True
  then show ?thesis
    using parse_negative [OF assms, of "nat (- i)" r] by (simp add: Number_toString_def)
next
  case False
  then show ?thesis
    using parse_unsigned [OF assms, of "nat i" r] by (simp add: Number_toString_def)
qed

lemma Number_toString_first:
  "\<exists>d ds. Number_toString i = d # ds \<and> (is_digit d \<or> d = 45)"
proof -
  obtain d ds where ds: "digits_of (nat \<bar>i\<bar>) = d # ds"
    using digits_of_nonempty [of "nat \<bar>i\<bar>"] by (cases "digits_of (nat \<bar>i\<bar>)") auto
  then have "is_digit d" using digits_of_digits [of "nat \<bar>i\<bar>"] by simp
  with ds show ?thesis by (cases "i < 0") (auto simp: Number_toString_def)
qed
lemma skip_ws_cons: "\<not> is_json_ws c \<Longrightarrow> skip_ws (c # s) = c # s"
  by (simp add: skip_ws_def)

lemma parse_plain_value:
  assumes "plain_value v" and "c = 44 \<or> c = 125"
  shows "parse_value (Suc n) (JSON_stringify v @ c # r) = Inr (v, c # r)"
proof (cases v)
  case (JStr s)
  then have "latin1 s" using assms(1) by simp
  then show ?thesis using JStr
    by (simp add: QuoteJSONString_def skip_ws_cons is_json_ws_def parse_quoted)
next
  case (JNum i)
  obtain d ds where ds: "Number_toString i = d # ds" and d: "is_digit d \<or> d = 45"
    using Number_toString_first [of i] by blast
  have c: "\<not> is_digit c" "c \<noteq> 46" "c \<noteq> 101" "c \<noteq> 69"
    using assms(2) by (auto simp: is_digit_def)
  have num: "parse_number (d # ds @ c # r) = Some (JNum i, c # r)"
    using parse_number_text [OF c, of i r] ds by simp
  have "\<not> is_json_ws d" "d \<noteq> 34" "d \<noteq> 91" "d \<noteq> 123" "d \<noteq> 116" "d \<noteq> 102" "d \<noteq> 110"
    using d by (auto simp: is_digit_def is_json_ws_def)
  then show ?thesis using JNum ds num
    by (simp add: skip_ws_cons startsWith_def js_def)
next
  case JNull
  then show ?thesis
    by (simp add: skip_ws_cons is_json_ws_def startsWith_def js_def)
next
  case (JBool b)
  then show ?thesis
    by (cases b) (simp_all add: skip_ws_cons is_json_ws_def startsWith_def js_def)
qed (use assms(1) in simp_all)

text \<open>The text that \<open>JSON.stringify\<close> writes for one member of an object.\<close>

lemma member_text_parse:
  assumes "plain_member (k, v)" and "c = 44 \<or> c = 125"
  shows "skip_ws (QuoteJSONString k @ [58] @ JSON_stringify v @ c # r)
           = 34 # quote_units k @ 34 # 58 # JSON_stringify v @ c # r
         \<and> parse_string_body (quote_units k @ 34 # 58 # JSON_stringify v @ c # r)
           = Some (k, 58 # JSON_stringify v @ c # r)
         \<and> parse_value (Suc n) (JSON_stringify v @ c # r) = Inr (v, c # r)"
  using assms parse_plain_value [of v c n r]
  by (simp add: QuoteJSONString_def skip_ws_cons is_json_ws_def parse_quoted plain_member_def)

lemma parse_plain_members:
  "list_all plain_member ms \<Longrightarrow> ms \<noteq> [] \<Longrightarrow> length ms < n \<Longrightarrow>
   parse_members n
     (join [44] (map (\<lambda>(k, v). QuoteJSONString k @ [58] @ JSON_stringify v) ms) @ 125 # r) acc
   = Inr (JObj (acc @ ms), r)"
proof (induction ms arbitrary: n acc)
  case Nil
  then show ?case by simp
next
  case (Cons m ms)
  obtain k v where m: "m = (k, v)" by (cases m)
  from Cons.prems obtain n' where n: "n = Suc (Suc n')" and len: "length ms < Suc n'"
    by (cases n; cases "n - 1") auto
  have pm: "plain_member (k, v)" using Cons.prems(1) m by simp
  show ?case
  proof (cases ms)
    case Nil
    show ?thesis
      using member_text_parse [OF pm, of 125 r n'] m Nil n
      by (simp add: skip_ws_cons is_json_ws_def)
  next
    case (Cons m' ms')
    let ?rest = "join [44] (map (\<lambda>(k, v). QuoteJSONString k @ [58] @ JSON_stringify v) ms) @ 125 # r"
    have ih: "parse_members (Suc n') ?rest (acc @ [(k, v)]) = Inr (JObj ((acc @ [(k, v)]) @ ms), r)"
      using Cons.prems(1) Cons len by (intro Cons.IH) simp_all
    have shape: "join [44] (map (\<lambda>(k, v). QuoteJSONString k @ [58] @ JSON_stringify v) (m # ms)) @ 125 # r
               = QuoteJSONString k @ [58] @ JSON_stringify v @ 44 # ?rest"
      using m Cons by simp
    show ?thesis
      unfolding shape n
      using member_text_parse [OF pm, of 44 ?rest n'] ih m
      by (simp add: skip_ws_cons is_json_ws_def)
  qed
qed

lemma length_join: "\<forall>x\<in>set xs. x \<noteq> [] \<Longrightarrow> length xs \<le> length (join sep xs)"
proof (induction sep xs rule: join.induct)
  case (2 sep x)
  then show ?case by (cases x) simp_all
next
  case (3 sep x y ys)
  then show ?case by (cases x) simp_all
qed simp

lemma parse_value_object:
  "skip_ws b = d # ds \<Longrightarrow> d \<noteq> 125 \<Longrightarrow> parse_value (Suc n) (123 # b) = parse_members n b []"
  by (subst parse_value.simps) (simp add: skip_ws_cons is_json_ws_def del: parse_members.simps)

lemma JSON_parse_plain_object:
  assumes "list_all plain_member ms" and "ms \<noteq> []"
  shows "JSON_parse (JSON_stringify (JObj ms)) = Inr (JObj ms)"
proof -
  let ?f = "\<lambda>(k, v). QuoteJSONString k @ [58] @ JSON_stringify v"
  let ?body = "join [44] (map ?f ms)"
  let ?n = "2 * length (JSON_stringify (JObj ms))"
  have ne: "\<forall>x\<in>set (map ?f ms). x \<noteq> []" by (auto simp: QuoteJSONString_def)
  have shape: "JSON_stringify (JObj ms) = 123 # ?body @ [125]" by simp
  have len: "length ms < ?n"
    using length_join [OF ne, of "[44]"] unfolding shape by simp
  obtain m ms' where ms: "ms = m # ms'" using assms(2) by (cases ms) auto
  obtain k v where m: "m = (k, v)" by (cases m)
  have first: "\<exists>t. ?body @ [125] = 34 # t"
    using ms m by (cases ms') (simp_all add: QuoteJSONString_def)
  then obtain t where t: "?body @ [125] = 34 # t" by blast
  have sk: "skip_ws (?body @ [125]) = 34 # t"
    unfolding t by (simp add: skip_ws_cons is_json_ws_def)
  have members: "parse_members ?n (?body @ [125]) [] = Inr (JObj ms, [])"
    using parse_plain_members [OF assms len, of "[]" "[]"] by simp
  have "parse_value (Suc ?n) (123 # ?body @ [125]) = parse_members ?n (?body @ [125]) []"
    using sk by (rule parse_value_object) simp
  with members have "parse_value (Suc ?n) (JSON_stringify (JObj ms)) = Inr (JObj ms, [])"
    by (simp only: shape)
  then show ?thesis by (simp add: JSON_parse_def skip_ws_def del: JSON_stringify.simps)
qed

section \<open>JSON: the reader always answers\<close>










section \<open>Token codec: verifying what was issued\<close>

lemma split_no_sep: "sep \<notin> set a \<Longrightarrow> split sep a = [a]"
  by (induction a) simp_all

lemma split_append: "sep \<notin> set a \<Longrightarrow> split sep (a @ sep # b) = a # split sep b"
  by (induction a) simp_all

lemma split_token:
  "46 \<notin> set h \<Longrightarrow> 46 \<notin> set p \<Longrightarrow> 46 \<notin> set s \<Longrightarrow>
   split 46 (h @ [46] @ p @ [46] @ s) = [h, p, s]"
  by (simp add: split_append split_no_sep)

lemma latin1_append [simp]: "latin1 (a @ b) \<longleftrightarrow> latin1 a \<and> latin1 b"
  by (simp add: latin1_def)

lemma latin1_Cons [simp]: "latin1 (c # s) \<longleftrightarrow> c < 256 \<and> latin1 s"
  by (simp add: latin1_def)

lemma latin1_Nil [simp]: "latin1 []"
  by (simp add: latin1_def)

lemma latin1_set: "latin1 s \<longleftrightarrow> (\<forall>c\<in>set s. c < 256)"
  by (simp add: latin1_def list_all_iff)

lemma latin1_quote_unit: "c < 256 \<Longrightarrow> latin1 (quote_unit c)"
  by (auto simp: quote_unit_def unicode_escape_def hex_unit_def)

lemma latin1_quote_units: "latin1 s \<Longrightarrow> latin1 (quote_units s)"
  by (induction s) (simp_all add: quote_units_latin1 latin1_quote_unit)

lemma latin1_Number_toString: "latin1 (Number_toString i)"
proof -
  have "\<And>n. latin1 (digits_of n)"
    using digits_of_digits by (fastforce simp: latin1_set is_digit_def)
  then show ?thesis by (simp add: Number_toString_def)
qed

lemma latin1_plain_value: "plain_value v \<Longrightarrow> latin1 (JSON_stringify v)"
  by (cases v) (simp_all add: QuoteJSONString_def latin1_quote_units latin1_Number_toString js_def)

lemma latin1_join: "\<forall>x\<in>set xs. latin1 x \<Longrightarrow> latin1 sep \<Longrightarrow> latin1 (join sep xs)"
  by (induction sep xs rule: join.induct) simp_all

lemma latin1_plain_object: "list_all plain_member ms \<Longrightarrow> latin1 (JSON_stringify (JObj ms))"
proof -
  assume "list_all plain_member ms"
  then have "\<forall>x\<in>set (map (\<lambda>(k, v). QuoteJSONString k @ [58] @ JSON_stringify v) ms). latin1 x"
    by (auto simp: list_all_iff plain_member_def QuoteJSONString_def latin1_quote_units
        latin1_plain_value)
  then have "latin1 (join [44] (map (\<lambda>(k, v). QuoteJSONString k @ [58] @ JSON_stringify v) ms))"
    by (rule latin1_join) simp
  then show ?thesis by simp
qed

lemma latin1_bytes: "latin1 (map unat (bs :: 8 word list))"
proof -
  have "\<And>w :: 8 word. unat w < 256"
  proof -
    fix w :: "8 word"
    have "unat w < 2 ^ LENGTH(8)" by (rule unsigned_less)
    then show "unat w < 256" by simp
  qed
  then show ?thesis by (simp add: latin1_set)
qed

lemma bytes_of_units: "map (word_of_nat \<circ> unat) (bs :: 8 word list) = bs"
  by (simp add: map_idI)

lemma plain_header: "latin1 (JSON_stringify jwt_header)"
  by (rule latin1_plain_object [of "[(js ''alg'', JStr (js ''HS256'')), (js ''typ'', JStr (js ''JWT''))]",
      folded jwt_header_def]) (simp add: plain_member_def js_def)

text \<open>The payload object that \<open>createJWT\<close> signs.\<close>

lemma createJWT_latin1:
  assumes "list_all plain_member payload" and "secret m \<noteq> []"
  shows "createJWT P m clock payload e =
           Inr (part_text (JSON_stringify jwt_header) @ [46] @
                part_text (JSON_stringify (jwt_payload (clock div 1000) payload e)) @ [46] @
                part_text (map unat (hmacSHA256 P (secret m)
                   (part_text (JSON_stringify jwt_header) @ [46] @
                    part_text (JSON_stringify (jwt_payload (clock div 1000) payload e))))))"
proof -
  have "list_all plain_member
          (payload @ [(js ''iat'', JNum (clock div 1000)),
                      (js ''exp'', json_of_number (plus_number (clock div 1000) e))])"
    using assms(1) by (cases e) (simp_all add: plain_member_def js_def)
  then have p: "latin1 (JSON_stringify (jwt_payload (clock div 1000) payload e))"
    unfolding jwt_payload_def by (rule latin1_plain_object)
  show ?thesis
    using assms(2) p plain_header latin1_bytes
    by (simp add: createJWT_def Let_def encode_part_latin1 latin1_set
        del: JSON_stringify.simps)
qed
lemma plain_jwt_payload:
  "list_all plain_member payload \<Longrightarrow>
   list_all plain_member
     (payload @ [(js ''iat'', JNum now), (js ''exp'', json_of_number (plus_number now e))])"
  by (cases e) (simp_all add: plain_member_def js_def)

lemma expired_created:
  "expired P (jwt_payload now payload e) now' =
     Inr (case plus_number now e of Num x \<Rightarrow> x \<noteq> 0 \<and> x < now' | NaN \<Rightarrow> False)"
  by (cases e) (simp_all add: expired_def jwt_payload_def get_prop_def)

lemma verify_created:
  assumes "list_all plain_member payload" and "secret m \<noteq> []"
    and "createJWT P m clock payload e = Inr tok"
  shows "verifyToken P m clock' tok =
           (if (case plus_number (clock div 1000) e of
                  Num x \<Rightarrow> x \<noteq> 0 \<and> x < clock' div 1000 | NaN \<Rightarrow> False)
            then Inl (Error (js ''JWT expired''))
            else Inr (jwt_payload (clock div 1000) payload e))"
proof -
  let ?J = "jwt_payload (clock div 1000) payload e"
  let ?H = "part_text (JSON_stringify jwt_header)"
  let ?B = "part_text (JSON_stringify ?J)"
  let ?sig = "hmacSHA256 P (secret m) (?H @ 46 # ?B)"
  let ?S = "part_text (map unat ?sig)"
  have tok: "tok = ?H @ [46] @ ?B @ [46] @ ?S"
    using createJWT_latin1 [OF assms(1,2), of P clock e] assms(3) by simp
  have plainJ: "list_all plain_member
      (payload @ [(js ''iat'', JNum (clock div 1000)),
                  (js ''exp'', json_of_number (plus_number (clock div 1000) e))])"
    using assms(1) by (rule plain_jwt_payload)
  have lJ: "latin1 (JSON_stringify ?J)"
    unfolding jwt_payload_def using plainJ by (rule latin1_plain_object)
  have parts: "split 46 tok = [?H, ?B, ?S]"
    unfolding tok
    using plain_header lJ latin1_bytes [of ?sig]
    by (intro split_token part_text_no_dot) (simp_all add: latin1_set)
  have dS: "decode_part ?S = Inr (map unat ?sig)"
    using latin1_bytes [of ?sig] by (intro decode_part_text) (simp add: latin1_set)
  have dB: "decode_part ?B = Inr (JSON_stringify ?J)"
    using lJ by (intro decode_part_text) (simp add: latin1_set)
  have pJ: "JSON_parse (JSON_stringify ?J) = Inr ?J"
    unfolding jwt_payload_def using plainJ by (intro JSON_parse_plain_object) simp_all
  show ?thesis
    unfolding verifyToken_def parts
    using assms(2)
    by (simp add: Let_def dS dB pJ bytes_of_units expired_created
        del: JSON_stringify.simps)
qed

lemma plain_access_payload:
  "latin1 userId \<Longrightarrow>
   list_all plain_member [(js ''userId'', JStr userId), (js ''type'', JStr (js ''access''))]"
  by (simp add: plain_member_def js_def)

lemma plain_refresh_payload:
  "latin1 userId \<Longrightarrow>
   list_all plain_member [(js ''userId'', JStr userId), (js ''type'', JStr (js ''refresh''))]"
  by (simp add: plain_member_def js_def)

lemma createJWT_succeeds:
  assumes "list_all plain_member payload" and "secret m \<noteq> []"
  shows "\<exists>tok. createJWT P m clock payload e = Inr tok"
  using createJWT_latin1 [OF assms] by blast

lemma generateTokens_succeeds:
  assumes "latin1 userId" and "secret m \<noteq> []"
  shows "\<exists>a r. generateTokens P m clock userId config =
           Inr \<lparr>accessToken = a, refreshToken = r,
                expiresIn = parseExpiry (or_else (map_option accessTokenExpiry config)
                                          (accessTokenExpiry m))\<rparr>
         \<and> createJWT P m clock [(js ''userId'', JStr userId), (js ''type'', JStr (js ''access''))]
             (parseExpiry (or_else (map_option accessTokenExpiry config) (accessTokenExpiry m)))
           = Inr a
         \<and> createJWT P m clock [(js ''userId'', JStr userId), (js ''type'', JStr (js ''refresh''))]
             (parseExpiry (or_else (map_option refreshTokenExpiry config) (refreshTokenExpiry m)))
           = Inr r"
proof -
  obtain a where a: "createJWT P m clock [(js ''userId'', JStr userId), (js ''type'', JStr (js ''access''))]
             (parseExpiry (or_else (map_option accessTokenExpiry config) (accessTokenExpiry m)))
           = Inr a"
    using createJWT_succeeds [OF plain_access_payload [OF assms(1)] assms(2)] by blast
  obtain r where r: "createJWT P m clock [(js ''userId'', JStr userId), (js ''type'', JStr (js ''refresh''))]
             (parseExpiry (or_else (map_option refreshTokenExpiry config) (refreshTokenExpiry m)))
           = Inr r"
    using createJWT_succeeds [OF plain_refresh_payload [OF assms(1)] assms(2)] by blast
  show ?thesis using a r by (simp add: generateTokens_def Let_def)
qed

lemma payload_userId:
  "get_prop (jwt_payload now [(js ''userId'', JStr userId), (js ''type'', JStr kind)] e) ''userId''
     = Some (JStr userId)"
  by (simp add: get_prop_def jwt_payload_def js_def)

lemma payload_type:
  "get_prop (jwt_payload now [(js ''userId'', JStr userId), (js ''type'', JStr kind)] e) ''type''
     = Some (JStr kind)"
  by (simp add: get_prop_def jwt_payload_def js_def)

lemma created_payload:
  assumes "list_all plain_member payload" and "secret m \<noteq> []"
    and "createJWT P m clock payload e = Inr tok"
  shows "\<exists>h p s. split 46 tok = [h, p, s]
           \<and> decode_part p = Inr (JSON_stringify (jwt_payload (clock div 1000) payload e))
           \<and> JSON_parse (JSON_stringify (jwt_payload (clock div 1000) payload e))
               = Inr (jwt_payload (clock div 1000) payload e)"
proof -
  let ?J = "jwt_payload (clock div 1000) payload e"
  let ?H = "part_text (JSON_stringify jwt_header)"
  let ?B = "part_text (JSON_stringify ?J)"
  let ?sig = "hmacSHA256 P (secret m) (?H @ 46 # ?B)"
  let ?S = "part_text (map unat ?sig)"
  have tok: "tok = ?H @ [46] @ ?B @ [46] @ ?S"
    using createJWT_latin1 [OF assms(1,2), of P clock e] assms(3) by simp
  have plainJ: "list_all plain_member
      (payload @ [(js ''iat'', JNum (clock div 1000)),
                  (js ''exp'', json_of_number (plus_number (clock div 1000) e))])"
    using assms(1) by (rule plain_jwt_payload)
  have lJ: "latin1 (JSON_stringify ?J)"
    unfolding jwt_payload_def using plainJ by (rule latin1_plain_object)
  have parts: "split 46 tok = [?H, ?B, ?S]"
    unfolding tok
    using plain_header lJ latin1_bytes [of ?sig]
    by (intro split_token part_text_no_dot) (simp_all add: latin1_set)
  have dB: "decode_part ?B = Inr (JSON_stringify ?J)"
    using lJ by (intro decode_part_text) (simp add: latin1_set)
  have pJ: "JSON_parse (JSON_stringify ?J) = Inr ?J"
    unfolding jwt_payload_def using plainJ by (intro JSON_parse_plain_object) simp_all
  show ?thesis by (intro exI conjI) (rule parts, rule dB, rule pJ)
qed

lemma created_tokens_differ:
  assumes "list_all plain_member payload" and "secret m \<noteq> []"
    and "createJWT P m clock payload e = Inr tok"
    and "createJWT P m clock' payload e = Inr tok'"
    and "clock div 1000 \<noteq> clock' div 1000"
  shows "tok \<noteq> tok'"
proof
  assume eq: "tok = tok'"
  obtain h p s where a: "split 46 tok = [h, p, s]"
      "decode_part p = Inr (JSON_stringify (jwt_payload (clock div 1000) payload e))"
      "JSON_parse (JSON_stringify (jwt_payload (clock div 1000) payload e))
         = Inr (jwt_payload (clock div 1000) payload e)"
    using created_payload [OF assms(1,2,3)] by blast
  obtain h' p' s' where b: "split 46 tok' = [h', p', s']"
      "decode_part p' = Inr (JSON_stringify (jwt_payload (clock' div 1000) payload e))"
      "JSON_parse (JSON_stringify (jwt_payload (clock' div 1000) payload e))
         = Inr (jwt_payload (clock' div 1000) payload e)"
    using created_payload [OF assms(1,2,4)] by blast
  have "[h, p, s] = [h', p', s']" using eq a(1) b(1) by (simp only:)
  then have "p = p'" by (simp only: list.inject)
  then have "Inr (JSON_stringify (jwt_payload (clock div 1000) payload e))
      = (Inr (JSON_stringify (jwt_payload (clock' div 1000) payload e)) :: error + jsstring)"
    using a(2) b(2) by (simp only:)
  then have "JSON_stringify (jwt_payload (clock div 1000) payload e)
      = JSON_stringify (jwt_payload (clock' div 1000) payload e)" by (simp only: sum.inject)
  then have "Inr (jwt_payload (clock div 1000) payload e)
      = (Inr (jwt_payload (clock' div 1000) payload e) :: error + json)"
    using a(3) b(3) by (simp only:)
  then have "jwt_payload (clock div 1000) payload e = jwt_payload (clock' div 1000) payload e"
    by (simp only: sum.inject)
  then have "clock div 1000 = clock' div 1000" by (simp add: jwt_payload_def)
  with assms(5) show False by simp
qed

lemma createJWT_same_second:
  "clock div 1000 = clock' div 1000 \<Longrightarrow> createJWT P m clock payload e = createJWT P m clock' payload e"
  by (simp add: createJWT_def)

lemma generateTokens_same_second:
  assumes "clock div 1000 = clock' div 1000"
  shows "generateTokens P m clock userId config = generateTokens P m clock' userId config"
proof -
  have eq: "\<And>payload e. createJWT P m clock payload e = createJWT P m clock' payload e"
    using assms by (rule createJWT_same_second)
  show ?thesis unfolding generateTokens_def Let_def eq by (rule refl)
qed

section \<open>Claims about the token codec\<close>

text \<open>
  C1 (as stated) fails: for the subject \<open>[12354]\<close> (one code unit above 255, the letter
  HIRAGANA A) no pair is issued at all: \<open>btoa\<close> rejects the payload text.
\<close>

theorem C1_subject_above_latin1_counterexample:
  "generateTokens sample_platform sample_manager 1700000000123 [12354] None
     = Inl InvalidCharacterError"
  by code_simp

text \<open>
  C1 (amended).  For every subjectId whose code units are all below 256, every non-empty
  secret and every platform, issuing succeeds; and verifying the access token of the pair,
  at any clock reading whose second is not after the token's expiry, succeeds and returns a
  payload with the same \<open>userId\<close> and with \<open>type\<close> equal to \<open>access\<close>.
\<close>

theorem C1_issue_then_verify:
  assumes "latin1 userId" and "secret m \<noteq> []"
    and "case parseExpiry (or_else (map_option accessTokenExpiry config) (accessTokenExpiry m)) of
           Num e \<Rightarrow> clock' div 1000 \<le> clock div 1000 + e
         | NaN \<Rightarrow> True"
  shows "\<exists>tokens payload.
           generateTokens P m clock userId config = Inr tokens
         \<and> verifyToken P m clock' (accessToken tokens) = Inr payload
         \<and> get_prop payload ''userId'' = Some (JStr userId)
         \<and> get_prop payload ''type'' = Some (JStr (js ''access''))"
proof -
  let ?e = "parseExpiry (or_else (map_option accessTokenExpiry config) (accessTokenExpiry m))"
  let ?pl = "[(js ''userId'', JStr userId), (js ''type'', JStr (js ''access''))]"
  obtain a r where gen: "generateTokens P m clock userId config =
        Inr \<lparr>accessToken = a, refreshToken = r, expiresIn = ?e\<rparr>"
    and a: "createJWT P m clock ?pl ?e = Inr a"
    using generateTokens_succeeds [OF assms(1,2), of P clock config] by blast
  have fresh: "\<not> (case plus_number (clock div 1000) ?e of
                    Num x \<Rightarrow> x \<noteq> 0 \<and> x < clock' div 1000 | NaN \<Rightarrow> False)"
    using assms(3) by (cases ?e) simp_all
  have v: "verifyToken P m clock' a = Inr (jwt_payload (clock div 1000) ?pl ?e)"
    using verify_created [OF plain_access_payload [OF assms(1)] assms(2) a, of clock'] fresh
    by simp
  show ?thesis
  proof (intro exI conjI)
    show "generateTokens P m clock userId config =
        Inr \<lparr>accessToken = a, refreshToken = r, expiresIn = ?e\<rparr>" by (rule gen)
    show "verifyToken P m clock'
            (accessToken \<lparr>accessToken = a, refreshToken = r, expiresIn = ?e\<rparr>)
          = Inr (jwt_payload (clock div 1000) ?pl ?e)" using v by simp
    show "get_prop (jwt_payload (clock div 1000) ?pl ?e) ''userId'' = Some (JStr userId)"
      by (rule payload_userId)
    show "get_prop (jwt_payload (clock div 1000) ?pl ?e) ''type'' = Some (JStr (js ''access''))"
      by (rule payload_type)
  qed
qed

theorem C1_issue_then_verify_witness:
  "latin1 (js ''admin'') \<and> secret sample_manager \<noteq> []
   \<and> (case parseExpiry (or_else (map_option accessTokenExpiry None) (accessTokenExpiry sample_manager)) of
         Num e \<Rightarrow> 1700003600999 div 1000 \<le> (1700000000123 :: int) div 1000 + e
       | NaN \<Rightarrow> True)
   \<and> (\<exists>tokens payload.
           generateTokens sample_platform sample_manager 1700000000123 (js ''admin'') None = Inr tokens
         \<and> verifyToken sample_platform sample_manager 1700003600999 (accessToken tokens) = Inr payload
         \<and> get_prop payload ''userId'' = Some (JStr (js ''admin''))
         \<and> get_prop payload ''type'' = Some (JStr (js ''access'')))"
proof -
  have h1: "latin1 (js ''admin'')" by code_simp
  have h2: "secret sample_manager \<noteq> []" by code_simp
  have h3: "case parseExpiry (or_else (map_option accessTokenExpiry None) (accessTokenExpiry sample_manager)) of
         Num e \<Rightarrow> 1700003600999 div 1000 \<le> (1700000000123 :: int) div 1000 + e
       | NaN \<Rightarrow> True" by code_simp
  show ?thesis
    by (intro conjI h1 h2 h3 C1_issue_then_verify [OF h1 h2 h3])
qed





lemma kind_differs: "js ''access'' \<noteq> js ''refresh''"
  by (simp add: js_def)

lemma refresh_wrong_kind:
  "verifyToken P m clock tok = Inr payload \<Longrightarrow>
   get_prop payload ''type'' \<noteq> Some (JStr (js ''refresh'')) \<Longrightarrow>
   refreshTokens P m clock tok = Inl (Error (js ''Invalid refresh token''))"
  by (simp add: refreshTokens_def)

lemma refresh_issued:
  assumes "latin1 userId" and "secret m \<noteq> []"
    and "generateTokens P m clock userId None = Inr t"
    and "case parseExpiry (refreshTokenExpiry m) of
           Num e \<Rightarrow> clock2 div 1000 \<le> clock div 1000 + e | NaN \<Rightarrow> True"
  shows "refreshTokens P m clock2 (refreshToken t) = generateTokens P m clock2 userId None"
proof -
  let ?e = "parseExpiry (refreshTokenExpiry m)"
  let ?pl = "[(js ''userId'', JStr userId), (js ''type'', JStr (js ''refresh''))]"
  obtain a r where gen: "generateTokens P m clock userId None =
        Inr \<lparr>accessToken = a, refreshToken = r, expiresIn = parseExpiry (accessTokenExpiry m)\<rparr>"
    and r: "createJWT P m clock ?pl ?e = Inr r"
    using generateTokens_succeeds [OF assms(1,2), of P clock None] by auto
  have t: "refreshToken t = r" using gen assms(3) by simp
  have fresh: "\<not> (case plus_number (clock div 1000) ?e of
                    Num x \<Rightarrow> x \<noteq> 0 \<and> x < clock2 div 1000 | NaN \<Rightarrow> False)"
    using assms(4) by (cases ?e) simp_all
  have v: "verifyToken P m clock2 r = Inr (jwt_payload (clock div 1000) ?pl ?e)"
    using verify_created [OF plain_refresh_payload [OF assms(1)] assms(2) r, of clock2] fresh
    by simp
  show ?thesis
    unfolding t by (simp add: refreshTokens_def v payload_userId payload_type)
qed

lemma refresh_access_rejected:
  assumes "latin1 userId" and "secret m \<noteq> []"
    and "generateTokens P m clock userId None = Inr t"
    and "case parseExpiry (accessTokenExpiry m) of
           Num e \<Rightarrow> clock2 div 1000 \<le> clock div 1000 + e | NaN \<Rightarrow> True"
  shows "refreshTokens P m clock2 (accessToken t) = Inl (Error (js ''Invalid refresh token''))"
proof -
  let ?e = "parseExpiry (accessTokenExpiry m)"
  let ?pl = "[(js ''userId'', JStr userId), (js ''type'', JStr (js ''access''))]"
  obtain a r where gen: "generateTokens P m clock userId None =
        Inr \<lparr>accessToken = a, refreshToken = r, expiresIn = parseExpiry (accessTokenExpiry m)\<rparr>"
    and a: "createJWT P m clock ?pl ?e = Inr a"
    using generateTokens_succeeds [OF assms(1,2), of P clock None] by auto
  have t: "accessToken t = a" using gen assms(3) by simp
  have fresh: "\<not> (case plus_number (clock div 1000) ?e of
                    Num x \<Rightarrow> x \<noteq> 0 \<and> x < clock2 div 1000 | NaN \<Rightarrow> False)"
    using assms(4) by (cases ?e) simp_all
  have v: "verifyToken P m clock2 a = Inr (jwt_payload (clock div 1000) ?pl ?e)"
    using verify_created [OF plain_access_payload [OF assms(1)] assms(2) a, of clock2] fresh
    by simp
  show ?thesis
    unfolding t
    by (rule refresh_wrong_kind [OF v]) (simp add: payload_type kind_differs)
qed

lemma reissued_differs:
  assumes "latin1 userId" and "secret m \<noteq> []"
    and "generateTokens P m clock userId None = Inr t"
    and "generateTokens P m clock2 userId None = Inr t'"
    and "clock2 div 1000 \<noteq> clock div 1000"
  shows "accessToken t' \<noteq> accessToken t \<and> refreshToken t' \<noteq> refreshToken t"
proof -
  let ?pa = "[(js ''userId'', JStr userId), (js ''type'', JStr (js ''access''))]"
  let ?pr = "[(js ''userId'', JStr userId), (js ''type'', JStr (js ''refresh''))]"
  obtain a r where gen: "generateTokens P m clock userId None =
        Inr \<lparr>accessToken = a, refreshToken = r, expiresIn = parseExpiry (accessTokenExpiry m)\<rparr>"
    and a: "createJWT P m clock ?pa (parseExpiry (accessTokenExpiry m)) = Inr a"
    and r: "createJWT P m clock ?pr (parseExpiry (refreshTokenExpiry m)) = Inr r"
    using generateTokens_succeeds [OF assms(1,2), of P clock None] by auto
  obtain a' r' where gen': "generateTokens P m clock2 userId None =
        Inr \<lparr>accessToken = a', refreshToken = r', expiresIn = parseExpiry (accessTokenExpiry m)\<rparr>"
    and a': "createJWT P m clock2 ?pa (parseExpiry (accessTokenExpiry m)) = Inr a'"
    and r': "createJWT P m clock2 ?pr (parseExpiry (refreshTokenExpiry m)) = Inr r'"
    using generateTokens_succeeds [OF assms(1,2), of P clock2 None] by auto
  have "a' \<noteq> a"
    using created_tokens_differ [OF plain_access_payload [OF assms(1)] assms(2) a' a assms(5)] .
  moreover have "r' \<noteq> r"
    using created_tokens_differ [OF plain_refresh_payload [OF assms(1)] assms(2) r' r assms(5)] .
  ultimately show ?thesis using gen gen' assms(3,4) by simp
qed

text \<open>
  C3 (as stated) fails in its last part: a refresh in the same clock second as the issue
  (here 800 milliseconds later) returns the very pair that was presented, not a new one.
\<close>

theorem C3_same_second_counterexample:
  "isl (generateTokens sample_platform sample_manager 1700000000100 (js ''admin'') None) = False
   \<and> refreshTokens sample_platform sample_manager 1700000000900
        (refreshToken (projr (generateTokens sample_platform sample_manager 1700000000100
                                (js ''admin'') None)))
     = generateTokens sample_platform sample_manager 1700000000100 (js ''admin'') None"
proof -
  have h1: "latin1 (js ''admin'')" by code_simp
  have h2: "secret sample_manager \<noteq> []" by code_simp
  have h3: "case parseExpiry (refreshTokenExpiry sample_manager) of
           Num e \<Rightarrow> 1700000000900 div 1000 \<le> (1700000000100 :: int) div 1000 + e
         | NaN \<Rightarrow> True" by code_simp
  have h4: "(1700000000900 :: int) div 1000 = 1700000000100 div 1000" by simp
  obtain t where t: "generateTokens sample_platform sample_manager 1700000000100 (js ''admin'') None
      = Inr t"
    using generateTokens_succeeds [OF h1 h2, of sample_platform 1700000000100 None] by auto
  have "refreshTokens sample_platform sample_manager 1700000000900 (refreshToken t)
        = generateTokens sample_platform sample_manager 1700000000900 (js ''admin'') None"
    using refresh_issued [OF h1 h2 t h3] .
  also have "\<dots> = generateTokens sample_platform sample_manager 1700000000100 (js ''admin'') None"
    using generateTokens_same_second [OF h4] .
  finally show ?thesis using t by simp
qed

text \<open>
  C3 (amended).  Refreshing accepts only a payload of type \<open>refresh\<close>: a token that does
  not verify is refused with the error of the verification, and whenever the presented
  token verifies with another type, and in particular for the access token of an issued
  pair, it fails with \<open>Invalid refresh token\<close>.  On the unexpired refresh token of
  an issued pair it succeeds, and the result is the pair that \<open>generateTokens\<close> issues for
  the same subject at the time of the refresh: both of its tokens differ from the presented
  pair's when the refresh happens in another clock second than the issue, and it is the
  presented pair itself when it happens in the same second.
\<close>

theorem C3_refresh_kind_and_reissue:
  "(verifyToken P m clock2 tok = Inr payload
      \<and> get_prop payload ''type'' \<noteq> Some (JStr (js ''refresh''))
      \<longrightarrow> refreshTokens P m clock2 tok = Inl (Error (js ''Invalid refresh token'')))
   \<and> (latin1 userId \<and> secret m \<noteq> [] \<and> generateTokens P m clock userId None = Inr t
       \<and> (case parseExpiry (accessTokenExpiry m) of
             Num e \<Rightarrow> clock2 div 1000 \<le> clock div 1000 + e | NaN \<Rightarrow> True)
      \<longrightarrow> refreshTokens P m clock2 (accessToken t) = Inl (Error (js ''Invalid refresh token'')))
   \<and> (latin1 userId \<and> secret m \<noteq> [] \<and> generateTokens P m clock userId None = Inr t
       \<and> (case parseExpiry (refreshTokenExpiry m) of
             Num e \<Rightarrow> clock2 div 1000 \<le> clock div 1000 + e | NaN \<Rightarrow> True)
      \<longrightarrow> (\<exists>t'. refreshTokens P m clock2 (refreshToken t) = Inr t'
               \<and> generateTokens P m clock2 userId None = Inr t'
               \<and> (clock2 div 1000 \<noteq> clock div 1000
                    \<longrightarrow> accessToken t' \<noteq> accessToken t \<and> refreshToken t' \<noteq> refreshToken t)
               \<and> (clock2 div 1000 = clock div 1000 \<longrightarrow> t' = t)))
   \<and> (verifyToken P m clock2 tok = Inl err \<longrightarrow> refreshTokens P m clock2 tok = Inl err)"
proof (intro conjI impI)
  assume "verifyToken P m clock2 tok = Inl err"
  then show "refreshTokens P m clock2 tok = Inl err" by (simp add: refreshTokens_def)
next
  assume "verifyToken P m clock2 tok = Inr payload
      \<and> get_prop payload ''type'' \<noteq> Some (JStr (js ''refresh''))"
  then show "refreshTokens P m clock2 tok = Inl (Error (js ''Invalid refresh token''))"
    using refresh_wrong_kind by blast
next
  assume h: "latin1 userId \<and> secret m \<noteq> [] \<and> generateTokens P m clock userId None = Inr t
       \<and> (case parseExpiry (accessTokenExpiry m) of
             Num e \<Rightarrow> clock2 div 1000 \<le> clock div 1000 + e | NaN \<Rightarrow> True)"
  show "refreshTokens P m clock2 (accessToken t) = Inl (Error (js ''Invalid refresh token''))"
    using h by (intro refresh_access_rejected [of userId m P clock t clock2]) simp_all
next
  assume h: "latin1 userId \<and> secret m \<noteq> [] \<and> generateTokens P m clock userId None = Inr t
       \<and> (case parseExpiry (refreshTokenExpiry m) of
             Num e \<Rightarrow> clock2 div 1000 \<le> clock div 1000 + e | NaN \<Rightarrow> True)"
  then have l: "latin1 userId" and s: "secret m \<noteq> []"
    and gen: "generateTokens P m clock userId None = Inr t"
    and fresh: "case parseExpiry (refreshTokenExpiry m) of
             Num e \<Rightarrow> clock2 div 1000 \<le> clock div 1000 + e | NaN \<Rightarrow> True"
    by simp_all
  obtain t' where gen': "generateTokens P m clock2 userId None = Inr t'"
    using generateTokens_succeeds [OF l s, of P clock2 None] by auto
  have re: "refreshTokens P m clock2 (refreshToken t) = Inr t'"
    using refresh_issued [OF l s gen fresh] gen' by simp
  have diff: "clock2 div 1000 \<noteq> clock div 1000
        \<Longrightarrow> accessToken t' \<noteq> accessToken t \<and> refreshToken t' \<noteq> refreshToken t"
    using reissued_differs [OF l s gen gen'] .
  have same: "clock2 div 1000 = clock div 1000 \<Longrightarrow> t' = t"
    using generateTokens_same_second [of clock2 clock P m userId None] gen gen' by simp
  show "\<exists>t'. refreshTokens P m clock2 (refreshToken t) = Inr t'
               \<and> generateTokens P m clock2 userId None = Inr t'
               \<and> (clock2 div 1000 \<noteq> clock div 1000
                    \<longrightarrow> accessToken t' \<noteq> accessToken t \<and> refreshToken t' \<noteq> refreshToken t)
               \<and> (clock2 div 1000 = clock div 1000 \<longrightarrow> t' = t)"
    using re gen' diff same by blast
qed

theorem C3_refresh_kind_and_reissue_witness:
  "verifyToken sample_platform sample_manager 1700000100000 (js ''a.b'')
     = Inl (Error (js ''Invalid JWT format''))
   \<and> refreshTokens sample_platform sample_manager 1700000100000 (js ''a.b'')
     = Inl (Error (js ''Invalid JWT format''))
   \<and> latin1 (js ''admin'') \<and> secret sample_manager \<noteq> []
   \<and> generateTokens sample_platform sample_manager 1700000000100 (js ''admin'') None
       = Inr (projr (generateTokens sample_platform sample_manager 1700000000100 (js ''admin'') None))
   \<and> (case parseExpiry (accessTokenExpiry sample_manager) of
         Num e \<Rightarrow> 1700000100000 div 1000 \<le> (1700000000100 :: int) div 1000 + e | NaN \<Rightarrow> True)
   \<and> (case parseExpiry (refreshTokenExpiry sample_manager) of
         Num e \<Rightarrow> 1700000100000 div 1000 \<le> (1700000000100 :: int) div 1000 + e | NaN \<Rightarrow> True)
   \<and> refreshTokens sample_platform sample_manager 1700000100000
        (accessToken (projr (generateTokens sample_platform sample_manager 1700000000100
                               (js ''admin'') None)))
       = Inl (Error (js ''Invalid refresh token''))
   \<and> (\<exists>t'. refreshTokens sample_platform sample_manager 1700000100000
               (refreshToken (projr (generateTokens sample_platform sample_manager 1700000000100
                                       (js ''admin'') None))) = Inr t'
            \<and> generateTokens sample_platform sample_manager 1700000100000 (js ''admin'') None = Inr t'
            \<and> accessToken t' \<noteq> accessToken (projr (generateTokens sample_platform sample_manager
                                                      1700000000100 (js ''admin'') None))
            \<and> refreshToken t' \<noteq> refreshToken (projr (generateTokens sample_platform sample_manager
                                                        1700000000100 (js ''admin'') None)))"
proof -
  let ?T = "projr (generateTokens sample_platform sample_manager 1700000000100 (js ''admin'') None)"
  have h1: "latin1 (js ''admin'')" by code_simp
  have h2: "secret sample_manager \<noteq> []" by code_simp
  have h3: "generateTokens sample_platform sample_manager 1700000000100 (js ''admin'') None = Inr ?T"
    using generateTokens_succeeds [OF h1 h2, of sample_platform 1700000000100 None] by auto
  have h4: "case parseExpiry (accessTokenExpiry sample_manager) of
         Num e \<Rightarrow> 1700000100000 div 1000 \<le> (1700000000100 :: int) div 1000 + e | NaN \<Rightarrow> True"
    by code_simp
  have h5: "case parseExpiry (refreshTokenExpiry sample_manager) of
         Num e \<Rightarrow> 1700000100000 div 1000 \<le> (1700000000100 :: int) div 1000 + e | NaN \<Rightarrow> True"
    by code_simp
  have h6: "(1700000100000 :: int) div 1000 \<noteq> 1700000000100 div 1000" by simp
  note inst = C3_refresh_kind_and_reissue
    [of sample_platform sample_manager 1700000100000 _ _ "js ''admin''" 1700000000100 ?T]
  have c1: "refreshTokens sample_platform sample_manager 1700000100000 (accessToken ?T)
       = Inl (Error (js ''Invalid refresh token''))"
    using inst h1 h2 h3 h4 by blast
  have c2: "\<exists>t'. refreshTokens sample_platform sample_manager 1700000100000 (refreshToken ?T) = Inr t'
            \<and> generateTokens sample_platform sample_manager 1700000100000 (js ''admin'') None = Inr t'
            \<and> accessToken t' \<noteq> accessToken ?T \<and> refreshToken t' \<noteq> refreshToken ?T"
    using inst h1 h2 h3 h5 h6 by blast
  have h0: "verifyToken sample_platform sample_manager 1700000100000 (js ''a.b'')
              = Inl (Error (js ''Invalid JWT format''))" by code_simp
  have c0: "refreshTokens sample_platform sample_manager 1700000100000 (js ''a.b'')
              = Inl (Error (js ''Invalid JWT format''))"
    using C3_refresh_kind_and_reissue
      [of sample_platform sample_manager 1700000100000 "js ''a.b''" _ _ _ _
          "Error (js ''Invalid JWT format'')"] h0 by blast
  show ?thesis by (intro conjI h0 c0 h1 h2 h3 h4 h5 c1 c2)
qed

section \<open>Claims about the auth gateway\<close>

lemma validatePassword_unconfigured: "\<not> truthy (ADMIN_PASSWORD e) \<Longrightarrow> validatePassword r e = False"
  by (cases "ADMIN_PASSWORD e") (simp_all add: validatePassword_def)

text \<open>
  C9 (as stated) fails: with no admin password configured, a request that presents the
  cookie of a stored admin session is authenticated; it does not get the 500 response.
\<close>

theorem C9_cookie_session_counterexample:
  "requireAuth sample_platform 0
     \<lparr>req_method = js ''GET'', req_headers = [js ''cookie'' \<mapsto> js ''adminSession=abc123'']\<rparr>
     \<lparr>ADMIN_PASSWORD = None, ENVIRONMENT = None,
      SESSIONS = Some [js ''abc123'' \<mapsto>
         JSON_stringify (JObj [(js ''isAdmin'', JBool True), (js ''createdAt'', JNum 1700000000000),
                               (js ''ip'', JStr (js ''203.0.113.7''))])],
      JWT_SECRET = None, ACCESS_TOKEN_EXPIRY = None, REFRESH_TOKEN_EXPIRY = None\<rparr>
   = None"
  by code_simp

text \<open>
  C9 (amended).  When no admin password is configured (absent or empty), the gateway still
  tries the bearer token and the session cookie first and authenticates the request if
  either succeeds; every request that fails both gets the 500 misconfiguration response,
  and no request gets the 401 authentication-required response.
\<close>

theorem C9_unconfigured_password:
  "\<not> truthy (ADMIN_PASSWORD e) \<longrightarrow>
     requireAuth P clock r e =
       (if bearer_accepted P clock r e \<or> checkCookieAuth r e then None
        else Some not_configured_response)
     \<and> status not_configured_response = 500
     \<and> status authentication_required_response = 401
     \<and> requireAuth P clock r e \<noteq> Some authentication_required_response"
proof
  assume h: "\<not> truthy (ADMIN_PASSWORD e)"
  have st: "status not_configured_response = 500" "status authentication_required_response = 401"
    by (simp_all add: not_configured_response_def authentication_required_response_def
        json_response_def del: JSON_stringify.simps)
  then have ne: "not_configured_response \<noteq> authentication_required_response" by auto
  have eq: "requireAuth P clock r e =
       (if bearer_accepted P clock r e \<or> checkCookieAuth r e then None
        else Some not_configured_response)"
    using h validatePassword_unconfigured [OF h, of r] by (simp add: requireAuth_def)
  show "requireAuth P clock r e =
       (if bearer_accepted P clock r e \<or> checkCookieAuth r e then None
        else Some not_configured_response)
     \<and> status not_configured_response = 500
     \<and> status authentication_required_response = 401
     \<and> requireAuth P clock r e \<noteq> Some authentication_required_response"
    using eq st ne by simp
qed

theorem C9_unconfigured_password_witness:
  "\<not> truthy (ADMIN_PASSWORD
       \<lparr>ADMIN_PASSWORD = None, ENVIRONMENT = None, SESSIONS = None,
        JWT_SECRET = None, ACCESS_TOKEN_EXPIRY = None, REFRESH_TOKEN_EXPIRY = None\<rparr>)
   \<and> requireAuth sample_platform 0
        \<lparr>req_method = js ''DELETE'', req_headers = [js ''x-admin-api-key'' \<mapsto> js ''guess'']\<rparr>
        \<lparr>ADMIN_PASSWORD = None, ENVIRONMENT = None, SESSIONS = None,
         JWT_SECRET = None, ACCESS_TOKEN_EXPIRY = None, REFRESH_TOKEN_EXPIRY = None\<rparr>
       = Some not_configured_response
   \<and> status not_configured_response = 500"
proof -
  let ?e = "\<lparr>ADMIN_PASSWORD = None, ENVIRONMENT = None, SESSIONS = None,
        JWT_SECRET = None, ACCESS_TOKEN_EXPIRY = None, REFRESH_TOKEN_EXPIRY = None\<rparr>"
  let ?r = "\<lparr>req_method = js ''DELETE'', req_headers = [js ''x-admin-api-key'' \<mapsto> js ''guess'']\<rparr>"
  have h: "\<not> truthy (ADMIN_PASSWORD ?e)" by simp
  have b: "\<not> bearer_accepted sample_platform 0 ?r ?e" by code_simp
  have c: "\<not> checkCookieAuth ?r ?e" by (simp add: checkCookieAuth_def)
  show ?thesis
    using C9_unconfigured_password [of ?e sample_platform 0 ?r] h b c by simp
qed

section \<open>Claims about the sanitizer and the validator\<close>

text \<open>
  C5.  The two payloads of the specification.  The markup
  \<open><img src=x onerror="alert(1)">\<close> is sanitized to \<open><img src=x >\<close>, which contains
  neither \<open>onerror\<close> nor \<open>alert(1)\<close>.  The create payload with the markup
  \<open><script>x</script><div>Btn</div>\<close> passes validation, and the returned markup is
  \<open><div>Btn</div>\<close>, which does not contain \<open><script\<close>.
\<close>

theorem C5_known_payloads:
  "sanitizeHTML (js ''<img src=x onerror='' @ [34] @ js ''alert(1)'' @ [34] @ js ''>'')
     = js ''<img src=x >''
   \<and> \<not> includes_str
         (sanitizeHTML (js ''<img src=x onerror='' @ [34] @ js ''alert(1)'' @ [34] @ js ''>''))
         (js ''onerror'')
   \<and> \<not> includes_str
         (sanitizeHTML (js ''<img src=x onerror='' @ [34] @ js ''alert(1)'' @ [34] @ js ''>''))
         (js ''alert(1)'')
   \<and> map_sum (\<lambda>details. ()) (\<lambda>r. c_html (s_data r))
        (validateAndSanitizeComponent
           (JObj [(js ''name'', JStr (js ''Btn'')), (js ''category'', JStr (js ''UI'')),
                  (js ''html'', JStr (js ''<script>x</script><div>Btn</div>'')),
                  (js ''css'', JStr []), (js ''js'', JStr []),
                  (js ''tags'', JArr [JStr (js ''ui'')])]))
     = Inr (js ''<div>Btn</div>'')
   \<and> \<not> includes_str (js ''<div>Btn</div>'') (js ''<script'')"
  by code_simp

section \<open>The schemas of the source meet the contract\<close>

lemma z_string_iff:
  "z_string (Some (lo, m1)) (Some (hi, m2)) path v = Inr s \<longleftrightarrow> spec_string lo hi v s"
proof (cases v)
  case None
  then show ?thesis by (simp add: z_string_def spec_string_def)
next
  case (Some x)
  then show ?thesis
    by (cases x) (auto simp: z_string_def spec_string_def Let_def)
qed

lemma z_string_max_iff:
  "z_string None (Some (hi, m2)) path v = Inr s \<longleftrightarrow> spec_string 0 hi v s"
proof (cases v)
  case None
  then show ?thesis by (simp add: z_string_def spec_string_def)
next
  case (Some x)
  then show ?thesis
    by (cases x) (auto simp: z_string_def spec_string_def Let_def)
qed

lemma name_schema_iff: "name_schema v = Inr s \<longleftrightarrow> spec_string 1 100 v s"
  by (simp add: name_schema_def z_string_iff)

lemma defaulted_iff:
  assumes "length d \<le> hi"
  shows "z_default (JStr d) (z_string None (Some (hi, m)) path) v = Inr s
         \<longleftrightarrow> spec_defaulted hi d v s"
proof (cases v)
  case None
  then show ?thesis using assms
    by (auto simp: z_default_def spec_defaulted_def z_string_max_iff spec_string_def)
next
  case (Some x)
  then show ?thesis
    by (simp add: z_default_def spec_defaulted_def z_string_max_iff)
qed

lemma category_schema_iff: "category_schema v = Inr s \<longleftrightarrow> spec_defaulted 50 (js ''Other'') v s"
  unfolding category_schema_def by (rule defaulted_iff) (simp add: js_def)

lemma html_schema_iff: "html_schema v = Inr s \<longleftrightarrow> spec_defaulted 50000 [] v s"
  unfolding html_schema_def by (rule defaulted_iff) simp

lemma css_schema_iff: "css_schema v = Inr s \<longleftrightarrow> spec_defaulted 50000 [] v s"
  unfolding css_schema_def by (rule defaulted_iff) simp

lemma js_schema_iff: "js_schema v = Inr s \<longleftrightarrow> spec_defaulted 50000 [] v s"
  unfolding js_schema_def by (rule defaulted_iff) simp

lemma strings_iff:
  "(list_all (\<lambda>x. string_of x \<noteq> None) xs
      \<and> map (\<lambda>x. case string_of x of Some s \<Rightarrow> s | None \<Rightarrow> []) xs = t)
   \<longleftrightarrow> xs = map JStr t"
proof (induction xs arbitrary: t)
  case Nil
  then show ?case by auto
next
  case (Cons x xs)
  show ?case
  proof (cases x)
    case (JStr s)
    then show ?thesis using Cons.IH [of "tl t"] by (cases t) auto
  qed (cases t; simp)+
qed

lemma tags_schema_iff: "tags_schema v = Inr t \<longleftrightarrow> spec_tags v t"
proof (cases v)
  case None
  then show ?thesis
    by (auto simp: tags_schema_def z_default_def z_tags_def spec_tags_def)
next
  case (Some x)
  show ?thesis
  proof (cases x)
    case (JArr xs)
    then show ?thesis using Some strings_iff [of xs t]
      by (auto simp: tags_schema_def z_default_def z_tags_def spec_tags_def)
  qed (use Some in \<open>auto simp: tags_schema_def z_default_def z_tags_def spec_tags_def\<close>)
qed

lemma z_optional_iff:
  assumes "\<And>s. parse v = Inr s \<longleftrightarrow> constraint v s"
  shows "z_optional parse v = Inr r \<longleftrightarrow> spec_optional constraint v r"
proof (cases v)
  case None
  then show ?thesis by (auto simp: z_optional_def spec_optional_def)
next
  case (Some x)
  have "z_optional parse v = Inr r \<longleftrightarrow> (\<exists>a. parse v = Inr a \<and> r = Some a)"
    using Some by (auto simp: z_optional_def split: sum.splits)
  also have "\<dots> \<longleftrightarrow> (\<exists>a. constraint v a \<and> r = Some a)"
    by (simp add: assms)
  also have "\<dots> \<longleftrightarrow> spec_optional constraint v r"
    using Some by (cases r) (auto simp: spec_optional_def)
  finally show ?thesis .
qed

lemma absent_is_valid:
  "spec_defaulted hi d (Some x) s \<longleftrightarrow> spec_string 0 hi (Some x) s"
  by (simp add: spec_defaulted_def)

lemma six_results:
  "(case (rn, rc, rh, rs, rj, rt) of
      (Inr n, Inr c, Inr h, Inr s, Inr j, Inr t) \<Rightarrow> Inr (mk n c h s j t)
    | (rn, rc, rh, rs, rj, rt) \<Rightarrow> Inl (other rn rc rh rs rj rt)) = Inr res
   \<longleftrightarrow> (\<exists>n c h s j t. rn = Inr n \<and> rc = Inr c \<and> rh = Inr h \<and> rs = Inr s \<and> rj = Inr j
          \<and> rt = Inr t \<and> res = mk n c h s j t)"
  by (cases rn; cases rc; cases rh; cases rs; cases rj; cases rt) auto

lemma ComponentSchema_iff: "ComponentSchema d = Inr c \<longleftrightarrow> spec_create d c"
proof (cases d)
  case (JObj ms)
  have "ComponentSchema d = Inr c \<longleftrightarrow>
        (\<exists>n g h s j t. name_schema (get_prop d ''name'') = Inr n
           \<and> category_schema (get_prop d ''category'') = Inr g
           \<and> html_schema (get_prop d ''html'') = Inr h
           \<and> css_schema (get_prop d ''css'') = Inr s
           \<and> js_schema (get_prop d ''js'') = Inr j
           \<and> tags_schema (get_prop d ''tags'') = Inr t
           \<and> c = \<lparr>c_name = n, c_category = g, c_html = h, c_css = s, c_js = j, c_tags = t\<rparr>)"
    unfolding ComponentSchema_def JObj json.case
    by (subst six_results) (simp only: JObj [symmetric])
  also have "\<dots> \<longleftrightarrow> spec_create d c"
    unfolding name_schema_iff category_schema_iff html_schema_iff css_schema_iff js_schema_iff
      tags_schema_iff spec_create_def
    using JObj by (cases c) (auto simp: is_object_def)
  finally show ?thesis .
qed (simp_all add: ComponentSchema_def spec_create_def is_object_def)

lemma optional_defaulted_iff:
  assumes "\<And>s. parse v = Inr s \<longleftrightarrow> spec_defaulted hi d v s"
  shows "z_optional parse v = Inr r \<longleftrightarrow> spec_optional (spec_string 0 hi) v r"
proof (cases v)
  case None
  then show ?thesis by (auto simp: z_optional_def spec_optional_def)
next
  case (Some x)
  have "\<And>s. parse v = Inr s \<longleftrightarrow> spec_string 0 hi v s"
    using assms Some by (simp add: spec_defaulted_def)
  then show ?thesis by (rule z_optional_iff)
qed

lemma UpdateComponentSchema_iff: "UpdateComponentSchema d = Inr u \<longleftrightarrow> spec_update d u"
proof (cases d)
  case (JObj ms)
  let ?rn = "z_optional name_schema (get_prop d ''name'')"
  let ?rc = "z_optional category_schema (get_prop d ''category'')"
  let ?rh = "z_optional html_schema (get_prop d ''html'')"
  let ?rs = "z_optional css_schema (get_prop d ''css'')"
  let ?rj = "z_optional js_schema (get_prop d ''js'')"
  let ?rt = "z_optional tags_schema (get_prop d ''tags'')"
  have n: "\<And>r. ?rn = Inr r \<longleftrightarrow> spec_optional (spec_string 1 100) (get_prop d ''name'') r"
    by (rule z_optional_iff) (rule name_schema_iff)
  have c: "\<And>r. ?rc = Inr r \<longleftrightarrow> spec_optional (spec_string 0 50) (get_prop d ''category'') r"
    by (rule optional_defaulted_iff) (rule category_schema_iff)
  have h: "\<And>r. ?rh = Inr r \<longleftrightarrow> spec_optional (spec_string 0 50000) (get_prop d ''html'') r"
    by (rule optional_defaulted_iff) (rule html_schema_iff)
  have s: "\<And>r. ?rs = Inr r \<longleftrightarrow> spec_optional (spec_string 0 50000) (get_prop d ''css'') r"
    by (rule optional_defaulted_iff) (rule css_schema_iff)
  have j: "\<And>r. ?rj = Inr r \<longleftrightarrow> spec_optional (spec_string 0 50000) (get_prop d ''js'') r"
    by (rule optional_defaulted_iff) (rule js_schema_iff)
  have t: "\<And>r. ?rt = Inr r \<longleftrightarrow> spec_optional spec_tags (get_prop d ''tags'') r"
    by (rule z_optional_iff) (rule tags_schema_iff)
  have absent: "\<And>constraint given r. spec_optional constraint given r \<Longrightarrow> (r = None \<longleftrightarrow> given = None)"
    by (auto simp: spec_optional_def split: option.splits)
  have "UpdateComponentSchema d = Inr u \<longleftrightarrow>
        (\<exists>rn rc rh rs rj rt. ?rn = Inr rn \<and> ?rc = Inr rc \<and> ?rh = Inr rh \<and> ?rs = Inr rs
           \<and> ?rj = Inr rj \<and> ?rt = Inr rt
           \<and> \<not> (rn = None \<and> rc = None \<and> rh = None \<and> rs = None \<and> rj = None \<and> rt = None)
           \<and> u = \<lparr>u_name = rn, u_category = rc, u_html = rh, u_css = rs, u_js = rj, u_tags = rt\<rparr>)"
    unfolding UpdateComponentSchema_def JObj json.case
    by (cases ?rn; cases ?rc; cases ?rh; cases ?rs; cases ?rj; cases ?rt)
       (simp_all only: JObj [symmetric] prod.case sum.case, auto)
  also have "\<dots> \<longleftrightarrow> spec_update d u"
  proof
    assume "\<exists>rn rc rh rs rj rt. ?rn = Inr rn \<and> ?rc = Inr rc \<and> ?rh = Inr rh \<and> ?rs = Inr rs
           \<and> ?rj = Inr rj \<and> ?rt = Inr rt
           \<and> \<not> (rn = None \<and> rc = None \<and> rh = None \<and> rs = None \<and> rj = None \<and> rt = None)
           \<and> u = \<lparr>u_name = rn, u_category = rc, u_html = rh, u_css = rs, u_js = rj, u_tags = rt\<rparr>"
    then obtain rn rc rh rs rj rt where
      r: "?rn = Inr rn" "?rc = Inr rc" "?rh = Inr rh" "?rs = Inr rs" "?rj = Inr rj" "?rt = Inr rt"
      and some: "\<not> (rn = None \<and> rc = None \<and> rh = None \<and> rs = None \<and> rj = None \<and> rt = None)"
      and u: "u = \<lparr>u_name = rn, u_category = rc, u_html = rh, u_css = rs, u_js = rj, u_tags = rt\<rparr>"
      by blast
    note o = r(1) [unfolded n] r(2) [unfolded c] r(3) [unfolded h] r(4) [unfolded s]
      r(5) [unfolded j] r(6) [unfolded t]
    have "some_field_present d"
      unfolding some_field_present_def
      using some absent [OF o(1)] absent [OF o(2)] absent [OF o(3)] absent [OF o(4)]
        absent [OF o(5)] absent [OF o(6)] by simp
    then show "spec_update d u"
      unfolding spec_update_def using o u JObj by (simp add: is_object_def)
  next
    assume "spec_update d u"
    then have o: "spec_optional (spec_string 1 100) (get_prop d ''name'') (u_name u)"
        "spec_optional (spec_string 0 50) (get_prop d ''category'') (u_category u)"
        "spec_optional (spec_string 0 50000) (get_prop d ''html'') (u_html u)"
        "spec_optional (spec_string 0 50000) (get_prop d ''css'') (u_css u)"
        "spec_optional (spec_string 0 50000) (get_prop d ''js'') (u_js u)"
        "spec_optional spec_tags (get_prop d ''tags'') (u_tags u)"
      and some: "some_field_present d"
      by (simp_all add: spec_update_def)
    have "\<not> (u_name u = None \<and> u_category u = None \<and> u_html u = None \<and> u_css u = None
             \<and> u_js u = None \<and> u_tags u = None)"
      using some [unfolded some_field_present_def]
        absent [OF o(1)] absent [OF o(2)] absent [OF o(3)] absent [OF o(4)]
        absent [OF o(5)] absent [OF o(6)] by simp
    moreover have "u = \<lparr>u_name = u_name u, u_category = u_category u, u_html = u_html u,
                          u_css = u_css u, u_js = u_js u, u_tags = u_tags u\<rparr>"
      by simp
    ultimately show "\<exists>rn rc rh rs rj rt. ?rn = Inr rn \<and> ?rc = Inr rc \<and> ?rh = Inr rh \<and> ?rs = Inr rs
           \<and> ?rj = Inr rj \<and> ?rt = Inr rt
           \<and> \<not> (rn = None \<and> rc = None \<and> rh = None \<and> rs = None \<and> rj = None \<and> rt = None)
           \<and> u = \<lparr>u_name = rn, u_category = rc, u_html = rh, u_css = rs, u_js = rj, u_tags = rt\<rparr>"
      using o [folded n c h s j t] by blast
  qed
  finally show ?thesis .
qed (simp_all add: UpdateComponentSchema_def spec_update_def is_object_def)

lemma update_without_fields:
  assumes "is_object d" and "\<not> some_field_present d"
  shows "validateAndSanitizeUpdate d =
           Inl [\<lparr>issue_field = [], issue_message = js ''At least one field must be provided for update''\<rparr>]"
proof -
  obtain ms where d: "d = JObj ms" using assms(1) by (cases d) (simp_all add: is_object_def)
  have "get_prop d ''name'' = None" "get_prop d ''category'' = None" "get_prop d ''html'' = None"
    "get_prop d ''css'' = None" "get_prop d ''js'' = None" "get_prop d ''tags'' = None"
    using assms(2) by (simp_all add: some_field_present_def)
  then show ?thesis
    unfolding validateAndSanitizeUpdate_def UpdateComponentSchema_def d json.case
    by (simp only: d [symmetric]) (simp add: z_optional_def)
qed

lemma create_accepts_iff:
  "(\<exists>r. validateAndSanitizeComponent d = Inr r) \<longleftrightarrow> (\<exists>c. ComponentSchema d = Inr c)"
  by (cases "ComponentSchema d") (simp_all add: validateAndSanitizeComponent_def Let_def)

lemma update_accepts_iff:
  "(\<exists>r. validateAndSanitizeUpdate d = Inr r) \<longleftrightarrow> (\<exists>u. UpdateComponentSchema d = Inr u)"
  by (cases "UpdateComponentSchema d") (simp_all add: validateAndSanitizeUpdate_def)

text \<open>
  C8.  The create schema accepts a payload, with the validated value \<open>c\<close>, exactly when the
  payload is an object that meets the contract of the specification (\<open>spec_create\<close>: name of
  1 to 100 characters; category of at most 50, default Other; html, css and js of at most
  50000, default empty; tags a comma-separated string or an array of strings, default
  empty), and the create path succeeds exactly for these payloads.  The update schema accepts
  exactly the objects whose present fields meet the same constraints and that have at least
  one of the six fields (\<open>spec_update\<close>); an object with none of them, the empty object among
  them, fails validation.
\<close>

theorem C8_schema_contract:
  "(ComponentSchema d = Inr c \<longleftrightarrow> spec_create d c)
   \<and> ((\<exists>r. validateAndSanitizeComponent d = Inr r) \<longleftrightarrow> (\<exists>c. spec_create d c))
   \<and> (UpdateComponentSchema d = Inr u \<longleftrightarrow> spec_update d u)
   \<and> ((\<exists>r. validateAndSanitizeUpdate d = Inr r) \<longleftrightarrow> (\<exists>u. spec_update d u))
   \<and> (is_object d \<and> \<not> some_field_present d \<longrightarrow>
        validateAndSanitizeUpdate d =
          Inl [\<lparr>issue_field = [],
                issue_message = js ''At least one field must be provided for update''\<rparr>])
   \<and> validateAndSanitizeUpdate (JObj []) =
        Inl [\<lparr>issue_field = [],
              issue_message = js ''At least one field must be provided for update''\<rparr>]"
proof (intro conjI impI)
  show "ComponentSchema d = Inr c \<longleftrightarrow> spec_create d c" by (rule ComponentSchema_iff)
  show "(\<exists>r. validateAndSanitizeComponent d = Inr r) \<longleftrightarrow> (\<exists>c. spec_create d c)"
    by (simp add: create_accepts_iff ComponentSchema_iff)
  show "UpdateComponentSchema d = Inr u \<longleftrightarrow> spec_update d u" by (rule UpdateComponentSchema_iff)
  show "(\<exists>r. validateAndSanitizeUpdate d = Inr r) \<longleftrightarrow> (\<exists>u. spec_update d u)"
    by (simp add: update_accepts_iff UpdateComponentSchema_iff)
  show "validateAndSanitizeUpdate (JObj []) =
        Inl [\<lparr>issue_field = [],
              issue_message = js ''At least one field must be provided for update''\<rparr>]"
    by (rule update_without_fields) (simp_all add: is_object_def some_field_present_def get_prop_def)
next
  assume "is_object d \<and> \<not> some_field_present d"
  then show "validateAndSanitizeUpdate d =
          Inl [\<lparr>issue_field = [],
                issue_message = js ''At least one field must be provided for update''\<rparr>]"
    using update_without_fields by blast
qed

theorem C8_schema_contract_witness:
  "spec_create (JObj [(js ''name'', JStr (js ''Btn'')), (js ''tags'', JStr (js ''a, b,,c ''))])
     \<lparr>c_name = js ''Btn'', c_category = js ''Other'', c_html = [], c_css = [], c_js = [],
      c_tags = [js ''a'', js ''b'', js ''c'']\<rparr>
   \<and> ComponentSchema (JObj [(js ''name'', JStr (js ''Btn'')), (js ''tags'', JStr (js ''a, b,,c ''))])
       = Inr \<lparr>c_name = js ''Btn'', c_category = js ''Other'', c_html = [], c_css = [], c_js = [],
              c_tags = [js ''a'', js ''b'', js ''c'']\<rparr>
   \<and> is_object (JObj [(js ''id'', JNum 7)]) \<and> \<not> some_field_present (JObj [(js ''id'', JNum 7)])
   \<and> validateAndSanitizeUpdate (JObj [(js ''id'', JNum 7)]) =
        Inl [\<lparr>issue_field = [],
              issue_message = js ''At least one field must be provided for update''\<rparr>]"
proof -
  let ?d = "JObj [(js ''name'', JStr (js ''Btn'')), (js ''tags'', JStr (js ''a, b,,c ''))]"
  let ?c = "\<lparr>c_name = js ''Btn'', c_category = js ''Other'', c_html = [], c_css = [], c_js = [],
      c_tags = [js ''a'', js ''b'', js ''c'']\<rparr>"
  let ?e = "JObj [(js ''id'', JNum 7)]"
  have h1: "spec_create ?d ?c" by code_simp
  have h2: "is_object ?e" by code_simp
  have h3: "\<not> some_field_present ?e" by code_simp
  have c1: "ComponentSchema ?d = Inr ?c"
    using C8_schema_contract [of ?d ?c] h1 by blast
  have c2: "validateAndSanitizeUpdate ?e =
        Inl [\<lparr>issue_field = [],
              issue_message = js ''At least one field must be provided for update''\<rparr>]"
    using C8_schema_contract [of ?e] h2 h3 by blast
  show ?thesis by (intro conjI h1 h2 h3 c1 c2)
qed

lemma strip_angle_free: "60 \<notin> set (strip_angle s) \<and> 62 \<notin> set (strip_angle s)"
  by (simp add: strip_angle_def)

lemma strip_angle_id: "60 \<notin> set s \<Longrightarrow> 62 \<notin> set s \<Longrightarrow> strip_angle s = s"
  by (auto simp: strip_angle_def filter_id_conv)

lemma set_trim: "set (trim s) \<subseteq> set s"
proof -
  have "set (dropWhile is_space (rev (dropWhile is_space s))) \<subseteq> set (rev (dropWhile is_space s))"
    by (rule set_dropWhileD [THEN subsetI])
  also have "\<dots> \<subseteq> set s" using set_dropWhileD [of _ is_space s] by auto
  finally show ?thesis by (simp add: trim_def)
qed

lemma trim_idem: "trim (trim s) = trim s"
proof -
  define t where "t = dropWhile is_space s"
  define u where "u = rev (dropWhile is_space (rev t))"
  have tu: "t = u @ rev (takeWhile is_space (rev t))"
  proof -
    have "rev (takeWhile is_space (rev t) @ dropWhile is_space (rev t)) = t" by simp
    then show ?thesis unfolding u_def rev_append by simp
  qed
  have lead: "dropWhile is_space u = u"
  proof (cases u)
    case Nil
    then show ?thesis by simp
  next
    case (Cons a w)
    have ht: "t \<noteq> []" "hd t = a" by (subst tu, simp add: Cons)+
    then have "\<not> is_space (hd t)" using hd_dropWhile [of is_space s] by (simp add: t_def)
    with ht Cons show ?thesis by simp
  qed
  have trail: "dropWhile is_space (rev u) = rev u"
    by (simp add: u_def)
  have "trim s = u" by (simp add: trim_def t_def u_def)
  moreover have "trim u = u" by (simp add: trim_def lead trail)
  ultimately show ?thesis by simp
qed

lemma trimmed_clean:
  assumes "60 \<notin> set s" and "62 \<notin> set s"
  shows "trimmed (strip_angle (trim s))"
proof -
  have "60 \<notin> set (trim s)" "62 \<notin> set (trim s)" using assms set_trim [of s] by auto
  then have "strip_angle (trim s) = trim s" by (rule strip_angle_id)
  then show ?thesis by (simp add: trimmed_def trim_idem)
qed

text \<open>
  C10 (as stated) fails: the name \<open>< x\<close> passes validation and comes back as \<open> x\<close> (a
  space, then x), which is not trimmed: the angle bracket is deleted after the trimming.
\<close>

theorem C10_untrimmed_name_counterexample:
  "map_sum (\<lambda>details. ()) (\<lambda>r. c_name (s_data r))
     (validateAndSanitizeComponent (JObj [(js ''name'', JStr (js ''< x''))]))
     = Inr (js '' x'')
   \<and> trim (js '' x'') \<noteq> js '' x''"
  by code_simp

text \<open>
  C10 (amended).  For every payload accepted by the create path, the returned name, the
  returned category and every returned tag contain no \<open><\<close> and no \<open>>\<close>, and every returned
  tag is non-empty.  Each returned value is the validated value, trimmed and then stripped of
  its angle brackets; it is itself trimmed whenever the validated value contains no angle
  bracket.
\<close>

theorem C10_metadata_sanitized:
  "validateAndSanitizeComponent d = Inr r \<longrightarrow>
     (\<exists>c. ComponentSchema d = Inr c
        \<and> c_name (s_data r) = strip_angle (trim (c_name c))
        \<and> c_category (s_data r) = strip_angle (trim (c_category c))
        \<and> c_tags (s_data r) = filter (\<lambda>t. t \<noteq> []) (map (\<lambda>t. strip_angle (trim t)) (c_tags c))
        \<and> (60 \<notin> set (c_name c) \<and> 62 \<notin> set (c_name c) \<longrightarrow> trimmed (c_name (s_data r)))
        \<and> (60 \<notin> set (c_category c) \<and> 62 \<notin> set (c_category c)
             \<longrightarrow> trimmed (c_category (s_data r)))
        \<and> ((\<forall>t\<in>set (c_tags c). 60 \<notin> set t \<and> 62 \<notin> set t)
             \<longrightarrow> (\<forall>t\<in>set (c_tags (s_data r)). trimmed t)))
     \<and> 60 \<notin> set (c_name (s_data r)) \<and> 62 \<notin> set (c_name (s_data r))
     \<and> 60 \<notin> set (c_category (s_data r)) \<and> 62 \<notin> set (c_category (s_data r))
     \<and> (\<forall>t\<in>set (c_tags (s_data r)). t \<noteq> [] \<and> 60 \<notin> set t \<and> 62 \<notin> set t)"
proof
  assume ok: "validateAndSanitizeComponent d = Inr r"
  then obtain c where c: "ComponentSchema d = Inr c"
    by (cases "ComponentSchema d") (simp_all add: validateAndSanitizeComponent_def)
  have n: "c_name (s_data r) = strip_angle (trim (c_name c))"
    and g: "c_category (s_data r) = strip_angle (trim (c_category c))"
    and t: "c_tags (s_data r) = filter (\<lambda>t. t \<noteq> []) (map (\<lambda>t. strip_angle (trim t)) (c_tags c))"
    using ok c by (auto simp: validateAndSanitizeComponent_def Let_def)
  have tn: "60 \<notin> set (c_name c) \<and> 62 \<notin> set (c_name c) \<longrightarrow> trimmed (c_name (s_data r))"
    unfolding n using trimmed_clean by blast
  have tg: "60 \<notin> set (c_category c) \<and> 62 \<notin> set (c_category c) \<longrightarrow> trimmed (c_category (s_data r))"
    unfolding g using trimmed_clean by blast
  have tt: "(\<forall>t\<in>set (c_tags c). 60 \<notin> set t \<and> 62 \<notin> set t)
             \<longrightarrow> (\<forall>t\<in>set (c_tags (s_data r)). trimmed t)"
    unfolding t using trimmed_clean by auto
  have first: "\<exists>c. ComponentSchema d = Inr c
        \<and> c_name (s_data r) = strip_angle (trim (c_name c))
        \<and> c_category (s_data r) = strip_angle (trim (c_category c))
        \<and> c_tags (s_data r) = filter (\<lambda>t. t \<noteq> []) (map (\<lambda>t. strip_angle (trim t)) (c_tags c))
        \<and> (60 \<notin> set (c_name c) \<and> 62 \<notin> set (c_name c) \<longrightarrow> trimmed (c_name (s_data r)))
        \<and> (60 \<notin> set (c_category c) \<and> 62 \<notin> set (c_category c)
             \<longrightarrow> trimmed (c_category (s_data r)))
        \<and> ((\<forall>t\<in>set (c_tags c). 60 \<notin> set t \<and> 62 \<notin> set t)
             \<longrightarrow> (\<forall>t\<in>set (c_tags (s_data r)). trimmed t))"
    using c n g t tn tg tt by blast
  have free: "60 \<notin> set (c_name (s_data r)) \<and> 62 \<notin> set (c_name (s_data r))
     \<and> 60 \<notin> set (c_category (s_data r)) \<and> 62 \<notin> set (c_category (s_data r))"
    unfolding n g using strip_angle_free by blast
  have tags: "\<forall>t\<in>set (c_tags (s_data r)). t \<noteq> [] \<and> 60 \<notin> set t \<and> 62 \<notin> set t"
    unfolding t using strip_angle_free by auto
  show "(\<exists>c. ComponentSchema d = Inr c
        \<and> c_name (s_data r) = strip_angle (trim (c_name c))
        \<and> c_category (s_data r) = strip_angle (trim (c_category c))
        \<and> c_tags (s_data r) = filter (\<lambda>t. t \<noteq> []) (map (\<lambda>t. strip_angle (trim t)) (c_tags c))
        \<and> (60 \<notin> set (c_name c) \<and> 62 \<notin> set (c_name c) \<longrightarrow> trimmed (c_name (s_data r)))
        \<and> (60 \<notin> set (c_category c) \<and> 62 \<notin> set (c_category c)
             \<longrightarrow> trimmed (c_category (s_data r)))
        \<and> ((\<forall>t\<in>set (c_tags c). 60 \<notin> set t \<and> 62 \<notin> set t)
             \<longrightarrow> (\<forall>t\<in>set (c_tags (s_data r)). trimmed t)))
     \<and> 60 \<notin> set (c_name (s_data r)) \<and> 62 \<notin> set (c_name (s_data r))
     \<and> 60 \<notin> set (c_category (s_data r)) \<and> 62 \<notin> set (c_category (s_data r))
     \<and> (\<forall>t\<in>set (c_tags (s_data r)). t \<noteq> [] \<and> 60 \<notin> set t \<and> 62 \<notin> set t)"
    using first free tags by blast
qed
theorem C10_metadata_sanitized_witness:
  "validateAndSanitizeComponent
     (JObj [(js ''name'', JStr (js '' Btn '')), (js ''tags'', JArr [JStr (js '' <b>ui ''), JStr (js ''<>'')])])
     = Inr \<lparr>s_data = \<lparr>c_name = js ''Btn'', c_category = js ''Other'', c_html = [], c_css = [],
                       c_js = [], c_tags = [js ''bui'']\<rparr>,
            s_warnings = []\<rparr>
   \<and> 60 \<notin> set (js ''Btn'') \<and> 62 \<notin> set (js ''Btn'')
   \<and> js ''bui'' \<noteq> [] \<and> 60 \<notin> set (js ''bui'') \<and> 62 \<notin> set (js ''bui'')"
proof -
  let ?d = "JObj [(js ''name'', JStr (js '' Btn '')),
                  (js ''tags'', JArr [JStr (js '' <b>ui ''), JStr (js ''<>'')])]"
  let ?r = "\<lparr>s_data = \<lparr>c_name = js ''Btn'', c_category = js ''Other'', c_html = [], c_css = [],
                       c_js = [], c_tags = [js ''bui'']\<rparr>,
            s_warnings = []\<rparr>"
  have h: "validateAndSanitizeComponent ?d = Inr ?r" by code_simp
  have c: "60 \<notin> set (c_name (s_data ?r)) \<and> 62 \<notin> set (c_name (s_data ?r))
     \<and> (\<forall>t\<in>set (c_tags (s_data ?r)). t \<noteq> [] \<and> 60 \<notin> set t \<and> 62 \<notin> set t)"
    using C10_metadata_sanitized [of ?d ?r] h by blast
  show ?thesis using h c by simp
qed

end
